(* ===== verification/Prelude.thy ===== *)
theory Prelude
  imports Main "HOL-Library.Word"
begin

text \<open>
  Shared vocabulary of the development: C strings and the pieces of the C standard library
  that the sources of \<^verbatim>\<open>bsdqserver\<close> and \<^verbatim>\<open>bsdqclient\<close> use on them (\<^verbatim>\<open>printf("%d")\<close>,
  \<^verbatim>\<open>sscanf("%d")\<close>, \<^verbatim>\<open>printf("%02d")\<close>), fixed-width character arrays, little-endian machine
  integers, and the generic list lemmas the component proofs rest on.

  A C string is a \<^typ>\<open>string\<close> without its terminating NUL; a byte is a \<^typ>\<open>char\<close>.  The
  collections \<open>c_lib\<close>, \<open>srv_defs\<close> and \<open>wire_simps\<close> gather the facts that \<open>simp add:\<close> uses on
  the standard library, on the server's handlers and on the wire format.
\<close>

named_theorems c_lib "facts on the modelled pieces of the C standard library"
named_theorems srv_defs "unfolding of the server's handlers"
named_theorems wire_simps "layout of the structures on the wire"

type_synonym bytes = "char list"
type_synonym u8 = "8 word"

abbreviation NUL :: char where
  "NUL \<equiv> CHR 0x00"

text \<open>A text given by its UTF-8 bytes.\<close>

definition utf8 :: "nat list \<Rightarrow> string" where
  "utf8 ns = map char_of ns"

section \<open>Decimal integers\<close>

definition digit_char :: "nat \<Rightarrow> char" where
  "digit_char d = char_of (48 + d)"

definition is_digit :: "char \<Rightarrow> bool" where
  "is_digit c \<longleftrightarrow> 48 \<le> (of_char c :: nat) \<and> (of_char c :: nat) \<le> 57"

definition digit_val :: "char \<Rightarrow> nat" where
  "digit_val c = of_char c - 48"

fun dec_nat :: "nat \<Rightarrow> string" where
  "dec_nat n = (if n < 10 then [digit_char n] else dec_nat (n div 10) @ [digit_char (n mod 10)])"

declare dec_nat.simps [simp del]

text \<open>\<^verbatim>\<open>printf("%d", n)\<close>\<close>

definition dec :: "int \<Rightarrow> string" where
  "dec n = (if n < 0 then CHR ''-'' # dec_nat (nat (- n)) else dec_nat (nat n))"

text \<open>\<^verbatim>\<open>printf("%02d", n)\<close>\<close>

definition dec02 :: "int \<Rightarrow> string" where
  "dec02 n = (let t = dec n in if length t < 2 then CHR ''0'' # t else t)"

fun scan_digits :: "nat \<Rightarrow> string \<Rightarrow> nat \<times> string" where
  "scan_digits a [] = (a, [])"
| "scan_digits a (c # cs) =
     (if is_digit c then scan_digits (10 * a + digit_val c) cs else (a, c # cs))"

definition is_space :: "char \<Rightarrow> bool" where
  "is_space c \<longleftrightarrow> c \<in> {CHR '' '', CHR 0x09, CHR 0x0A, CHR 0x0B, CHR 0x0C, CHR 0x0D}"

text \<open>
  \<^verbatim>\<open>sscanf(s, "%d", &v)\<close>: white space is skipped, a sign is optional, and at least one digit
  is required; \<^const>\<open>None\<close> is the matching failure, which leaves \<^verbatim>\<open>v\<close> as it was.
\<close>

definition scan_d :: "string \<Rightarrow> (int \<times> string) option" where
  "scan_d s =
     (let t = dropWhile is_space s;
          neg = (t \<noteq> [] \<and> hd t = CHR ''-'');
          u = (if t \<noteq> [] \<and> (hd t = CHR ''-'' \<or> hd t = CHR ''+'') then tl t else t)
      in if u = [] \<or> \<not> is_digit (hd u) then None
         else (case scan_digits 0 u of
                 (n, r) \<Rightarrow> Some (if neg then - int n else int n, r)))"

definition sscanf_d :: "string \<Rightarrow> int \<Rightarrow> int" where
  "sscanf_d s old = (case scan_d s of None \<Rightarrow> old | Some (n, _) \<Rightarrow> n)"

lemma of_char_digit_char [simp]: "d < 10 \<Longrightarrow> (of_char (digit_char d) :: nat) = 48 + d"
  by (simp add: digit_char_def)

lemma is_digit_digit_char [simp]: "d < 10 \<Longrightarrow> is_digit (digit_char d)"
  by (simp add: is_digit_def)

lemma digit_val_digit_char [simp]: "d < 10 \<Longrightarrow> digit_val (digit_char d) = d"
  by (simp add: digit_val_def)

lemma dec_nat_nonempty [simp]: "dec_nat n \<noteq> []"
  by (subst dec_nat.simps) simp

lemma dec_nonempty [simp]: "dec n \<noteq> []"
  by (simp add: dec_def)

lemma dec_nat_digits: "c \<in> set (dec_nat n) \<Longrightarrow> is_digit c"
proof (induction n rule: dec_nat.induct)
  case (1 n)
  then show ?case
    by (cases "n < 10") (auto simp: dec_nat.simps [of n])
qed

lemma scan_digits_dec_nat:
  "(r = [] \<or> \<not> is_digit (hd r)) \<Longrightarrow>
   scan_digits a (dec_nat n @ r) = (a * 10 ^ length (dec_nat n) + n, r)"
proof (induction n arbitrary: a r rule: dec_nat.induct)
  case (1 n)
  show ?case
  proof (cases "n < 10")
    case True
    with "1.prems" show ?thesis
      by (cases r) (auto simp: dec_nat.simps [of n])
  next
    case False
    let ?m = "n div 10" and ?d = "n mod 10"
    have split: "scan_digits a (dec_nat ?m @ s) = scan_digits (a * 10 ^ length (dec_nat ?m) + ?m) s"
      if "s \<noteq> []" "is_digit (hd s)" for s
    proof -
      have "scan_digits a (t @ s) = scan_digits (fst (scan_digits a t)) s"
        if "\<forall>c \<in> set t. is_digit c" for t a
        using that by (induction t arbitrary: a) auto
      moreover have "scan_digits a (dec_nat ?m @ []) = (a * 10 ^ length (dec_nat ?m) + ?m, [])"
        using False by (intro "1.IH") auto
      ultimately show ?thesis
        by (metis append_Nil2 dec_nat_digits fst_conv)
    qed
    have "dec_nat n @ r = dec_nat ?m @ digit_char ?d # r"
      using False by (simp add: dec_nat.simps [of n])
    then have "scan_digits a (dec_nat n @ r)
        = scan_digits (a * 10 ^ length (dec_nat ?m) + ?m) (digit_char ?d # r)"
      by (simp add: split)
    also have "\<dots> = (10 * (a * 10 ^ length (dec_nat ?m) + ?m) + ?d, r)"
      using "1.prems" by (cases r) auto
    also have "10 * (a * 10 ^ length (dec_nat ?m) + ?m) + ?d = a * 10 ^ length (dec_nat n) + n"
      using False by (simp add: dec_nat.simps [of n])
    finally show ?thesis .
  qed
qed

lemma digit_not_sign:
  assumes "is_digit c"
  shows "c \<noteq> CHR ''-'' \<and> c \<noteq> CHR ''+'' \<and> \<not> is_space c"
  using assms by (auto simp: is_digit_def is_space_def)

lemma hd_dec_nat: "is_digit (hd (dec_nat n))"
  by (rule dec_nat_digits) (rule hd_in_set, simp)

lemma minus_not_space [simp]: "\<not> is_space (CHR ''-'')"
  by (simp add: is_space_def)

lemma scan_d_dec:
  assumes "r = [] \<or> \<not> is_digit (hd r)"
  shows "scan_d (dec n @ r) = Some (n, r)"
proof (cases "n < 0")
  case True
  have h: "is_digit (hd (dec_nat (nat (- n)) @ r))"
    by (simp add: hd_dec_nat)
  with True assms show ?thesis
    by (simp add: scan_d_def dec_def scan_digits_dec_nat)
next
  case False
  obtain c cs where e: "dec_nat (nat n) = c # cs"
    by (cases "dec_nat (nat n)") auto
  then have c: "is_digit c"
    using hd_dec_nat [of "nat n"] by simp
  have "scan_digits 0 (c # cs @ r) = (nat n, r)"
    using scan_digits_dec_nat [OF assms, of 0 "nat n"] by (simp add: e)
  with False c digit_not_sign [OF c] show ?thesis
    by (simp add: scan_d_def dec_def e Let_def)
qed

lemma sscanf_d_dec [simp, c_lib]: "sscanf_d (dec n) old = n"
  using scan_d_dec [of "[]" n] by (simp add: sscanf_d_def)

lemma dec_inject [simp]: "dec a = dec b \<longleftrightarrow> a = b"
  by (metis sscanf_d_dec)

lemma length_dec_nat: "n < 10 ^ k \<Longrightarrow> 0 < k \<Longrightarrow> length (dec_nat n) \<le> k"
proof (induction n arbitrary: k rule: dec_nat.induct)
  case (1 n)
  show ?case
  proof (cases "n < 10")
    case True
    with "1.prems" show ?thesis by (simp add: dec_nat.simps [of n])
  next
    case False
    with "1.prems" obtain j where k: "k = Suc j" "0 < j"
      by (metis Suc_eq_plus1 gr0_conv_Suc mult.right_neutral nat.exhaust neq0_conv
          power_0 power_Suc add_0)
    with "1.prems" have "n div 10 < 10 ^ j" by (simp add: less_mult_imp_div_less)
    with False k "1.IH" have "length (dec_nat (n div 10)) \<le> j" by simp
    with False k show ?thesis by (simp add: dec_nat.simps [of n])
  qed
qed

section \<open>Lists\<close>

lemma take_append_exact [simp]: "length a = n \<Longrightarrow> take n (a @ b) = a"
  by simp

lemma drop_append_exact [simp]: "length a = n \<Longrightarrow> drop n (a @ b) = b"
  by simp

lemma map_if_unchanged: "(\<And>x. x \<in> set xs \<Longrightarrow> \<not> P x) \<Longrightarrow> map (\<lambda>x. if P x then f x else x) xs = xs"
  by (induction xs) auto

lemma filter_single:
  assumes "distinct (map key xs)" and "x \<in> set xs"
  shows "filter (\<lambda>y. key y = key x) xs = [x]"
  using assms by (induction xs) (auto simp: image_iff filter_empty_conv)

lemma distinct_map_same:
  "distinct (map f xs) \<Longrightarrow> x \<in> set xs \<Longrightarrow> y \<in> set xs \<Longrightarrow> f x = f y \<Longrightarrow> x = y"
  by (auto simp: distinct_map dest: inj_onD)

lemma distinct_bounded_length:
  assumes "distinct (map f xs)" and "\<And>x. x \<in> set xs \<Longrightarrow> 1 \<le> f x \<and> f x \<le> (int n)"
  shows "length xs \<le> n"
proof -
  have "set (map f xs) \<subseteq> {1..int n}"
    using assms(2) by auto
  then have "card (set (map f xs)) \<le> card {1..int n}"
    by (intro card_mono) auto
  moreover have "card (set (map f xs)) = length xs"
    using assms(1) by (metis distinct_card length_map)
  ultimately show ?thesis by simp
qed

end
