(* ===== verification/Clisrv.thy ===== *)
theory Clisrv
  imports Prelude
begin

text \<open>
  The data model shared by client and server, \<^verbatim>\<open>clisrv.h\<close> (the two copies are identical): the
  limits, the structures \<^verbatim>\<open>book_entry_t\<close>, \<^verbatim>\<open>shelf_entry_t\<close>, \<^verbatim>\<open>account_entry_t\<close>, the union
  \<^verbatim>\<open>trans_stuff_un\<close>, the message \<^verbatim>\<open>message_cs_t\<close> and the heartbeat, and their memory layout: a
  message travels as the bytes of the C structure, so the layout is the wire format.

  Character arrays are \<^typ>\<open>string\<close>s up to their NUL; an \<^verbatim>\<open>int\<close> is an \<^typ>\<open>int\<close>, an
  \<^verbatim>\<open>unsigned char\<close> a \<^typ>\<open>u8\<close>.  \<^verbatim>\<open>code[0]\<close>, \<^verbatim>\<open>code[1]\<close> and \<^verbatim>\<open>code[2]\<close> of a book (shelf number,
  floor and row, book number) are the fields \<open>code0\<close>, \<open>code1\<close> and \<open>code2\<close>.  The union is the
  member last written; reading another member reinterprets the bytes (\<open>book_view\<close> and its
  siblings).  The main result is that packing and unpacking a well-formed message is lossless.
\<close>

section \<open>Limits\<close>

definition MAX_BOOK_NUM :: int where "MAX_BOOK_NUM = 10000"
definition BOOK_NAME_LEN :: nat where "BOOK_NAME_LEN = 64 * 3"
definition AUTHOR_NAME_LEN :: nat where "AUTHOR_NAME_LEN = 32 * 3"
definition MAX_LABEL_NUM :: nat where "MAX_LABEL_NUM = 10"
definition LABEL_NAME_LEN :: nat where "LABEL_NAME_LEN = 6 * 3"
definition LABEL_LEN :: nat where "LABEL_LEN = MAX_LABEL_NUM * (LABEL_NAME_LEN + 1)"
definition MAX_SHELF_NUM :: int where "MAX_SHELF_NUM = 15"
definition SHELF_NAME_LEN :: nat where "SHELF_NAME_LEN = 64 * 3"
definition MAX_FLOORS :: nat where "MAX_FLOORS = 15"
definition MAX_DEPTH :: nat where "MAX_DEPTH = 5"
definition MAX_USER_NUM :: int where "MAX_USER_NUM = 16"
definition BCRYPT_WORK_FACTOR :: int where "BCRYPT_WORK_FACTOR = 12"
definition BCRYPT_HASHSIZE :: nat where "BCRYPT_HASHSIZE = 64"
definition USER_NAME_LEN :: nat where "USER_NAME_LEN = 64"
definition ERR_TEXT_LEN :: nat where "ERR_TEXT_LEN = 80"
definition EXTRA_INFO_SIZ :: nat where "EXTRA_INFO_SIZ = 7"
definition DEFAULT_FINDS :: int where "DEFAULT_FINDS = 30"
definition NON_SENSE_INT :: int where "NON_SENSE_INT = 0"
definition BREAK_LIMIT_INT :: int where "BREAK_LIMIT_INT = MAX_BOOK_NUM + 1"
definition FLAG_BORROWED :: char where "FLAG_BORROWED = CHR ''1''"
definition FLAG_ON_READING :: char where "FLAG_ON_READING = CHR ''1''"
definition FLAG_FIND_UNSORTED :: char where "FLAG_FIND_UNSORTED = CHR ''2''"
definition BOOK_AVL :: int where "BOOK_AVL = 0"
definition BOOK_DEL :: int where "BOOK_DEL = 1"
definition BOOK_UNSORTED :: int where "BOOK_UNSORTED = 2"
definition SHELF_AVL :: int where "SHELF_AVL = 0"
definition SHELF_DEL :: int where "SHELF_DEL = 1"
definition MYSQL_PW_LEN :: nat where "MYSQL_PW_LEN = 16"
definition ADMIN_DEFAULT_ACCOUNT :: string where "ADMIN_DEFAULT_ACCOUNT = ''shelfadmin''"
definition ADMIN_DEFAULT_PW :: string where "ADMIN_DEFAULT_PW = ''000000''"

lemmas limits =
  MAX_BOOK_NUM_def BOOK_NAME_LEN_def AUTHOR_NAME_LEN_def MAX_LABEL_NUM_def LABEL_NAME_LEN_def
  LABEL_LEN_def MAX_SHELF_NUM_def SHELF_NAME_LEN_def MAX_FLOORS_def MAX_DEPTH_def
  MAX_USER_NUM_def BCRYPT_WORK_FACTOR_def BCRYPT_HASHSIZE_def USER_NAME_LEN_def
  ERR_TEXT_LEN_def EXTRA_INFO_SIZ_def DEFAULT_FINDS_def NON_SENSE_INT_def BREAK_LIMIT_INT_def

lemmas book_states = BOOK_AVL_def BOOK_DEL_def BOOK_UNSORTED_def SHELF_AVL_def SHELF_DEL_def

lemmas find_flags = FLAG_BORROWED_def FLAG_ON_READING_def FLAG_FIND_UNSORTED_def

section \<open>Structures\<close>

record book_entry =
  code0 :: int
  code1 :: int
  code2 :: int
  b_name :: string
  b_author :: string
  b_label :: string
  borrowed :: char
  on_reading :: char
  encoding_time :: string

record book_count =
  books_all :: int
  books_on_reading :: int
  books_borrowed :: int
  books_unsorted :: int

record shelf_entry =
  s_code :: int
  s_name :: string
  nfloors :: u8
  ndepth :: "u8 list"
  building_time :: string

record shelf_count =
  shelves_all :: int

datatype account_type = account_admin_e | account_user_e | account_other_e int

record account_entry =
  a_type :: account_type
  a_name :: string
  a_password :: string

datatype trans_stuff =
    Shelf_un shelf_entry
  | Book_un book_entry
  | Account_un account_entry

datatype client_request =
    req_insert_book_e | req_delete_book_e | req_update_book_e | req_find_book_e
  | req_count_book_e | req_build_shelf_e | req_remove_shelf_e | req_find_shelf_e
  | req_count_shelf_e | req_verify_account_e | req_register_account_e | req_heartbeat_e
  | req_other_e int

datatype server_response =
    r_success | r_failed | r_find_end_more | r_find_end | r_other int

record message_cs =
  m_user :: string
  m_request :: client_request
  m_stuff :: trans_stuff
  m_response :: server_response
  m_error_text :: string
  m_extra_info :: "int list"

record heartbeat_cs =
  hb_request :: client_request
  hb_response :: server_response
  hb_extra_info :: "int list"

section \<open>Enumerations as integers\<close>

fun account_type_int :: "account_type \<Rightarrow> int" where
  "account_type_int account_admin_e = 0"
| "account_type_int account_user_e = 1"
| "account_type_int (account_other_e n) = n"

definition int_account_type :: "int \<Rightarrow> account_type" where
  "int_account_type n =
     (if n = 0 then account_admin_e else if n = 1 then account_user_e else account_other_e n)"

fun request_int :: "client_request \<Rightarrow> int" where
  "request_int req_insert_book_e = 0"
| "request_int req_delete_book_e = 1"
| "request_int req_update_book_e = 2"
| "request_int req_find_book_e = 3"
| "request_int req_count_book_e = 4"
| "request_int req_build_shelf_e = 5"
| "request_int req_remove_shelf_e = 6"
| "request_int req_find_shelf_e = 7"
| "request_int req_count_shelf_e = 8"
| "request_int req_verify_account_e = 9"
| "request_int req_register_account_e = 10"
| "request_int req_heartbeat_e = 11"
| "request_int (req_other_e n) = n"

definition int_request :: "int \<Rightarrow> client_request" where
  "int_request n =
     (if 0 \<le> n \<and> n < 12 then
        [req_insert_book_e, req_delete_book_e, req_update_book_e, req_find_book_e,
         req_count_book_e, req_build_shelf_e, req_remove_shelf_e, req_find_shelf_e,
         req_count_shelf_e, req_verify_account_e, req_register_account_e, req_heartbeat_e] ! nat n
      else req_other_e n)"

fun response_int :: "server_response \<Rightarrow> int" where
  "response_int r_success = 0"
| "response_int r_failed = 1"
| "response_int r_find_end_more = 2"
| "response_int r_find_end = 3"
| "response_int (r_other n) = n"

definition int_response :: "int \<Rightarrow> server_response" where
  "int_response n =
     (if n = 0 then r_success else if n = 1 then r_failed else if n = 2 then r_find_end_more
      else if n = 3 then r_find_end else r_other n)"

section \<open>Memory layout\<close>

text \<open>
  The layout of the structures for the usual ABI (4-byte little-endian \<^verbatim>\<open>int\<close>, natural
  alignment): \<^verbatim>\<open>sizeof(book_entry_t) = 516\<close>, \<^verbatim>\<open>sizeof(shelf_entry_t) = 236\<close>,
  \<^verbatim>\<open>sizeof(account_entry_t) = 136\<close>, \<^verbatim>\<open>sizeof(message_cs_t) = 704\<close>,
  \<^verbatim>\<open>sizeof(heartbeat_cs_t) = 16\<close>.
\<close>

definition put_str :: "nat \<Rightarrow> string \<Rightarrow> bytes" where
  "put_str n s = take n (s @ replicate n NUL)"

definition get_str :: "bytes \<Rightarrow> string" where
  "get_str bs = takeWhile (\<lambda>c. c \<noteq> NUL) bs"

definition byte_of :: "int \<Rightarrow> char" where
  "byte_of n = char_of (nat (n mod 256))"

definition put_int :: "int \<Rightarrow> bytes" where
  "put_int n = [byte_of n, byte_of (n div 256), byte_of (n div 65536), byte_of (n div 16777216)]"

definition int_of_byte :: "char \<Rightarrow> int" where
  "int_of_byte c = int (of_char c)"

definition get_int :: "bytes \<Rightarrow> int" where
  "get_int bs =
     (let u = int_of_byte (bs ! 0) + 256 * int_of_byte (bs ! 1) + 65536 * int_of_byte (bs ! 2)
              + 16777216 * int_of_byte (bs ! 3)
      in if u < 2147483648 then u else u - 4294967296)"

definition put_u8 :: "u8 \<Rightarrow> char" where
  "put_u8 w = char_of (unat w)"

definition get_u8 :: "char \<Rightarrow> u8" where
  "get_u8 c = of_nat (of_char c)"

definition field_at :: "nat \<Rightarrow> nat \<Rightarrow> bytes \<Rightarrow> bytes" where
  "field_at off n bs = take n (drop off bs)"

definition put_book :: "book_entry \<Rightarrow> bytes" where
  "put_book b = put_int (code0 b) @ put_int (code1 b) @ put_int (code2 b)
     @ put_str 193 (b_name b) @ put_str 97 (b_author b) @ put_str 191 (b_label b)
     @ [borrowed b, on_reading b] @ put_str 20 (encoding_time b) @ [NUL]"

definition get_book :: "bytes \<Rightarrow> book_entry" where
  "get_book bs = \<lparr>code0 = get_int (field_at 0 4 bs), code1 = get_int (field_at 4 4 bs),
     code2 = get_int (field_at 8 4 bs), b_name = get_str (field_at 12 193 bs),
     b_author = get_str (field_at 205 97 bs), b_label = get_str (field_at 302 191 bs),
     borrowed = bs ! 493, on_reading = bs ! 494, encoding_time = get_str (field_at 495 20 bs)\<rparr>"

definition put_shelf :: "shelf_entry \<Rightarrow> bytes" where
  "put_shelf s = put_int (s_code s) @ put_str 193 (s_name s) @ [put_u8 (nfloors s)]
     @ map put_u8 (ndepth s) @ put_str 20 (building_time s) @ replicate 3 NUL"

definition get_shelf :: "bytes \<Rightarrow> shelf_entry" where
  "get_shelf bs = \<lparr>s_code = get_int (field_at 0 4 bs), s_name = get_str (field_at 4 193 bs),
     nfloors = get_u8 (bs ! 197), ndepth = map get_u8 (field_at 198 15 bs),
     building_time = get_str (field_at 213 20 bs)\<rparr>"

definition put_account :: "account_entry \<Rightarrow> bytes" where
  "put_account a = put_int (account_type_int (a_type a)) @ put_str 65 (a_name a)
     @ put_str 65 (a_password a) @ replicate 2 NUL"

definition get_account :: "bytes \<Rightarrow> account_entry" where
  "get_account bs = \<lparr>a_type = int_account_type (get_int (field_at 0 4 bs)),
     a_name = get_str (field_at 4 65 bs), a_password = get_str (field_at 69 65 bs)\<rparr>"

fun put_stuff :: "trans_stuff \<Rightarrow> bytes" where
  "put_stuff (Shelf_un s) = put_shelf s @ replicate 280 NUL"
| "put_stuff (Book_un b) = put_book b"
| "put_stuff (Account_un a) = put_account a @ replicate 380 NUL"

text \<open>Reading a member of the union: the member last written, or its bytes reinterpreted.\<close>

definition book_view :: "trans_stuff \<Rightarrow> book_entry" where
  "book_view u = (case u of Book_un b \<Rightarrow> b | _ \<Rightarrow> get_book (put_stuff u))"

definition shelf_view :: "trans_stuff \<Rightarrow> shelf_entry" where
  "shelf_view u = (case u of Shelf_un s \<Rightarrow> s | _ \<Rightarrow> get_shelf (put_stuff u))"

definition account_view :: "trans_stuff \<Rightarrow> account_entry" where
  "account_view u = (case u of Account_un a \<Rightarrow> a | _ \<Rightarrow> get_account (put_stuff u))"

abbreviation book_of :: "message_cs \<Rightarrow> book_entry" where
  "book_of m \<equiv> book_view (m_stuff m)"

abbreviation shelf_of :: "message_cs \<Rightarrow> shelf_entry" where
  "shelf_of m \<equiv> shelf_view (m_stuff m)"

abbreviation account_of :: "message_cs \<Rightarrow> account_entry" where
  "account_of m \<equiv> account_view (m_stuff m)"

abbreviation set_book :: "book_entry \<Rightarrow> message_cs \<Rightarrow> message_cs" where
  "set_book b m \<equiv> m\<lparr>m_stuff := Book_un b\<rparr>"

abbreviation set_shelf :: "shelf_entry \<Rightarrow> message_cs \<Rightarrow> message_cs" where
  "set_shelf e m \<equiv> m\<lparr>m_stuff := Shelf_un e\<rparr>"

lemma book_view_Book_un [simp]: "book_view (Book_un b) = b"
  by (simp add: book_view_def)

lemma shelf_view_Shelf_un [simp]: "shelf_view (Shelf_un e) = e"
  by (simp add: shelf_view_def)

lemma account_view_Account_un [simp]: "account_view (Account_un a) = a"
  by (simp add: account_view_def)

text \<open>The member a request's handler works on.\<close>

fun get_stuff :: "client_request \<Rightarrow> bytes \<Rightarrow> trans_stuff" where
  "get_stuff req_build_shelf_e bs = Shelf_un (get_shelf bs)"
| "get_stuff req_remove_shelf_e bs = Shelf_un (get_shelf bs)"
| "get_stuff req_find_shelf_e bs = Shelf_un (get_shelf bs)"
| "get_stuff req_count_shelf_e bs = Shelf_un (get_shelf bs)"
| "get_stuff req_verify_account_e bs = Account_un (get_account bs)"
| "get_stuff req_register_account_e bs = Account_un (get_account bs)"
| "get_stuff _ bs = Book_un (get_book bs)"

definition sizeof_message :: nat where "sizeof_message = 704"
definition sizeof_heartbeat :: nat where "sizeof_heartbeat = 16"

definition put_message :: "message_cs \<Rightarrow> bytes" where
  "put_message m = put_str 65 (m_user m) @ replicate 3 NUL @ put_int (request_int (m_request m))
     @ put_stuff (m_stuff m) @ put_int (response_int (m_response m))
     @ put_str 81 (m_error_text m) @ replicate 3 NUL @ concat (map put_int (m_extra_info m))"

definition get_message :: "bytes \<Rightarrow> message_cs" where
  "get_message bs =
     (let req = int_request (get_int (field_at 68 4 bs)) in
      \<lparr>m_user = get_str (field_at 0 65 bs), m_request = req,
       m_stuff = get_stuff req (field_at 72 516 bs),
       m_response = int_response (get_int (field_at 588 4 bs)),
       m_error_text = get_str (field_at 592 81 bs),
       m_extra_info = map (\<lambda>i. get_int (field_at (676 + 4 * i) 4 bs)) [0..<7]\<rparr>)"

definition put_heartbeat :: "heartbeat_cs \<Rightarrow> bytes" where
  "put_heartbeat h = put_int (request_int (hb_request h)) @ put_int (response_int (hb_response h))
     @ concat (map put_int (hb_extra_info h))"

section \<open>Well-formed values\<close>

definition c_int :: "int \<Rightarrow> bool" where
  "c_int n \<longleftrightarrow> - 2147483648 \<le> n \<and> n < 2147483648"

definition c_str :: "nat \<Rightarrow> string \<Rightarrow> bool" where
  "c_str n s \<longleftrightarrow> length s \<le> n \<and> NUL \<notin> set s"

definition wf_book :: "book_entry \<Rightarrow> bool" where
  "wf_book b \<longleftrightarrow> c_int (code0 b) \<and> c_int (code1 b) \<and> c_int (code2 b)
     \<and> c_str BOOK_NAME_LEN (b_name b) \<and> c_str AUTHOR_NAME_LEN (b_author b)
     \<and> c_str LABEL_LEN (b_label b) \<and> c_str 19 (encoding_time b)"

definition wf_shelf :: "shelf_entry \<Rightarrow> bool" where
  "wf_shelf s \<longleftrightarrow> c_int (s_code s) \<and> c_str SHELF_NAME_LEN (s_name s)
     \<and> length (ndepth s) = MAX_FLOORS \<and> c_str 19 (building_time s)"

definition wf_account :: "account_entry \<Rightarrow> bool" where
  "wf_account a \<longleftrightarrow> c_int (account_type_int (a_type a))
     \<and> int_account_type (account_type_int (a_type a)) = a_type a
     \<and> c_str BCRYPT_HASHSIZE (a_name a) \<and> c_str BCRYPT_HASHSIZE (a_password a)"

fun wf_stuff :: "client_request \<Rightarrow> trans_stuff \<Rightarrow> bool" where
  "wf_stuff r (Shelf_un s) \<longleftrightarrow> wf_shelf s \<and>
     r \<in> {req_build_shelf_e, req_remove_shelf_e, req_find_shelf_e, req_count_shelf_e}"
| "wf_stuff r (Account_un a) \<longleftrightarrow> wf_account a \<and>
     r \<in> {req_verify_account_e, req_register_account_e}"
| "wf_stuff r (Book_un b) \<longleftrightarrow> wf_book b \<and>
     r \<notin> {req_build_shelf_e, req_remove_shelf_e, req_find_shelf_e, req_count_shelf_e,
           req_verify_account_e, req_register_account_e}"

definition wf_message :: "message_cs \<Rightarrow> bool" where
  "wf_message m \<longleftrightarrow> c_str USER_NAME_LEN (m_user m)
     \<and> c_int (request_int (m_request m)) \<and> int_request (request_int (m_request m)) = m_request m
     \<and> wf_stuff (m_request m) (m_stuff m)
     \<and> c_int (response_int (m_response m))
     \<and> int_response (response_int (m_response m)) = m_response m
     \<and> c_str ERR_TEXT_LEN (m_error_text m)
     \<and> length (m_extra_info m) = EXTRA_INFO_SIZ \<and> list_all c_int (m_extra_info m)"

section \<open>Lemmas on the layout\<close>

lemma length_put_str [simp, wire_simps]: "length (put_str n s) = n"
  by (simp add: put_str_def)

lemma length_put_int [simp, wire_simps]: "length (put_int n) = 4"
  by (simp add: put_int_def)

lemma get_put_str: "NUL \<notin> set s \<Longrightarrow> length s < k \<Longrightarrow> get_str (put_str k s) = s"
  by (auto simp: get_str_def put_str_def takeWhile_append takeWhile_eq_all_conv)

lemmas get_str_simps = c_str_def get_put_str limits

lemma int_of_byte_byte_of [simp]: "int_of_byte (byte_of n) = n mod 256"
  by (simp add: int_of_byte_def byte_of_def)

lemma four_bytes:
  fixes n :: int
  shows "n mod 256 + 256 * (n div 256 mod 256) + 65536 * (n div 65536 mod 256)
     + 16777216 * (n div 16777216 mod 256) = n mod 4294967296"
proof -
  have "n mod (256 * 256) = 256 * (n div 256 mod 256) + n mod 256"
    by (rule zmod_zmult2_eq) simp
  then have h1: "n mod 65536 = 256 * (n div 256 mod 256) + n mod 256"
    by (simp only: numeral_times_numeral num.simps mult_num_simps add_num_simps)
  have "n mod (65536 * 256) = 65536 * (n div 65536 mod 256) + n mod 65536"
    by (rule zmod_zmult2_eq) simp
  then have h2: "n mod 16777216 = 65536 * (n div 65536 mod 256) + n mod 65536"
    by (simp only: numeral_times_numeral mult_num_simps add_num_simps)
  have "n mod (16777216 * 256) = 16777216 * (n div 16777216 mod 256) + n mod 16777216"
    by (rule zmod_zmult2_eq) simp
  then have h3: "n mod 4294967296 = 16777216 * (n div 16777216 mod 256) + n mod 16777216"
    by (simp only: numeral_times_numeral mult_num_simps add_num_simps)
  show ?thesis
    by (simp only: h3 h2 h1 ac_simps)
qed

lemma get_put_int [simp, wire_simps]:
  assumes "c_int n"
  shows "get_int (put_int n) = n"
proof -
  have "get_int (put_int n)
      = (let u = n mod 4294967296 in if u < 2147483648 then u else u - 4294967296)"
    by (simp add: get_int_def put_int_def four_bytes)
  also have "\<dots> = n"
  proof (cases "0 \<le> n")
    case True
    with assms have "n mod 4294967296 = n" by (simp add: c_int_def)
    with assms show ?thesis by (simp add: c_int_def Let_def)
  next
    case False
    with assms have "(n + 4294967296) mod 4294967296 = n + 4294967296"
      by (intro mod_pos_pos_trivial) (simp_all add: c_int_def)
    then have "n mod 4294967296 = n + 4294967296" by simp
    with assms False show ?thesis by (simp add: c_int_def Let_def)
  qed
  finally show ?thesis .
qed

lemma get_put_u8 [simp, wire_simps]: "get_u8 (put_u8 w) = w"
proof -
  have "unat w < 256" using unsigned_less [of w] by simp
  then show ?thesis by (simp add: get_u8_def put_u8_def)
qed

lemma map_get_put_u8 [simp, wire_simps]: "map (get_u8 \<circ> put_u8) ws = ws"
  by (induction ws) auto

lemma field_at_here [simp, wire_simps]: "length a = n \<Longrightarrow> field_at 0 n (a @ b) = a"
  by (simp add: field_at_def)

lemma field_at_all [simp, wire_simps]: "length a = n \<Longrightarrow> field_at 0 n a = a"
  by (simp add: field_at_def)

lemma field_at_skip [simp, wire_simps]: "length a \<le> off \<Longrightarrow> field_at off n (a @ b) = field_at (off - length a) n b"
  by (simp add: field_at_def)

lemma field_at_Cons [simp, wire_simps]: "0 < off \<Longrightarrow> field_at off n (x # b) = field_at (off - 1) n b"
  by (cases off) (simp_all add: field_at_def)

lemma length_put_book [simp, wire_simps]: "length (put_book b) = 516"
  by (simp add: put_book_def)

lemma get_put_book [wire_simps]: "wf_book b \<Longrightarrow> get_book (put_book b @ r) = b"
  by (cases b) (simp add: wf_book_def get_book_def put_book_def nth_append get_str_simps)

lemma length_put_shelf [wire_simps]: "length (ndepth s) = 15 \<Longrightarrow> length (put_shelf s) = 236"
  by (simp add: put_shelf_def)

lemma get_put_shelf [wire_simps]: "wf_shelf s \<Longrightarrow> get_shelf (put_shelf s @ r) = s"
  by (cases s) (simp add: wf_shelf_def get_shelf_def put_shelf_def nth_append get_str_simps)

lemma length_put_account [simp, wire_simps]: "length (put_account a) = 136"
  by (simp add: put_account_def)

lemma get_put_account [wire_simps]: "wf_account a \<Longrightarrow> get_account (put_account a @ r) = a"
  by (cases a) (simp add: wf_account_def get_account_def put_account_def get_str_simps)

lemma length_put_stuff: "wf_stuff r u \<Longrightarrow> length (put_stuff u) = 516"
  by (cases u) (auto simp: wf_shelf_def length_put_shelf limits)

lemma get_put_stuff: "wf_stuff r u \<Longrightarrow> get_stuff r (put_stuff u) = u"
  using get_put_book [of _ "[]"]
  by (cases u; cases r) (auto simp: get_put_shelf get_put_account)

lemma length_concat_put_int: "length (concat (map put_int xs)) = 4 * length xs"
  by (induction xs) auto

lemma field_at_concat_put_int:
  "i < length xs \<Longrightarrow> field_at (4 * i) 4 (concat (map put_int xs)) = put_int (xs ! i)"
proof (induction xs arbitrary: i)
  case Nil
  then show ?case by simp
next
  case (Cons x xs)
  then show ?case
    by (cases i) (simp_all add: field_at_def)
qed

lemma get_extra_info:
  assumes "length xs = 7" and "list_all c_int xs"
  shows "map (\<lambda>i. get_int (field_at (4 * i) 4 (concat (map put_int xs)))) [0..<7] = xs"
proof (rule nth_equalityI)
  show "length (map (\<lambda>i. get_int (field_at (4 * i) 4 (concat (map put_int xs)))) [0..<7]) = length xs"
    using assms(1) by simp
next
  fix i
  assume "i < length (map (\<lambda>i. get_int (field_at (4 * i) 4 (concat (map put_int xs)))) [0..<7])"
  with assms show "map (\<lambda>i. get_int (field_at (4 * i) 4 (concat (map put_int xs)))) [0..<7] ! i = xs ! i"
    by (simp add: field_at_concat_put_int list_all_length)
qed

lemma length_put_message: "wf_message m \<Longrightarrow> length (put_message m) = sizeof_message"
  using length_put_stuff [of "m_request m" "m_stuff m"]
  by (simp add: wf_message_def put_message_def length_concat_put_int sizeof_message_def limits)

lemma get_put_message: 
  assumes "wf_message m"
  shows "get_message (put_message m) = m"
proof -
  let ?tail = "concat (map put_int (m_extra_info m))"
  have lens: "length (put_stuff (m_stuff m)) = 516"
    using assms by (auto simp: wf_message_def dest: length_put_stuff)
  have extra: "map (\<lambda>i. get_int (field_at (676 + 4 * i) 4 (put_message m))) [0..<7] = m_extra_info m"
    using get_extra_info [of "m_extra_info m"] assms lens
    by (simp add: put_message_def wf_message_def limits)
  have "get_str (field_at 0 65 (put_message m)) = m_user m"
    "get_int (field_at 68 4 (put_message m)) = request_int (m_request m)"
    "field_at 72 516 (put_message m) = put_stuff (m_stuff m)"
    "get_int (field_at 588 4 (put_message m)) = response_int (m_response m)"
    "get_str (field_at 592 81 (put_message m)) = m_error_text m"
    using assms lens by (simp_all add: put_message_def wf_message_def get_str_simps)
  with extra assms show ?thesis
    by (cases m) (simp add: get_message_def wf_message_def get_put_stuff)
qed

lemma length_put_heartbeat:
  "length (hb_extra_info h) = 2 \<Longrightarrow> length (put_heartbeat h) = sizeof_heartbeat"
  by (simp add: put_heartbeat_def length_concat_put_int sizeof_heartbeat_def)

end
