(* ===== verification/Ncgui_Text.thy ===== *)
theory Ncgui_Text
  imports Clisrv
begin

text \<open>
  The text routines of the user interface, \<^verbatim>\<open>bsdqclient/ncgui.c\<close>: trimming (\<^verbatim>\<open>string_filter\<close>), splitting
  (\<^verbatim>\<open>string_splitter\<close>), the keyword language of a search (\<^verbatim>\<open>handle_searchbook_keyword\<close>) and cutting a text to
  a width on the screen (\<^verbatim>\<open>limit_str_width\<close>).  \<^verbatim>\<open>string_filter\<close> works on the bytes of its buffer, because it
  writes into it and may run past its terminator; the others on C strings.  \<^const>\<open>None\<close> is a read or write
  outside a buffer, or a \<^verbatim>\<open>strcpy\<close> between overlapping strings.
\<close>

section \<open>Trimming\<close>

definition blank :: "char \<Rightarrow> bool" where
  "blank c \<longleftrightarrow> c = CHR '' '' \<or> c = CHR 0x09"

definition strlen :: "bytes \<Rightarrow> nat" where
  "strlen b = length (takeWhile (\<lambda>c. c \<noteq> NUL) b)"

definition cstr :: "bytes \<Rightarrow> string" where
  "cstr b = takeWhile (\<lambda>c. c \<noteq> NUL) b"

fun skip_blanks :: "bytes \<Rightarrow> nat" where
  "skip_blanks [] = 0"
| "skip_blanks (c # b) = (if blank c then Suc (skip_blanks b) else 0)"

fun cut_blanks :: "nat \<Rightarrow> bytes \<Rightarrow> bytes" where
  "cut_blanks 0 b = (if blank (b ! 0) then b[0 := NUL] else b)"
| "cut_blanks (Suc i) b = (if blank (b ! Suc i) then cut_blanks i (b[Suc i := NUL]) else b)"

fun sub_tabs :: "char \<Rightarrow> bytes \<Rightarrow> bytes option" where
  "sub_tabs ch [] = None"
| "sub_tabs ch (c # b) = (if c = CHR ''0'' then Some (c # b)
     else map_option (Cons (if c = CHR 0x09 then ch else c)) (sub_tabs ch b))"

definition string_filter :: "char \<Rightarrow> bytes \<Rightarrow> (nat \<times> bytes) option" where
  "string_filter ch_sub b =
     (if NUL \<notin> set b then None
      else if strlen b = 0 then Some (0, b)
      else (let fptr = skip_blanks b; b1 = cut_blanks (strlen b - 1) b in
        if ch_sub = NUL then Some (fptr, b1)
        else map_option (\<lambda>r. (fptr, take fptr b1 @ r)) (sub_tabs ch_sub (drop fptr b1))))"

section \<open>Splitting\<close>

text \<open>\<^verbatim>\<open>strchr\<close> from an offset of the string.\<close>

definition strchr_from :: "string \<Rightarrow> nat \<Rightarrow> char \<Rightarrow> nat option" where
  "strchr_from s q c = (if c \<in> set (drop q s) then Some (q + length (takeWhile (\<lambda>x. x \<noteq> c) (drop q s))) else None)"

text \<open>The loop: \<open>n\<close> is \<^verbatim>\<open>temp_pos\<close>, \<open>e\<close> is \<^verbatim>\<open>aptr_end\<close> and \<open>q\<close> is \<^verbatim>\<open>aptr_src\<close>; the result is \<^verbatim>\<open>aptr_start\<close> and \<^verbatim>\<open>aptr_end\<close> of the part.\<close>

fun split_loop :: "string \<Rightarrow> char \<Rightarrow> nat \<Rightarrow> nat \<Rightarrow> nat \<Rightarrow> (nat \<times> nat) option" where
  "split_loop s c 0 e q = (case strchr_from s q c of Some i \<Rightarrow> Some (e, i) | None \<Rightarrow> Some (e, length s))"
| "split_loop s c (Suc n) e q = (case strchr_from s q c of Some i \<Rightarrow> split_loop s c n i (i + 1) | None \<Rightarrow> None)"

definition TEMP_STR_SZ :: nat where "TEMP_STR_SZ = BOOK_NAME_LEN + AUTHOR_NAME_LEN + 32"

text \<open>The value of the function and \<^verbatim>\<open>des_str\<close>.\<close>

definition string_splitter :: "nat \<Rightarrow> string \<Rightarrow> nat \<Rightarrow> char \<Rightarrow> (bool \<times> string) option" where
  "string_splitter des_len src part_pos ch_aim =
     (case split_loop src ch_aim part_pos 0 0 of
        None \<Rightarrow> Some (False, '''')
      | Some (st, e) \<Rightarrow>
          (let piece = (if part_pos = 0 then take (e - st) (drop st src) else take (e - st - 1) (drop (st + 1) src)) in
           if TEMP_STR_SZ \<le> length piece then None
           else (case string_filter NUL (piece @ replicate (TEMP_STR_SZ - length piece) NUL) of
               None \<Rightarrow> None
             | Some (f, b) \<Rightarrow> Some (True, take des_len (cstr (drop f b))))))"

section \<open>Keywords of a search\<close>

definition set_first :: "char \<Rightarrow> string \<Rightarrow> string" where
  "set_first c s = c # tl s"

text \<open>\<^verbatim>\<open>x[0] = c; strcpy(x+1, v)\<close> for a field of \<open>n + 1\<close> bytes.\<close>

definition tag_copy :: "nat \<Rightarrow> char \<Rightarrow> string \<Rightarrow> string option" where
  "tag_copy n c v = (if length v + 1 \<le> n then Some (c # v) else None)"

definition sub_len :: nat where "sub_len = BOOK_NAME_LEN + AUTHOR_NAME_LEN + 31"

definition exact_name :: "book_entry \<Rightarrow> bool" where
  "exact_name b \<longleftrightarrow> take 1 (b_name b) = ''=''"

text \<open>One condition of a mixed search: its name \<open>k\<close> and the text \<open>v\<close> behind the equals sign.\<close>

definition kw_pair :: "string \<Rightarrow> string \<Rightarrow> int \<times> book_entry \<Rightarrow> (int \<times> book_entry) option" where
  "kw_pair k v = (\<lambda>(rt, b).
     if k = ''r'' then Some (if v = ''1'' then (rt + 1, b\<lparr>on_reading := CHR ''1''\<rparr>) else (rt, b))
     else if k = ''o'' then Some (if v = ''1'' then (rt + 1, b\<lparr>borrowed := CHR ''1''\<rparr>) else (rt, b))
     else if k = ''b'' then
       if exact_name b then Some (rt, b) else map_option (\<lambda>s. (rt + 1, b\<lparr>b_name := s\<rparr>)) (tag_copy BOOK_NAME_LEN (CHR ''+'') v)
     else if k = ''a'' then
       if exact_name b then Some (rt, b) else map_option (\<lambda>s. (rt + 1, b\<lparr>b_author := s\<rparr>)) (tag_copy AUTHOR_NAME_LEN (CHR ''+'') v)
     else if k = ''l'' then
       if exact_name b then Some (rt, b) else map_option (\<lambda>s. (rt + 1, b\<lparr>b_label := s\<rparr>)) (tag_copy LABEL_LEN (CHR ''+'') v)
     else if k = ''book'' then map_option (\<lambda>s. (rt + 1, b\<lparr>b_name := s\<rparr>)) (tag_copy BOOK_NAME_LEN (CHR ''='') v)
     else if k = ''author'' then map_option (\<lambda>s. (rt + 1, b\<lparr>b_author := s\<rparr>)) (tag_copy AUTHOR_NAME_LEN (CHR ''='') v)
     else Some (rt, b))"

definition kw_condition :: "string \<Rightarrow> int \<times> book_entry \<Rightarrow> (int \<times> book_entry) option" where
  "kw_condition sub_keyword st =
     (case string_splitter sub_len sub_keyword 0 (CHR ''='') of None \<Rightarrow> None
      | Some (ok, k) \<Rightarrow>
          if \<not> ok then Some st
          else (case string_splitter sub_len sub_keyword 1 (CHR ''='') of None \<Rightarrow> None
             | Some (_, v) \<Rightarrow> kw_pair k v st))"

section \<open>Cutting a text to a width\<close>

text \<open>\<open>lim_loop\<close> follows \<^verbatim>\<open>sptr\<close>: \<open>acc\<close> are the bytes before it, \<open>s\<close> the rest, \<open>w\<close> is \<^verbatim>\<open>width\<close>; the result is the
  text before \<^verbatim>\<open>sptr\<close> and \<^verbatim>\<open>flag_stop\<close>.  A byte that does not start a character is removed by moving the rest
  of the string to the left with \<^verbatim>\<open>strcpy\<close>, which is undefined when the two overlap.\<close>

definition ascii :: "char \<Rightarrow> bool" where "ascii c \<longleftrightarrow> (of_char c :: nat) < 128"

definition lead :: "char \<Rightarrow> bool" where "lead c \<longleftrightarrow> 192 \<le> (of_char c :: nat)"

definition utf8_step :: "char \<Rightarrow> nat" where
  "utf8_step c = (let h = (of_char c :: nat) div 16 in if h = 12 then 2 else if h = 14 then 3 else if h = 15 then 4 else 1)"

definition byte_at :: "string \<Rightarrow> nat \<Rightarrow> char" where
  "byte_at s i = (if i < length s then s ! i else NUL)"

lemma dropWhile_tl_shorter: "s \<noteq> [] \<Longrightarrow> length (dropWhile P (tl s)) < length s"
  using length_dropWhile_le [of P "tl s"] by (cases s) auto

function lim_loop :: "int \<Rightarrow> string \<Rightarrow> string \<Rightarrow> int \<Rightarrow> (string \<times> bool) option" where
  "lim_loop limit acc s w =
     (if s = [] then Some (acc, False)
      else if ascii (hd s) then
        if limit < w + 1 then Some (acc, True) else lim_loop limit (acc @ [hd s]) (tl s) (w + 1)
      else (let step = utf8_step (hd s); c = byte_at s step in
        if (ascii c \<or> lead c) \<and> step \<le> length s then
          if limit < w + 2 then Some (acc @ take step s, True)
          else lim_loop limit (acc @ take step s) (drop step s) (w + 2)
        else (let r = dropWhile (\<lambda>x. \<not> (ascii x \<or> lead x)) (tl s) in
          if length s - length r < length r + 1 then None else lim_loop limit acc r w)))"
  by pat_completeness auto
termination
  by (relation "measure (\<lambda>(limit, acc, s, w). length s)")
    (auto simp: utf8_step_def Let_def dropWhile_tl_shorter)

declare lim_loop.simps [simp del]

text \<open>Every caller's \<^verbatim>\<open>newstr\<close> has 64 bytes.\<close>

definition STR_SHOW_SZ :: nat where "STR_SHOW_SZ = 64"

definition limit_str_width :: "string \<Rightarrow> int \<Rightarrow> string option" where
  "limit_str_width oldstr limit =
     (case lim_loop limit '''' oldstr 0 of None \<Rightarrow> None
      | Some (t, flag_stop) \<Rightarrow>
          (let newstr = (if flag_stop then t @ ''...'' else t) in
           if length newstr + 1 \<le> STR_SHOW_SZ then Some newstr else None))"

section \<open>What trimming gives\<close>

definition trim_end :: "string \<Rightarrow> string" where
  "trim_end s = rev (dropWhile blank (rev s))"

definition trim :: "string \<Rightarrow> string" where
  "trim s = trim_end (dropWhile blank s)"

lemma blank_NUL [simp]: "\<not> blank NUL"
  by (simp add: blank_def)

lemma takeWhile_NUL: "NUL \<notin> set s \<Longrightarrow> takeWhile (\<lambda>c. c \<noteq> NUL) (s @ NUL # r) = s"
  by (induction s) auto

lemma strlen_append [simp]: "NUL \<notin> set s \<Longrightarrow> strlen (s @ NUL # r) = length s"
  by (simp add: strlen_def takeWhile_NUL)

lemma cstr_append [simp]: "NUL \<notin> set s \<Longrightarrow> cstr (s @ NUL # r) = s"
  by (simp add: cstr_def takeWhile_NUL)

lemma skip_blanks_append: "skip_blanks (s @ NUL # r) = length (takeWhile blank s)"
  by (induction s) auto

lemma trim_end_snoc: "trim_end (xs @ [x]) = (if blank x then trim_end xs else xs @ [x])"
  by (simp add: trim_end_def)

lemma length_trim_end: "length (trim_end s) \<le> length s"
  unfolding trim_end_def by (metis length_dropWhile_le length_rev)

lemma cut_blanks_append:
  "s \<noteq> [] \<Longrightarrow> cut_blanks (length s - 1) (s @ r) = trim_end s @ replicate (length s - length (trim_end s)) NUL @ r"
proof (induction s arbitrary: r rule: rev_induct)
  case (snoc x xs)
  show ?case
  proof (cases xs)
    case Nil
    then show ?thesis by (simp add: trim_end_def)
  next
    case (Cons y ys)
    then obtain k where k: "length xs = Suc k" by simp
    have "cut_blanks (length xs) ((xs @ [x]) @ r) = (if blank x then cut_blanks k (xs @ NUL # r) else xs @ x # r)"
      by (simp add: k nth_append list_update_append)
    moreover have "cut_blanks k (xs @ NUL # r) = trim_end xs @ replicate (length xs - length (trim_end xs)) NUL @ NUL # r"
      using snoc.IH [of "NUL # r"] Cons k by simp
    moreover have "replicate (Suc (length xs) - length (trim_end xs)) NUL = replicate (length xs - length (trim_end xs)) NUL @ [NUL]"
      using length_trim_end [of xs] by (simp add: Suc_diff_le replicate_append_same)
    ultimately show ?thesis by (simp add: trim_end_snoc)
  qed
qed simp

lemma drop_trim_end:
  "drop (length (takeWhile blank s)) (trim_end s @ replicate (length s - length (trim_end s)) NUL)
     = trim s @ replicate (length (dropWhile blank s) - length (trim s)) NUL"
proof (cases "list_all blank s")
  case True
  then have *: "dropWhile blank s = []" "takeWhile blank s = s" "dropWhile blank (rev s) = []"
    by (auto simp: list_all_iff dropWhile_eq_Nil_conv takeWhile_eq_all_conv)
  show ?thesis by (simp add: trim_def trim_end_def *)
next
  case False
  let ?d = "dropWhile blank s" and ?t = "takeWhile blank s"
  have s: "s = ?t @ ?d" by simp
  have ne: "?d \<noteq> []" using False by (auto simp: list_all_iff dropWhile_eq_Nil_conv)
  then have "\<not> blank (hd ?d)" by (rule hd_dropWhile)
  with ne have "\<exists>x \<in> set (rev ?d). \<not> blank x" by (metis hd_in_set set_rev)
  then have "dropWhile blank (rev ?d @ rev ?t) = dropWhile blank (rev ?d) @ rev ?t"
    by (metis dropWhile_append1)
  then have "trim_end s = ?t @ trim s"
    by (subst s) (simp add: trim_end_def trim_def del: takeWhile_dropWhile_id)
  moreover have "length s = length ?t + length ?d" by (metis s length_append)
  ultimately show ?thesis by simp
qed

lemma set_trim: "set (trim s) \<subseteq> set s"
  unfolding trim_def trim_end_def by (auto dest!: set_dropWhileD)

text \<open>The buffer after trimming, from the first character on.\<close>

lemma trimmed_buffer:
  assumes "s \<noteq> []"
  shows "drop (skip_blanks (s @ NUL # r)) (cut_blanks (length s - 1) (s @ NUL # r))
    = trim s @ replicate (length (dropWhile blank s) - length (trim s)) NUL @ NUL # r"
proof -
  have "length (takeWhile blank s) \<le> length s" by (simp add: length_takeWhile_le)
  moreover have "cut_blanks (length s - 1) (s @ NUL # r) = (trim_end s @ replicate (length s - length (trim_end s)) NUL) @ NUL # r"
    using cut_blanks_append [OF assms, of "NUL # r"] by simp
  ultimately show ?thesis
    using drop_trim_end [of s] length_trim_end [of s] by (simp add: skip_blanks_append drop_append del: append_assoc)
qed

lemma cstr_trimmed [simp]: "NUL \<notin> set s \<Longrightarrow> cstr (s @ replicate k NUL @ NUL # r) = s"
  by (cases k) simp_all

lemma set_trim_end: "set (trim_end s) \<subseteq> set s"
  unfolding trim_end_def by (auto dest!: set_dropWhileD)

lemma cstr_cut: "s \<noteq> [] \<Longrightarrow> NUL \<notin> set s \<Longrightarrow> cstr (cut_blanks (length s - 1) (s @ NUL # r)) = trim_end s"
  using set_trim_end [of s] by (subst cut_blanks_append) (auto intro!: cstr_trimmed)

lemma string_filter_trim:
  assumes "NUL \<notin> set s"
  obtains f b where "string_filter NUL (s @ NUL # r) = Some (f, b)" and "cstr (drop f b) = trim s" and "cstr b = trim_end s"
proof (cases "s = []")
  case True
  then have "cstr (drop 0 (s @ NUL # r)) = trim s" "cstr (s @ NUL # r) = trim_end s"
    by (simp_all add: trim_def trim_end_def cstr_def)
  then show ?thesis using True that by (simp add: string_filter_def strlen_def)
next
  case False
  have "NUL \<notin> set (trim s)" "NUL \<notin> set (trim_end s)" using assms set_trim set_trim_end by blast+
  then show ?thesis using False assms that
    by (simp add: string_filter_def Let_def trimmed_buffer cstr_cut del: One_nat_def)
qed

lemma sub_tabs_None: "sub_tabs ch b = None \<longleftrightarrow> CHR ''0'' \<notin> set b"
  by (induction b) auto

text \<open>Replacing the tabs of a text up to its first digit 0.\<close>

fun tabs_until_0 :: "char \<Rightarrow> string \<Rightarrow> string" where
  "tabs_until_0 ch [] = []"
| "tabs_until_0 ch (c # s) = (if c = CHR ''0'' then c # s else (if c = CHR 0x09 then ch else c) # tabs_until_0 ch s)"

lemma sub_tabs_Some: "sub_tabs ch b = (if CHR ''0'' \<in> set b then Some (tabs_until_0 ch b) else None)"
  by (induction b) auto

lemma tabs_append: "tabs_until_0 ch (s @ NUL # r) =
    tabs_until_0 ch s @ NUL # (if CHR ''0'' \<in> set s then r else tabs_until_0 ch r)"
  by (induction s) simp_all

lemma tabs_NUL: "NUL \<notin> set s \<Longrightarrow> ch \<noteq> NUL \<Longrightarrow> NUL \<notin> set (tabs_until_0 ch s)"
  by (induction s) auto

section \<open>What splitting gives\<close>

fun split_on :: "char \<Rightarrow> string \<Rightarrow> string list" where
  "split_on c [] = [[]]"
| "split_on c (x # xs) = (if x = c then [] # split_on c xs
     else (case split_on c xs of [] \<Rightarrow> [[x]] | p # ps \<Rightarrow> (x # p) # ps))"

lemma split_on_nonempty [simp]: "split_on c s \<noteq> []"
  by (induction s) (auto split: list.splits)

lemma split_on_none: "c \<notin> set s \<Longrightarrow> split_on c s = [s]"
  by (induction s) auto

lemma split_on_append: "c \<notin> set p \<Longrightarrow> split_on c (p @ c # r) = p # split_on c r"
  by (induction p) (auto split: list.splits)

lemma split_on_step:
  assumes "c \<in> set s"
  shows "split_on c s = takeWhile (\<lambda>x. x \<noteq> c) s # split_on c (drop (Suc (length (takeWhile (\<lambda>x. x \<noteq> c) s))) s)"
proof -
  obtain p r where s: "s = p @ c # r" and p: "c \<notin> set p" using split_list_first [OF assms] by blast
  then have "takeWhile (\<lambda>x. x \<noteq> c) s = p" by (induction p arbitrary: s) auto
  with s p show ?thesis by (simp add: split_on_append)
qed

lemma strchr_cases:
  assumes "q \<le> length s"
  obtains (none) "strchr_from s q c = None" and "split_on c (drop q s) = [drop q s]"
  | (part) i where "strchr_from s q c = Some i" and "q \<le> i" and "i + 1 \<le> length s"
      and "split_on c (drop q s) = take (i - q) (drop q s) # split_on c (drop (i + 1) s)"
proof (cases "c \<in> set (drop q s)")
  case False
  then show ?thesis using none by (simp add: strchr_from_def split_on_none)
next
  case True
  obtain p r where d: "drop q s = p @ c # r" and p: "c \<notin> set p" using split_list_first [OF True] by blast
  have w: "takeWhile (\<lambda>x. x \<noteq> c) (p @ c # r) = p" using p by (induction p) auto
  have "length (drop q s) = length p + 1 + length r" by (simp only: d) simp
  then have le: "q + length p + 1 \<le> length s" using assms by simp
  have "drop (q + length p + 1) s = drop (length p + 1) (drop q s)" by (simp add: add.commute add.left_commute)
  then have "drop (q + length p + 1) s = r" by (simp only: d) simp
  then have "split_on c (drop q s) = take (q + length p - q) (drop q s) # split_on c (drop (q + length p + 1) s)"
    using p by (simp add: d split_on_append)
  then show ?thesis using d w le True by (intro part [of "q + length p"]) (simp_all add: strchr_from_def)
qed

text \<open>The part the loop finds: \<open>e\<close> is where the part before it ended, \<open>q\<close> where the rest begins.\<close>

lemma split_loop_None: "q \<le> length s \<Longrightarrow> split_loop s c n e q = None \<longleftrightarrow> length (split_on c (drop q s)) \<le> n"
proof (induction n arbitrary: e q)
  case 0
  then show ?case by (simp split: option.splits)
next
  case (Suc n)
  show ?case using Suc.prems
  proof (cases rule: strchr_cases [of q s c])
    case (part i)
    then show ?thesis using Suc.IH [of "i + 1"] by simp
  qed simp_all
qed

lemma split_loop_first: "split_loop s c 0 0 0 = Some (st, en) \<Longrightarrow> take (en - st) (drop st s) = split_on c s ! 0"
  by (cases rule: strchr_cases [of 0 s c]) auto

lemma split_loop_part:
  "q \<le> length s \<Longrightarrow> q = e + 1 \<Longrightarrow> split_loop s c n e q = Some (st, en)
     \<Longrightarrow> take (en - st - 1) (drop (st + 1) s) = split_on c (drop q s) ! n"
proof (induction n arbitrary: e q)
  case 0
  from 0(1) show ?case
    by (cases rule: strchr_cases [of q s c]) (use 0(2,3) in auto)
next
  case (Suc n)
  from Suc.prems(1) show ?case
  proof (cases rule: strchr_cases [of q s c])
    case (part i)
    then show ?thesis using Suc.IH [of "i + 1" i] Suc.prems(3) by simp
  qed (use Suc.prems in simp_all)
qed

lemma split_loop_later:
  assumes "split_loop s c (Suc n) 0 0 = Some (st, en)"
  shows "take (en - st - 1) (drop (st + 1) s) = split_on c s ! Suc n"
proof (rule strchr_cases [of 0 s c])
  fix i
  assume "strchr_from s 0 c = Some i" "i + 1 \<le> length s" "split_on c (drop 0 s) = take (i - 0) (drop 0 s) # split_on c (drop (i + 1) s)"
  then show ?thesis using split_loop_part [of "i + 1" s i c n st en] assms by simp
qed (use assms in simp_all)

lemma splitter_spec:
  assumes "NUL \<notin> set s" and "length s < TEMP_STR_SZ"
  shows "string_splitter n s k c = Some (if k < length (split_on c s) then (True, take n (trim (split_on c s ! k))) else (False, ''''))"
proof (cases "split_loop s c k 0 0")
  case None
  then show ?thesis using split_loop_None [of 0 s c k 0] by (simp add: string_splitter_def)
next
  case (Some r)
  obtain st en where r: "r = (st, en)" by (cases r)
  let ?p = "if k = 0 then take (en - st) (drop st s) else take (en - st - 1) (drop (st + 1) s)"
  have p: "?p = split_on c s ! k" using Some r split_loop_first split_loop_later [of s c "k - 1"] by (cases k) auto
  have sub: "set ?p \<subseteq> set s" by (auto dest!: in_set_takeD in_set_dropD)
  have len: "length ?p < TEMP_STR_SZ" using assms(2) by auto
  obtain j where j: "TEMP_STR_SZ - length ?p = Suc j" using len by (metis Suc_pred zero_less_diff)
  have "NUL \<notin> set ?p" using sub assms(1) by blast
  then obtain f b where "string_filter NUL (?p @ NUL # replicate j NUL) = Some (f, b)" "cstr (drop f b) = trim ?p"
    by (rule string_filter_trim)
  then have "string_splitter n s k c = Some (True, take n (trim ?p))"
    using Some r len j by (simp add: string_splitter_def Let_def)
  then show ?thesis using split_loop_None [of 0 s c k 0] Some p by simp
qed

section \<open>The keyword language\<close>

lemma splitter_found: "string_splitter n s k c = Some (True, v) \<Longrightarrow> k < length (split_on c s)"
  using split_loop_None [of 0 s c k 0] by (auto simp: string_splitter_def split: option.splits)

function kw_loop :: "string \<Rightarrow> nat \<Rightarrow> int \<times> book_entry \<Rightarrow> (int \<times> book_entry) option" where
  "kw_loop keyword i st =
     (case string_splitter sub_len keyword i (CHR '';'') of None \<Rightarrow> None
      | Some (ok, sub_keyword) \<Rightarrow>
          if \<not> ok then Some st
          else (case kw_condition sub_keyword st of None \<Rightarrow> None | Some st' \<Rightarrow> kw_loop keyword (i + 1) st'))"
  by pat_completeness auto
termination
  by (relation "measure (\<lambda>(keyword, i, _). length (split_on (CHR '';'') keyword) - i)") (auto dest!: splitter_found)

declare kw_loop.simps [simp del]

definition clear_keys :: "book_entry \<Rightarrow> book_entry" where
  "clear_keys b = b\<lparr>b_name := set_first (CHR ''0'') (b_name b), b_author := set_first (CHR ''0'') (b_author b),
     b_label := set_first (CHR ''0'') (b_label b), borrowed := CHR ''0'', on_reading := CHR ''0''\<rparr>"

definition handle_searchbook_keyword :: "string \<Rightarrow> book_entry \<Rightarrow> (int \<times> book_entry) option" where
  "handle_searchbook_keyword keyword user_book =
     (if TEMP_STR_SZ \<le> length keyword then None
      else case string_filter NUL (keyword @ replicate (TEMP_STR_SZ - length keyword) NUL) of None \<Rightarrow> None
      | Some (f, keyword_copy) \<Rightarrow>
          (let b = clear_keys user_book; kw = cstr (drop f keyword_copy) in
           if CHR ''='' \<notin> set (cstr keyword_copy)
           then Some (1, b\<lparr>b_name := CHR ''-'' # take (BOOK_NAME_LEN - 1) kw,
                  b_author := CHR ''-'' # take (AUTHOR_NAME_LEN - 1) kw, b_label := CHR ''-'' # take (LABEL_NAME_LEN - 1) kw\<rparr>)
           else kw_loop keyword 0 (0, b)))"

text \<open>The text of a list of conditions, and their effect one after the other.\<close>

fun kw_print :: "(string \<times> string) list \<Rightarrow> string" where
  "kw_print [] = ''''"
| "kw_print [(k, v)] = k @ CHR ''='' # v"
| "kw_print ((k, v) # ps) = k @ CHR ''='' # v @ CHR '';'' # kw_print ps"

fun kw_all :: "(string \<times> string) list \<Rightarrow> int \<times> book_entry \<Rightarrow> (int \<times> book_entry) option" where
  "kw_all [] st = Some st"
| "kw_all ((k, v) # ps) st = (case kw_pair (trim k) (trim v) st of None \<Rightarrow> None | Some st' \<Rightarrow> kw_all ps st')"

definition kw_plain :: "string \<Rightarrow> bool" where
  "kw_plain s \<longleftrightarrow> NUL \<notin> set s \<and> CHR ''='' \<notin> set s \<and> CHR '';'' \<notin> set s"

lemma trim_end_Cons: "trim_end (x # xs) = (if blank x \<and> trim_end xs = [] then [] else x # trim_end xs)"
  by (auto simp: trim_end_def dropWhile_append dropWhile_eq_Nil_conv)

lemma trim_end_idem [simp]: "trim_end (trim_end s) = trim_end s"
  by (simp add: trim_end_def)

lemma dropWhile_trim_end: "dropWhile blank (trim_end s) = trim_end (dropWhile blank s)"
  by (induction s) (auto simp: trim_end_Cons, simp add: trim_end_def)

lemma trim_simps [simp]: "trim (dropWhile blank s) = trim s" "trim (trim_end s) = trim s" "trim (trim s) = trim s"
  by (simp_all add: trim_def dropWhile_trim_end)

lemma trim_end_append: "trim_end s \<noteq> [] \<Longrightarrow> trim_end (p @ s) = p @ trim_end s"
  by (induction p) (auto simp: trim_end_Cons)

lemma trim_condition: "trim (k @ CHR ''='' # v) = dropWhile blank k @ CHR ''='' # trim_end v"
proof -
  have eq: "\<not> blank (CHR ''='')" by (simp add: blank_def)
  have "dropWhile blank (k @ CHR ''='' # v) = dropWhile blank k @ CHR ''='' # v"
    using eq by (induction k) auto
  moreover have "trim_end (CHR ''='' # v) = CHR ''='' # trim_end v" using eq by (simp add: trim_end_Cons)
  ultimately show ?thesis by (simp add: trim_def trim_end_append)
qed

lemma length_trim: "length (trim s) \<le> length s"
  unfolding trim_def using length_trim_end [of "dropWhile blank s"] length_dropWhile_le [of blank s] by linarith

lemma kw_condition_pair:
  assumes "kw_plain k" and "kw_plain v" and "length (k @ CHR ''='' # v) < TEMP_STR_SZ"
  shows "kw_condition (trim (k @ CHR ''='' # v)) st = kw_pair (trim k) (trim v) st"
proof -
  let ?s = "dropWhile blank k @ CHR ''='' # trim_end v"
  have sub: "set (dropWhile blank k) \<subseteq> set k" "set (trim_end v) \<subseteq> set v" by (auto simp: trim_end_def dest!: set_dropWhileD)
  have len: "length ?s < TEMP_STR_SZ" using assms(3) length_trim [of "k @ CHR ''='' # v"] by (simp add: trim_condition)
  have nul: "NUL \<notin> set ?s" using sub assms(1,2) by (auto simp: kw_plain_def)
  have parts: "split_on (CHR ''='') ?s = [dropWhile blank k, trim_end v]"
    using sub assms(1,2) by (subst split_on_append) (auto simp: kw_plain_def intro!: split_on_none)
  have "length (trim k) \<le> sub_len" "length (trim v) \<le> sub_len"
    using length_trim [of k] length_trim [of v] assms(3) by (simp_all add: sub_len_def TEMP_STR_SZ_def)
  then show ?thesis
    using splitter_spec [OF nul len, of sub_len 0] splitter_spec [OF nul len, of sub_len 1] parts
    by (simp add: trim_condition kw_condition_def)
qed

lemma split_kw_print:
  "ps \<noteq> [] \<Longrightarrow> \<forall>(k, v) \<in> set ps. kw_plain k \<and> kw_plain v
     \<Longrightarrow> split_on (CHR '';'') (kw_print ps) = map (\<lambda>(k, v). k @ CHR ''='' # v) ps"
proof (induction ps rule: kw_print.induct)
  case (3 k v p ps)
  have "split_on (CHR '';'') ((k @ CHR ''='' # v) @ CHR '';'' # kw_print (p # ps))
      = (k @ CHR ''='' # v) # split_on (CHR '';'') (kw_print (p # ps))"
    using 3(3) by (intro split_on_append) (auto simp: kw_plain_def)
  then show ?case using 3 by simp
qed (auto simp: kw_plain_def intro!: split_on_none)

lemma kw_print_plain: "\<forall>(k, v) \<in> set ps. kw_plain k \<and> kw_plain v \<Longrightarrow> NUL \<notin> set (kw_print ps)"
  by (induction ps rule: kw_print.induct) (auto simp: kw_plain_def)

lemma kw_print_part: "(k, v) \<in> set ps \<Longrightarrow> length (k @ CHR ''='' # v) \<le> length (kw_print ps)"
  by (induction ps rule: kw_print.induct) auto

lemma kw_loop_all:
  assumes "ps \<noteq> []" and "\<forall>(k, v) \<in> set ps. kw_plain k \<and> kw_plain v" and "length (kw_print ps) < TEMP_STR_SZ"
  shows "i \<le> length ps \<Longrightarrow> kw_loop (kw_print ps) i st = kw_all (drop i ps) st"
proof (induction "length ps - i" arbitrary: i st)
  case 0
  then show ?case
    using splitter_spec [OF kw_print_plain [OF assms(2)] assms(3), of sub_len i] split_kw_print [OF assms(1,2)]
    by (simp add: kw_loop.simps [of _ i])
next
  case (Suc n)
  obtain k v where kv: "ps ! i = (k, v)" by (cases "ps ! i")
  have mem: "(k, v) \<in> set ps" using Suc(2) kv by (metis nth_mem zero_less_Suc zero_less_diff)
  have len: "length (k @ CHR ''='' # v) < TEMP_STR_SZ" using kw_print_part [OF mem] assms(3) by linarith
  have "length (trim (k @ CHR ''='' # v)) \<le> sub_len"
    using length_trim [of "k @ CHR ''='' # v"] len by (simp add: sub_len_def TEMP_STR_SZ_def)
  then have "string_splitter sub_len (kw_print ps) i (CHR '';'') = Some (True, trim (k @ CHR ''='' # v))"
    using splitter_spec [OF kw_print_plain [OF assms(2)] assms(3), of sub_len i] split_kw_print [OF assms(1,2)] Suc(2) kv by simp
  moreover have "kw_condition (trim (k @ CHR ''='' # v)) st = kw_pair (trim k) (trim v) st"
    using assms(2) mem len by (intro kw_condition_pair) auto
  moreover have "drop i ps = (k, v) # drop (i + 1) ps" using Suc(2) kv by (simp add: Cons_nth_drop_Suc [symmetric])
  ultimately show ?case using Suc(1) [of "i + 1"] Suc(2) by (simp add: kw_loop.simps [of _ i] split: option.splits)
qed

lemma in_trim_end: "c \<in> set s \<Longrightarrow> \<not> blank c \<Longrightarrow> c \<in> set (trim_end s)"
  by (induction s) (auto simp: trim_end_Cons)

lemma kw_print_eq: "ps \<noteq> [] \<Longrightarrow> CHR ''='' \<in> set (kw_print ps)"
  by (induction ps rule: kw_print.induct) auto

section \<open>Properties of the texts\<close>

text \<open>C28: replacing the tabs of an input (\<^verbatim>\<open>ch_sub\<close> given, as for the names of shelves and books and for labels) is
  undefined behaviour exactly when neither the trimmed text nor the rest of its buffer contains the
  digit 0, because the loop looks for \<^verbatim>\<open>'0'\<close> instead of the terminator; otherwise the result is the trimmed
  text with the tabs before its first digit 0 replaced.\<close>

theorem string_filter_tabs:
  assumes "NUL \<notin> set s" and "s \<noteq> []" and "ch \<noteq> NUL"
  shows "case string_filter ch (s @ NUL # r) of
      None \<Rightarrow> CHR ''0'' \<notin> set (trim s) \<and> CHR ''0'' \<notin> set r
    | Some (f, b) \<Rightarrow> (CHR ''0'' \<in> set (trim s) \<or> CHR ''0'' \<in> set r) \<and> cstr (drop f b) = tabs_until_0 ch (trim s)"
proof -
  let ?f = "skip_blanks (s @ NUL # r)" and ?b = "cut_blanks (length s - 1) (s @ NUL # r)"
  obtain k where k: "drop ?f ?b = trim s @ replicate k NUL @ NUL # r" using trimmed_buffer [OF assms(2)] by blast
  have run: "string_filter ch (s @ NUL # r) = map_option (\<lambda>x. (?f, take ?f ?b @ x)) (sub_tabs ch (drop ?f ?b))"
    using assms by (simp add: string_filter_def Let_def)
  have nul: "NUL \<notin> set (tabs_until_0 ch (trim s))" using assms set_trim by (intro tabs_NUL) blast+
  have fl: "length (take ?f ?b) = ?f" using k by (cases "?f \<le> length ?b") auto
  have "cstr (tabs_until_0 ch (drop ?f ?b)) = tabs_until_0 ch (trim s)"
    unfolding k using nul by (cases k) (simp_all add: tabs_append)
  moreover have "CHR ''0'' \<in> set (drop ?f ?b) \<longleftrightarrow> CHR ''0'' \<in> set (trim s) \<or> CHR ''0'' \<in> set r" unfolding k by auto
  ultimately show ?thesis using fl by (simp add: run sub_tabs_Some)
qed

theorem string_filter_tabs_witness:
  "string_filter (CHR ''?'') (''War '' @ NUL # ''xy'') = None
   \<and> (\<exists>f b. string_filter (CHR ''?'') (''1 0'' @ NUL # ''xy'') = Some (f, b) \<and> cstr (drop f b) = ''1 0'')"
  using string_filter_tabs [of "''War ''" "CHR ''?''" "''xy''"] string_filter_tabs [of "''1 0''" "CHR ''?''" "''xy''"]
  by (auto simp: trim_def trim_end_def blank_def split: option.splits)

text \<open>C29: \<^verbatim>\<open>string_splitter\<close> finds the part with the given number between the separators, without the blanks around
  it and cut to the length of the target, and reports failure exactly when there are fewer parts.\<close>

theorem string_splitter_correct:
  assumes "NUL \<notin> set s" and "length s < TEMP_STR_SZ"
  shows "string_splitter n s k c
    = Some (if k < length (split_on c s) then (True, take n (trim (split_on c s ! k))) else (False, ''''))"
  by (rule splitter_spec [OF assms])

theorem string_splitter_correct_witness:
  "string_splitter 9 ''a= b ;c'' 0 (CHR '';'') = Some (True, ''a= b'') \<and> string_splitter 9 ''a= b ;c'' 2 (CHR '';'') = Some (False, '''')"
  using string_splitter_correct [of "''a= b ;c''" 9 0 "CHR '';''"] string_splitter_correct [of "''a= b ;c''" 9 2 "CHR '';''"]
  by (simp add: TEMP_STR_SZ_def limits trim_def trim_end_def blank_def)

text \<open>C30: a list of conditions, written down with equals signs and semicolons, is understood as it was written:
  the search gets the effect of each condition in order, whatever blanks surround names and values.\<close>

theorem keyword_roundtrip:
  assumes "ps \<noteq> []" and "\<forall>(k, v) \<in> set ps. kw_plain k \<and> kw_plain v" and "length (kw_print ps) < TEMP_STR_SZ"
  shows "handle_searchbook_keyword (kw_print ps) b = kw_all ps (0, clear_keys b)"
proof -
  let ?s = "kw_print ps"
  obtain j where j: "TEMP_STR_SZ - length ?s = Suc j" using assms(3) by (metis Suc_pred zero_less_diff)
  obtain f c where "string_filter NUL (?s @ NUL # replicate j NUL) = Some (f, c)" "cstr c = trim_end ?s"
    by (rule string_filter_trim [OF kw_print_plain [OF assms(2)]])
  moreover have "CHR ''='' \<in> set (trim_end ?s)" using kw_print_eq [OF assms(1)] by (rule in_trim_end) (simp add: blank_def)
  ultimately show ?thesis using j assms(3) kw_loop_all [OF assms, of 0] by (simp add: handle_searchbook_keyword_def)
qed

definition empty_search :: book_entry where
  "empty_search = \<lparr>code0 = 0, code1 = 0, code2 = 0, b_name = '''', b_author = '''', b_label = '''', borrowed = NUL,
     on_reading = NUL, encoding_time = ''''\<rparr>"

theorem keyword_roundtrip_witness:
  "handle_searchbook_keyword ''book= Dune;a=Herbert'' empty_search
     = Some (1, empty_search\<lparr>b_name := ''=Dune'', b_author := ''0'', b_label := ''0'', borrowed := CHR ''0'', on_reading := CHR ''0''\<rparr>)"
  using keyword_roundtrip [of "[(''book'', '' Dune''), (''a'', ''Herbert'')]" empty_search]
  by (simp add: kw_plain_def TEMP_STR_SZ_def limits trim_def trim_end_def blank_def kw_pair_def tag_copy_def clear_keys_def
      exact_name_def set_first_def empty_search_def)

section \<open>Characters on the screen\<close>

text \<open>A glyph: an ASCII character, or two or three bytes led by one of the lead bytes the code knows.\<close>

definition glyph :: "string \<Rightarrow> bool" where
  "glyph g \<longleftrightarrow> g \<noteq> [] \<and> (if length g = 1 then ascii (hd g)
     else \<not> ascii (hd g) \<and> utf8_step (hd g) = length g \<and> length g \<le> 3 \<and> lead (hd g) \<and> (\<forall>c \<in> set (tl g). \<not> ascii c \<and> \<not> lead c))"

definition glyph_width :: "string \<Rightarrow> int" where
  "glyph_width g = (if length g = 1 then 1 else 2)"

fun shown :: "int \<Rightarrow> string list \<Rightarrow> int \<Rightarrow> nat \<times> bool" where
  "shown limit [] w = (0, False)"
| "shown limit (g # gs) w =
     (if limit < w + glyph_width g then (if length g = 1 then 0 else 1, True)
      else (case shown limit gs (w + glyph_width g) of (k, stop) \<Rightarrow> (Suc k, stop)))"

lemma glyph_start: "glyph g \<Longrightarrow> ascii (hd g) \<or> lead (hd g)"
  by (auto simp: glyph_def split: if_splits)

lemma byte_after:
  assumes "\<forall>g \<in> set gs. glyph g"
  shows "ascii (byte_at (g @ concat gs) (length g)) \<or> lead (byte_at (g @ concat gs) (length g))"
proof (cases gs)
  case Nil
  then show ?thesis by (simp add: byte_at_def ascii_def)
next
  case (Cons h hs)
  then have "glyph h" "h \<noteq> []" using assms by (auto simp: glyph_def)
  then have "byte_at (g @ concat gs) (length g) = hd h" using Cons by (simp add: byte_at_def nth_append hd_conv_nth)
  then show ?thesis using glyph_start [OF \<open>glyph h\<close>] by simp
qed

lemma lim_loop_glyphs:
  "\<forall>g \<in> set gs. glyph g \<Longrightarrow>
   lim_loop limit acc (concat gs) w = Some (acc @ concat (take (fst (shown limit gs w)) gs), snd (shown limit gs w))"
proof (induction gs arbitrary: acc w)
  case Nil
  then show ?case by (simp add: lim_loop.simps)
next
  case (Cons g gs)
  then have g: "glyph g" "g \<noteq> []" and gs: "\<forall>g \<in> set gs. glyph g" by (auto simp: glyph_def)
  have hd: "hd (g @ concat gs) = hd g" using g(2) by simp
  show ?case
  proof (cases "length g = 1")
    case True
    then obtain c where c: "g = [c]" by (metis One_nat_def length_Suc_conv length_0_conv)
    then have "ascii c" using g(1) by (simp add: glyph_def)
    then show ?thesis using c Cons.IH [OF gs]
      by (simp add: lim_loop.simps [of limit acc] glyph_width_def split: prod.splits)
  next
    case False
    then have "\<not> ascii (hd g)" "utf8_step (hd g) = length g" using g(1) by (auto simp: glyph_def)
    then show ?thesis using False g(2) byte_after [OF gs, of g] Cons.IH [OF gs] hd
      by (simp add: lim_loop.simps [of limit acc] glyph_width_def Let_def split: prod.splits)
  qed
qed

lemma shown_bytes:
  "\<forall>g \<in> set gs. glyph g \<Longrightarrow> w \<le> limit \<Longrightarrow> 2 * int (length (concat (take (fst (shown limit gs w)) gs))) \<le> 3 * (limit - w) + 6"
proof (induction gs arbitrary: w)
  case (Cons g gs)
  have "length g \<le> 3" using Cons.prems(1) by (auto simp: glyph_def split: if_splits)
  moreover have "2 * int (length g) \<le> 3 * glyph_width g" using Cons.prems(1) by (auto simp: glyph_def glyph_width_def split: if_splits)
  ultimately show ?case
    using Cons.IH [of "w + glyph_width g"] Cons.prems by (auto split: prod.splits)
qed simp

lemma shown_width:
  assumes "\<forall>g \<in> set gs. glyph g" and "w \<le> limit" and "shown limit gs w = (k, stop)"
  shows "k \<le> length gs \<and> stop = (limit < w + sum_list (map glyph_width gs)) \<and> (\<not> stop \<longrightarrow> k = length gs)
    \<and> (stop \<longrightarrow> limit \<le> w + sum_list (map glyph_width (take k gs)) \<and> w + sum_list (map glyph_width (take k gs)) \<le> limit + 2)"
  using assms
proof (induction gs arbitrary: w k)
  case (Cons g gs)
  have nn: "0 \<le> sum_list (map glyph_width gs)" by (rule sum_list_nonneg) (auto simp: glyph_width_def)
  show ?case
  proof (cases "limit < w + glyph_width g")
    case True
    then show ?thesis using Cons.prems nn by (auto simp: glyph_width_def [of g])
  next
    case False
    then obtain k' where "k = Suc k'" "shown limit gs (w + glyph_width g) = (k', stop)"
      using Cons.prems(3) by (auto split: prod.splits)
    then show ?thesis using Cons.IH [of "w + glyph_width g" k'] Cons.prems(1) False by (simp add: add.assoc)
  qed
qed simp


definition sample_glyphs :: "string list" where
  "sample_glyphs = [''A'', utf8 [228, 185, 166], utf8 [230, 158, 182]]"


text \<open>Letters led by the byte 0xD0 (Cyrillic) are not recognised, and twenty characters of four bytes overflow.\<close>

lemma cyrillic_undefined: "limit_str_width (utf8 [208, 144, 208, 145] @ ''abc'') 16 = None"
  by code_simp

lemma four_bytes_overflow: "limit_str_width (concat (replicate 20 (utf8 [240, 159, 147, 150]))) 38 = None"
  by code_simp

end
