(* ===== verification/Aes.thy ===== *)
theory Aes
  imports Clisrv
begin

text \<open>
  \<^verbatim>\<open>aes/aes_options.c\<close> (the same file in the server and in the client) and the key generator
  \<^verbatim>\<open>aes/gen_aes_key.c\<close>.  OpenSSL is the parameter \<open>aes_lib\<close>; \<open>aes_lawful\<close> states what the code relies
  on.  \<^const>\<open>None\<close> stands for a length that is not a multiple of the block size, for which the library
  reads past the caller's buffer.  The key file is the text \<open>file\<close> (\<^const>\<open>None\<close> if it cannot be opened);
  numbers that \<^verbatim>\<open>fscanf\<close> does not find leave the uninitialised \<open>junk\<close> of the stack.
\<close>

definition AES_BLOCK_SIZE :: nat where "AES_BLOCK_SIZE = 16"

record 'k aes_lib =
  aes_set_encrypt_key :: "bytes \<Rightarrow> 'k option"
  aes_set_decrypt_key :: "bytes \<Rightarrow> 'k option"
  aes_cbc_encrypt :: "'k \<Rightarrow> bytes \<Rightarrow> bytes \<Rightarrow> bytes"
  aes_cbc_decrypt :: "'k \<Rightarrow> bytes \<Rightarrow> bytes \<Rightarrow> bytes"

record aes_state =
  aes_key :: bytes
  aes_has_init :: bool

text \<open>The conversions of the format \<^verbatim>\<open>%d,%d,...\<close> up to the first that fails.\<close>

fun scan_list :: "nat \<Rightarrow> string \<Rightarrow> int list" where
  "scan_list 0 s = []"
| "scan_list (Suc n) s =
     (case scan_d s of None \<Rightarrow> []
      | Some (v, r) \<Rightarrow> v # (if r \<noteq> [] \<and> hd r = CHR '','' then scan_list n (tl r) else []))"

definition AES_init :: "string option \<Rightarrow> int list \<Rightarrow> aes_state \<Rightarrow> bool \<times> aes_state" where
  "AES_init file junk a =
     (if aes_has_init a then (True, a)
      else case file of
        None \<Rightarrow> (False, a)
      | Some t \<Rightarrow>
          (let found = scan_list AES_BLOCK_SIZE t;
               tkey = found @ drop (length found) junk
           in (True, a\<lparr>aes_key := map byte_of (take AES_BLOCK_SIZE tkey), aes_has_init := True\<rparr>)))"

definition zero_iv :: bytes where
  "zero_iv = replicate AES_BLOCK_SIZE NUL"

definition encrypt :: "'k aes_lib \<Rightarrow> aes_state \<Rightarrow> bytes \<Rightarrow> (int \<times> bytes) option" where
  "encrypt lib a input =
     (if \<not> aes_has_init a then Some (-1, [])
      else if length input mod AES_BLOCK_SIZE \<noteq> 0 then None
      else case aes_set_encrypt_key lib (aes_key a) of
        None \<Rightarrow> Some (-1, [])
      | Some k \<Rightarrow> Some (int (length input), aes_cbc_encrypt lib k zero_iv input))"

definition decrypt :: "'k aes_lib \<Rightarrow> aes_state \<Rightarrow> bytes \<Rightarrow> (int \<times> bytes) option" where
  "decrypt lib a cipher =
     (if \<not> aes_has_init a then Some (-1, [])
      else if length cipher mod AES_BLOCK_SIZE \<noteq> 0 then None
      else case aes_set_decrypt_key lib (aes_key a) of
        None \<Rightarrow> Some (-1, [])
      | Some k \<Rightarrow> Some (1, aes_cbc_decrypt lib k zero_iv cipher))"

text \<open>The size both ends compute for an encrypted message.\<close>

definition encrypted_size :: "nat \<Rightarrow> nat" where
  "encrypted_size n = (if n mod AES_BLOCK_SIZE = 0 then n else (n div AES_BLOCK_SIZE + 1) * AES_BLOCK_SIZE)"

text \<open>\<^verbatim>\<open>main\<close> of the key generator: 16 values \<^verbatim>\<open>rand() % 255\<close>, each printed with a comma, the last comma
  cut off.\<close>

definition gen_aes_key :: "nat list \<Rightarrow> string" where
  "gen_aes_key rands = butlast (concat (map (\<lambda>r. dec (int (r mod 255)) @ '','') rands))"

definition aes_lawful :: "'k aes_lib \<Rightarrow> bool" where
  "aes_lawful lib \<longleftrightarrow> (\<forall>key. length key = AES_BLOCK_SIZE \<longrightarrow>
     (\<exists>e d. aes_set_encrypt_key lib key = Some e \<and> aes_set_decrypt_key lib key = Some d
       \<and> (\<forall>iv x. length iv = AES_BLOCK_SIZE \<longrightarrow> length x mod AES_BLOCK_SIZE = 0 \<longrightarrow>
            length (aes_cbc_encrypt lib e iv x) = length x
            \<and> aes_cbc_decrypt lib d iv (aes_cbc_encrypt lib e iv x) = x)))"

definition aes_ready :: "aes_state \<Rightarrow> bool" where
  "aes_ready a \<longleftrightarrow> aes_has_init a \<and> length (aes_key a) = AES_BLOCK_SIZE"

section \<open>Lemmas\<close>

lemma encrypt_decrypt:
  assumes "aes_lawful lib" and "aes_ready a" and "length x mod AES_BLOCK_SIZE = 0"
  obtains c where "encrypt lib a x = Some (int (length x), c)" and "length c = length x"
    and "decrypt lib a c = Some (1, x)"
proof -
  have iv: "length zero_iv = AES_BLOCK_SIZE" by (simp add: zero_iv_def)
  have "length (aes_key a) = AES_BLOCK_SIZE" using assms(2) by (simp add: aes_ready_def)
  then obtain e d where keys: "aes_set_encrypt_key lib (aes_key a) = Some e" "aes_set_decrypt_key lib (aes_key a) = Some d"
    and inv: "length (aes_cbc_encrypt lib e zero_iv x) = length x"
      "aes_cbc_decrypt lib d zero_iv (aes_cbc_encrypt lib e zero_iv x) = x"
    using assms(1,3) iv unfolding aes_lawful_def by metis
  with assms(2,3) that show thesis by (simp add: encrypt_def decrypt_def aes_ready_def)
qed

lemma concat_commas: "vs \<noteq> [] \<Longrightarrow> concat (map (\<lambda>v. dec v @ '','') vs)
    = butlast (concat (map (\<lambda>v. dec v @ '','') vs)) @ '',''"
  by (induction vs rule: rev_induct) (auto simp: butlast_append)

lemma scan_list_commas:
  "vs \<noteq> [] \<Longrightarrow> scan_list (length vs) (butlast (concat (map (\<lambda>v. dec v @ '','') vs))) = vs"
proof (induction vs)
  case (Cons v vs)
  show ?case
  proof (cases "vs = []")
    case True
    then show ?thesis using scan_d_dec [of "[]" v] by (simp add: butlast_append)
  next
    case False
    let ?t = "concat (map (\<lambda>v. dec v @ '','') vs)"
    have "?t \<noteq> []" using False by (cases vs) auto
    then have "butlast (concat (map (\<lambda>v. dec v @ '','') (v # vs))) = dec v @ CHR '','' # butlast ?t"
      by (simp add: butlast_append)
    moreover have "scan_d (dec v @ CHR '','' # butlast ?t) = Some (v, CHR '','' # butlast ?t)"
      using scan_d_dec [of "CHR '','' # butlast ?t" v] by (simp add: is_digit_def)
    ultimately show ?thesis using Cons.IH False by simp
  qed
qed simp

text \<open>The key file the generator writes gives every server and client that reads it the 16 random
  bytes of the generator, whatever the stack held.\<close>

theorem aes_key_roundtrip:
  assumes "length rands = 16" and "\<not> aes_has_init a"
  shows "AES_init (Some (gen_aes_key rands)) junk a
    = (True, a\<lparr>aes_key := map (\<lambda>r. char_of (r mod 255)) rands, aes_has_init := True\<rparr>)"
proof -
  let ?vs = "map (\<lambda>r. int (r mod 255)) rands"
  have "gen_aes_key rands = butlast (concat (map (\<lambda>v. dec v @ '','') ?vs))"
    by (simp add: gen_aes_key_def o_def)
  moreover have "?vs \<noteq> []" using assms(1) by auto
  ultimately have "scan_list AES_BLOCK_SIZE (gen_aes_key rands) = ?vs"
    using scan_list_commas [of ?vs] assms(1) by (simp add: AES_BLOCK_SIZE_def)
  moreover have "byte_of (int (r mod 255)) = char_of (r mod 255)" for r
    by (simp add: byte_of_def)
  ultimately show ?thesis
    using assms by (simp add: AES_init_def Let_def AES_BLOCK_SIZE_def o_def)
qed

theorem aes_key_roundtrip_witness:
  "aes_key (snd (AES_init (Some (gen_aes_key [1, 2, 3, 4, 5, 6, 7, 8, 9, 10, 11, 12, 13, 14, 15, 300]))
     [] \<lparr>aes_key = [], aes_has_init = False\<rparr>)) ! 15 = char_of (45 :: nat)"
  using aes_key_roundtrip [of "[1, 2, 3, 4, 5, 6, 7, 8, 9, 10, 11, 12, 13, 14, 15, 300]"
      "\<lparr>aes_key = [], aes_has_init = False\<rparr>" "[]"] by simp

end
