(* ===== verification/Socketcli.thy ===== *)
theory Socketcli
  imports Aes
begin

text \<open>
  \<^verbatim>\<open>bsdqclient/socketcli.c\<close>: the client's end of the connection.  The network is the parameter \<open>net\<close>:
  \<open>net_send\<close> hands bytes to the kernel and says whether it took them, \<open>net_recv\<close> delivers what \<^verbatim>\<open>recv\<close> of so
  many bytes with \<^verbatim>\<open>MSG_WAITALL\<close> returns (\<^const>\<open>None\<close> for -1, fewer bytes after a timeout or when the server
  has closed the connection).  \<open>cli_sock\<close> holds the static variables of the file and of
  \<^verbatim>\<open>aes_options.c\<close>.
\<close>

record 'w net =
  net_send :: "'w \<Rightarrow> bytes \<Rightarrow> bool \<times> 'w"
  net_recv :: "'w \<Rightarrow> nat \<Rightarrow> bytes option \<times> 'w"

record 'w cli_sock =
  client_sockfd :: int
  cli_aes :: aes_state
  cli_world :: 'w

text \<open>The outcome of the system calls of \<^verbatim>\<open>socket_client_init\<close> and the key file.\<close>

record cli_open =
  co_fd :: int
  co_setopt :: bool
  co_connected :: bool
  co_keyfile :: "string option"
  co_junk :: "int list"

definition socket_client_init :: "cli_open \<Rightarrow> 'w cli_sock \<Rightarrow> bool \<times> 'w cli_sock" where
  "socket_client_init q k =
     (let k1 = k\<lparr>client_sockfd := co_fd q\<rparr> in
      if co_fd q = -1 \<or> \<not> co_setopt q \<or> \<not> co_connected q then (False, k1)
      else (case AES_init (co_keyfile q) (co_junk q) (cli_aes k1) of (ok, a) \<Rightarrow>
              (ok, k1\<lparr>cli_aes := a\<rparr>)))"

text \<open>The descriptor is forgotten before it is closed, so \<^verbatim>\<open>close\<close> is called on -1.\<close>

definition socket_client_close :: "'w cli_sock \<Rightarrow> 'w cli_sock" where
  "socket_client_close k = k\<lparr>client_sockfd := -1\<rparr>"

text \<open>Encrypting and sending, the common body of the two send functions.\<close>

definition client_send :: "'k aes_lib \<Rightarrow> 'w net \<Rightarrow> bytes \<Rightarrow> 'w cli_sock \<Rightarrow> (bool \<times> 'w cli_sock) option" where
  "client_send lib net plain k =
     (if client_sockfd k = -1 then Some (False, k)
      else case encrypt lib (cli_aes k) plain of
        None \<Rightarrow> None
      | Some (n, c) \<Rightarrow>
          if n = -1 then Some (False, k)
          else (case net_send net (cli_world k) c of (ok, w) \<Rightarrow> Some (ok, k\<lparr>cli_world := w\<rparr>)))"

definition socket_client_send_request :: "'k aes_lib \<Rightarrow> 'w net \<Rightarrow> message_cs \<Rightarrow> 'w cli_sock
    \<Rightarrow> (bool \<times> 'w cli_sock) option" where
  "socket_client_send_request lib net m k = client_send lib net (put_message m) k"

definition socket_client_send_heartbeat :: "'k aes_lib \<Rightarrow> 'w net \<Rightarrow> heartbeat_cs \<Rightarrow> 'w cli_sock
    \<Rightarrow> (bool \<times> 'w cli_sock) option" where
  "socket_client_send_heartbeat lib net h k = client_send lib net (put_heartbeat h) k"

definition socket_client_get_response :: "'k aes_lib \<Rightarrow> 'w net \<Rightarrow> message_cs \<Rightarrow> 'w cli_sock
    \<Rightarrow> (bool \<times> message_cs \<times> 'w cli_sock) option" where
  "socket_client_get_response lib net m k =
     (if client_sockfd k = -1 then Some (False, m, k)
      else case net_recv net (cli_world k) (encrypted_size sizeof_message) of
        (None, w) \<Rightarrow> Some (False, m, k\<lparr>cli_world := w\<rparr>)
      | (Some stream, w) \<Rightarrow>
          (let k1 = k\<lparr>cli_world := w\<rparr> in
           if length stream \<noteq> encrypted_size sizeof_message then Some (False, m, k1)
           else case decrypt lib (cli_aes k1) stream of
             None \<Rightarrow> None
           | Some (res, plain) \<Rightarrow>
               if res = -1 then Some (False, m, k1) else Some (True, get_message plain, k1)))"

end
