(* ===== verification/Clidb.thy ===== *)
theory Clidb
  imports Clisrv "HOL-Library.Signed_Division"
begin

text \<open>
  \<^verbatim>\<open>bsdqclient/clidb.c\<close>: the client's cache of shelves and books in two ndbm files.  The library
  \<^verbatim>\<open>gdbm-ndbm\<close> is the parameter \<open>dbm_lib\<close>; the locale \<open>dbm\<close> states its documented behaviour.  \<open>clidb\<close> holds
  the static variables of the file; a NULL \<^verbatim>\<open>DBM\<close> pointer is \<^const>\<open>None\<close>.  Keys and values are the bytes
  the C code hands over: a key is the whole zero-filled buffer, a value the bytes of the structure.
  An operation returns \<^const>\<open>None\<close> for undefined behaviour (a key that does not fit its buffer, an index
  outside \<^verbatim>\<open>shelf_record\<close>, a division by zero) or when it does not return.
\<close>

record 'd dbm_lib =
  dbm_store :: "'d \<Rightarrow> bytes \<Rightarrow> bytes \<Rightarrow> bool \<times> 'd"
  dbm_fetch :: "'d \<Rightarrow> bytes \<Rightarrow> bytes option"
  dbm_delete :: "'d \<Rightarrow> bytes \<Rightarrow> bool \<times> 'd"

record 'd clidb =
  current_user :: string
  shelf_dbm_ptr :: "'d option"
  book_dbm_ptr :: "'d option"
  shelf_record :: "int list"
  book_dbm_pos :: int
  book_search_pos :: int
  book_search_step :: int
  book_search_cnt :: int

section \<open>Buffers\<close>

text \<open>\<^verbatim>\<open>memset\<close> and \<^verbatim>\<open>sprintf\<close> of a key into a buffer of \<open>n\<close> bytes.\<close>

definition key_buf :: "nat \<Rightarrow> string \<Rightarrow> bytes option" where
  "key_buf n t = (if length t < n then Some (put_str n t) else None)"

definition shelf_key :: "string \<Rightarrow> int \<Rightarrow> bytes option" where
  "shelf_key u n = key_buf (USER_NAME_LEN + 16 + 1) (u @ ''_shelf_'' @ dec n)"

definition record_key :: "string \<Rightarrow> bytes option" where
  "record_key u = key_buf (USER_NAME_LEN + 16 + 1) (u @ ''_shelf_record'')"

definition book_key :: "int \<Rightarrow> bytes option" where
  "book_key n = key_buf 16 (''book_'' @ dec n)"

text \<open>\<^verbatim>\<open>memcpy\<close> of a fetched value over an object that holds the bytes \<open>old\<close>.\<close>

definition memcpy_over :: "bytes \<Rightarrow> bytes \<Rightarrow> bytes option" where
  "memcpy_over old bs = (if length bs \<le> length old then Some (bs @ drop (length bs) old) else None)"

definition put_record :: "int list \<Rightarrow> bytes" where
  "put_record rs = concat (map put_int rs)"

definition get_record :: "bytes \<Rightarrow> int list" where
  "get_record bs = map (\<lambda>i. get_int (field_at (4 * i) 4 bs)) [0..<15]"

section \<open>Shelves\<close>

definition shelf_record_save :: "'d dbm_lib \<Rightarrow> 'd clidb \<Rightarrow> (bool \<times> 'd clidb) option" where
  "shelf_record_save lib c =
     (case shelf_dbm_ptr c of
        None \<Rightarrow> Some (False, c)
      | Some d \<Rightarrow>
          (case record_key (current_user c) of
             None \<Rightarrow> None
           | Some k \<Rightarrow>
               (case dbm_store lib d k (put_record (shelf_record c)) of (ok, d') \<Rightarrow>
                  Some (ok, c\<lparr>shelf_dbm_ptr := Some d'\<rparr>))))"

definition shelf_record_obtain :: "'d dbm_lib \<Rightarrow> 'd clidb \<Rightarrow> (bool \<times> 'd clidb) option" where
  "shelf_record_obtain lib c =
     (case shelf_dbm_ptr c of
        None \<Rightarrow> Some (False, c)
      | Some d \<Rightarrow>
          (case record_key (current_user c) of
             None \<Rightarrow> None
           | Some k \<Rightarrow>
               (case dbm_fetch lib d k of
                  Some bs \<Rightarrow> map_option (\<lambda>new. (True, c\<lparr>shelf_record := get_record new\<rparr>))
                               (memcpy_over (put_record (shelf_record c)) bs)
                | None \<Rightarrow> map_option (\<lambda>(_, c'). (False, c')) (shelf_record_save lib c))))"

text \<open>\<open>dir_ok\<close> says that the cache directory exists or could be made; \<open>sd\<close> and \<open>bd\<close> are what the two
  \<^verbatim>\<open>dbm_open\<close> calls return, the book file having been unlinked before.\<close>

definition clidb_init :: "'d dbm_lib \<Rightarrow> bool \<Rightarrow> 'd option \<Rightarrow> 'd option \<Rightarrow> string \<Rightarrow> 'd clidb
    \<Rightarrow> (bool \<times> 'd clidb) option" where
  "clidb_init lib dir_ok sd bd login c =
     (if USER_NAME_LEN < length login then None
      else (let c1 = c\<lparr>current_user := login\<rparr> in
        if \<not> dir_ok then Some (False, c1)
        else (let c2 = c1\<lparr>shelf_dbm_ptr := sd, book_dbm_ptr := bd\<rparr> in
          if sd = None \<or> bd = None then Some (False, c2)
          else map_option (\<lambda>(_, c3). (True, c3)) (shelf_record_obtain lib c2))))"

text \<open>\<^verbatim>\<open>SHELF_RECORD_UNSET\<close>, \<^verbatim>\<open>SHELF_RECORD_SET\<close> and \<^verbatim>\<open>SHELF_RECORD_SYNC\<close> write 0, 1 and 2.\<close>

definition shelf_record_put :: "int \<Rightarrow> int \<Rightarrow> 'd clidb \<Rightarrow> 'd clidb option" where
  "shelf_record_put x v c =
     (if 1 \<le> x \<and> x \<le> MAX_SHELF_NUM then Some (c\<lparr>shelf_record := (shelf_record c)[nat (x - 1) := v]\<rparr>)
      else None)"

definition record_and_save :: "'d dbm_lib \<Rightarrow> int \<Rightarrow> int \<Rightarrow> 'd clidb \<Rightarrow> (bool \<times> 'd clidb) option" where
  "record_and_save lib x v c =
     (case shelf_record_put x v c of None \<Rightarrow> None | Some c' \<Rightarrow> shelf_record_save lib c')"

definition SHELF_INSERT_MODE :: int where "SHELF_INSERT_MODE = 0"
definition SHELF_SYNC_MODE :: int where "SHELF_SYNC_MODE = 1"

definition clidb_shelf_real_insert :: "'d dbm_lib \<Rightarrow> shelf_entry \<Rightarrow> int \<Rightarrow> 'd clidb
    \<Rightarrow> (bool \<times> 'd clidb) option" where
  "clidb_shelf_real_insert lib e mode c =
     (case shelf_dbm_ptr c of
        None \<Rightarrow> Some (False, c)
      | Some d \<Rightarrow>
          (case shelf_key (current_user c) (s_code e) of
             None \<Rightarrow> None
           | Some k \<Rightarrow>
               (case dbm_store lib d k (put_shelf e) of (ok, d') \<Rightarrow>
                  let c1 = c\<lparr>shelf_dbm_ptr := Some d'\<rparr> in
                  if \<not> ok then Some (False, c1)
                  else if mode = SHELF_SYNC_MODE then record_and_save lib (s_code e) 2 c1
                  else if mode = SHELF_INSERT_MODE then record_and_save lib (s_code e) 1 c1
                  else shelf_record_save lib c1)))"

definition clidb_shelf_insert :: "'d dbm_lib \<Rightarrow> shelf_entry \<Rightarrow> 'd clidb \<Rightarrow> (bool \<times> 'd clidb) option" where
  "clidb_shelf_insert lib e c = clidb_shelf_real_insert lib e SHELF_INSERT_MODE c"

definition clidb_shelf_synchronize :: "'d dbm_lib \<Rightarrow> shelf_entry \<Rightarrow> 'd clidb \<Rightarrow> (bool \<times> 'd clidb) option" where
  "clidb_shelf_synchronize lib e c = clidb_shelf_real_insert lib e SHELF_SYNC_MODE c"

definition clidb_shelf_delete :: "'d dbm_lib \<Rightarrow> int \<Rightarrow> 'd clidb \<Rightarrow> (bool \<times> 'd clidb) option" where
  "clidb_shelf_delete lib shelfno c =
     (case shelf_dbm_ptr c of
        None \<Rightarrow> Some (False, c)
      | Some d \<Rightarrow>
          (case shelf_key (current_user c) shelfno of
             None \<Rightarrow> None
           | Some k \<Rightarrow>
               (case dbm_delete lib d k of (ok, d') \<Rightarrow>
                  let c1 = c\<lparr>shelf_dbm_ptr := Some d'\<rparr> in
                  if \<not> ok then Some (False, c1) else record_and_save lib shelfno 0 c1)))"

definition clidb_shelf_get :: "'d dbm_lib \<Rightarrow> int \<Rightarrow> shelf_entry \<Rightarrow> 'd clidb \<Rightarrow> (bool \<times> shelf_entry) option" where
  "clidb_shelf_get lib shelfno e c =
     (case shelf_dbm_ptr c of
        None \<Rightarrow> Some (False, e)
      | Some d \<Rightarrow>
          (case shelf_key (current_user c) shelfno of
             None \<Rightarrow> None
           | Some k \<Rightarrow>
               (case dbm_fetch lib d k of
                  Some bs \<Rightarrow> map_option (\<lambda>new. (True, get_shelf new)) (memcpy_over (put_shelf e) bs)
                | None \<Rightarrow> Some (False, e))))"

definition clidb_shelf_exists :: "int \<Rightarrow> 'd clidb \<Rightarrow> bool option" where
  "clidb_shelf_exists shelfno c =
     (if MAX_SHELF_NUM < shelfno then Some False
      else if shelfno < 1 then None
      else Some (0 < shelf_record c ! nat (shelfno - 1)))"

definition clidb_shelf_not_syncs :: "int \<Rightarrow> 'd clidb \<Rightarrow> bool option" where
  "clidb_shelf_not_syncs shelfno c =
     (if MAX_SHELF_NUM < shelfno then Some False
      else if shelfno < 1 then None
      else Some (shelf_record c ! nat (shelfno - 1) = 1))"

text \<open>\<^verbatim>\<open>clidb_shelf_realno\<close>: the inner loop looks for the next recorded shelf and never ends when there is
  none, nor does the outer loop end for a negative position.\<close>

definition next_shelf :: "'d clidb \<Rightarrow> int \<Rightarrow> int option" where
  "next_shelf c r = List.find (\<lambda>i. clidb_shelf_exists i c = Some True) [r + 1..MAX_SHELF_NUM]"

fun realno_loop :: "'d clidb \<Rightarrow> nat \<Rightarrow> int \<Rightarrow> int option" where
  "realno_loop c 0 r = Some r"
| "realno_loop c (Suc n) r = (case next_shelf c r of None \<Rightarrow> None | Some r' \<Rightarrow> realno_loop c n r')"

definition clidb_shelf_realno :: "'d clidb \<Rightarrow> int \<Rightarrow> int option" where
  "clidb_shelf_realno c pos = (if pos < 0 then None else realno_loop c (nat pos) 0)"

definition clidb_shelf_record_sort :: "'d dbm_lib \<Rightarrow> 'd clidb \<Rightarrow> (bool \<times> 'd clidb) option" where
  "clidb_shelf_record_sort lib c =
     shelf_record_save lib (c\<lparr>shelf_record := map (\<lambda>v. if v = 2 then 1 else v) (shelf_record c)\<rparr>)"

section \<open>Books\<close>

definition clidb_book_reset :: "'d clidb \<Rightarrow> 'd clidb" where
  "clidb_book_reset c = c\<lparr>book_dbm_pos := 0, book_search_pos := 0\<rparr>"

definition clidb_book_insert :: "'d dbm_lib \<Rightarrow> book_entry \<Rightarrow> int \<Rightarrow> 'd clidb \<Rightarrow> (bool \<times> 'd clidb) option" where
  "clidb_book_insert lib b ins_pos c =
     (case book_dbm_ptr c of
        None \<Rightarrow> Some (False, c)
      | Some d \<Rightarrow>
          (let pos = (if ins_pos = -1 then book_dbm_pos c else ins_pos);
               c1 = (if ins_pos = -1 then c\<lparr>book_dbm_pos := book_dbm_pos c + 1\<rparr> else c)
           in case book_key pos of
                None \<Rightarrow> None
              | Some k \<Rightarrow>
                  (case dbm_store lib d k (put_book b) of (ok, d') \<Rightarrow>
                     Some (ok, c1\<lparr>book_dbm_ptr := Some d'\<rparr>))))"

definition clidb_book_search_reset :: "'d clidb \<Rightarrow> 'd clidb" where
  "clidb_book_search_reset c = c\<lparr>book_search_pos := 0\<rparr>"

definition clidb_book_search_step :: "int \<Rightarrow> 'd clidb \<Rightarrow> 'd clidb" where
  "clidb_book_search_step step c = c\<lparr>book_search_step := step, book_search_cnt := 0\<rparr>"

definition clidb_book_backward_mode :: "'d clidb \<Rightarrow> 'd clidb option" where
  "clidb_book_backward_mode c =
     (if book_search_step c = 0 then None
      else (let factor = book_search_pos c sdiv book_search_step c;
                factor' = (if 0 < book_search_pos c \<and> book_search_pos c smod book_search_step c = 0
                           then factor - 1 else factor)
            in Some (c\<lparr>book_search_pos := factor' * book_search_step c\<rparr>)))"

definition clidb_book_peek :: "'d dbm_lib \<Rightarrow> book_entry \<Rightarrow> int \<Rightarrow> 'd clidb \<Rightarrow> (bool \<times> book_entry) option" where
  "clidb_book_peek lib b peek_pos c =
     (case book_dbm_ptr c of
        None \<Rightarrow> Some (False, b)
      | Some d \<Rightarrow>
          (case book_key peek_pos of
             None \<Rightarrow> None
           | Some k \<Rightarrow>
               (case dbm_fetch lib d k of
                  Some bs \<Rightarrow> map_option (\<lambda>new. (True, get_book new)) (memcpy_over (put_book b) bs)
                | None \<Rightarrow> Some (False, b))))"

text \<open>The result is that of the C function: 1, 0 or -1.\<close>

definition clidb_book_get :: "'d dbm_lib \<Rightarrow> book_entry \<Rightarrow> 'd clidb \<Rightarrow> (int \<times> book_entry \<times> 'd clidb) option" where
  "clidb_book_get lib b c =
     (if book_dbm_ptr c = None then Some (0, b, c)
      else if book_dbm_pos c - 1 < book_search_pos c then Some (-1, b, c)
      else (let c1 = c\<lparr>book_search_cnt := book_search_cnt c + 1\<rparr> in
        if book_search_step c < book_search_cnt c1 then Some (-1, b, c1)
        else map_option (\<lambda>(ok, b'). (of_bool ok, b', c1\<lparr>book_search_pos := book_search_pos c + 1\<rparr>))
               (clidb_book_peek lib b (book_search_pos c) c)))"

definition clidb_book_delete :: "'d dbm_lib \<Rightarrow> book_entry \<Rightarrow> int \<Rightarrow> 'd clidb \<Rightarrow> (bool \<times> 'd clidb) option" where
  "clidb_book_delete lib junk del_pos c =
     (case clidb_book_peek lib junk del_pos c of
        None \<Rightarrow> None
      | Some (ok, b) \<Rightarrow>
          if \<not> ok then Some (False, c) else clidb_book_insert lib (b\<lparr>encoding_time := ''''\<rparr>) del_pos c)"

section \<open>Keys\<close>

lemma last_underscore:
  assumes "a @ CHR ''_'' # s = b @ CHR ''_'' # t" and "CHR ''_'' \<notin> set s" and "CHR ''_'' \<notin> set t"
  shows "a = b \<and> s = t"
proof -
  have w: "takeWhile (\<lambda>c. c \<noteq> CHR ''_'') (rev x @ CHR ''_'' # y) = rev x"
    if "CHR ''_'' \<notin> set x" for x y
    using that by (subst takeWhile_append2) auto
  have "rev s @ CHR ''_'' # rev a = rev t @ CHR ''_'' # rev b"
    using arg_cong [OF assms(1), of rev] by simp
  then have "rev s = rev t" using w assms(2,3) by metis
  then show ?thesis using assms(1) by simp
qed

lemma underscore_free_dec: "CHR ''_'' \<notin> set (dec n)" "NUL \<notin> set (dec n)"
  by (auto simp: dec_def is_digit_def dest!: dec_nat_digits)

lemma key_buf_inject:
  assumes "key_buf n t = Some k" and "key_buf n t' = Some k" and "NUL \<notin> set t" and "NUL \<notin> set t'"
  shows "t = t'"
  using assms get_put_str [of t n] get_put_str [of t' n] by (auto simp: key_buf_def split: if_splits)

lemma shelf_key_inject:
  assumes "shelf_key u n = Some k" and "shelf_key u' n' = Some k" and "NUL \<notin> set u" and "NUL \<notin> set u'"
  shows "u = u' \<and> n = n'"
proof -
  have "u @ ''_shelf_'' @ dec n = u' @ ''_shelf_'' @ dec n'"
    using assms by (intro key_buf_inject [of "USER_NAME_LEN + 16 + 1" _ k])
      (auto simp: shelf_key_def underscore_free_dec)
  then show ?thesis
    using last_underscore [of "u @ ''_shelf''" "dec n" "u' @ ''_shelf''" "dec n'"]
    by (simp add: underscore_free_dec)
qed

lemma shelf_record_key:
  assumes "shelf_key u n = Some k" and "NUL \<notin> set u" and "NUL \<notin> set u'"
  shows "record_key u' \<noteq> Some k"
proof
  assume "record_key u' = Some k"
  then have "u @ ''_shelf_'' @ dec n = u' @ ''_shelf_'' @ ''record''"
    using assms by (intro key_buf_inject [of "USER_NAME_LEN + 16 + 1" _ k])
      (auto simp: shelf_key_def record_key_def underscore_free_dec)
  then have "dec n = ''record''"
    using last_underscore [of "u @ ''_shelf''" "dec n" "u' @ ''_shelf''" "''record''"]
    by (simp add: underscore_free_dec)
  moreover have "hd (dec n) = CHR ''-'' \<or> is_digit (hd (dec n))"
    using hd_dec_nat [of "nat n"] by (simp add: dec_def)
  ultimately show False by (simp add: is_digit_def)
qed

lemma record_key_inject:
  assumes "record_key u = Some k" and "record_key u' = Some k" and "NUL \<notin> set u" and "NUL \<notin> set u'"
  shows "u = u'"
  using key_buf_inject [of "USER_NAME_LEN + 16 + 1" "u @ ''_shelf_record''" k "u' @ ''_shelf_record''"] assms
  by (simp add: record_key_def)

lemma length_dec: "0 \<le> n \<Longrightarrow> n < 10 ^ k \<Longrightarrow> 0 < k \<Longrightarrow> length (dec n) \<le> k"
  using length_dec_nat [of "nat n" k] by (simp add: dec_def nat_less_iff)

lemma shelf_key_fits:
  "c_str USER_NAME_LEN u \<Longrightarrow> 0 \<le> n \<Longrightarrow> n \<le> MAX_SHELF_NUM \<Longrightarrow> \<exists>k. shelf_key u n = Some k"
  using length_dec [of n 2] by (simp add: shelf_key_def key_buf_def c_str_def limits)

lemma record_key_fits: "c_str USER_NAME_LEN u \<Longrightarrow> \<exists>k. record_key u = Some k"
  by (simp add: record_key_def key_buf_def c_str_def limits)

lemma book_key_fits: "0 \<le> n \<Longrightarrow> n < 2147483648 \<Longrightarrow> \<exists>k. book_key n = Some k"
  using length_dec [of n 10] by (simp add: book_key_def key_buf_def)

lemma book_key_inject:
  assumes "book_key n = Some k" and "book_key n' = Some k"
  shows "n = n'"
  using key_buf_inject [of 16 "''book_'' @ dec n" k "''book_'' @ dec n'"] assms
  by (simp add: book_key_def underscore_free_dec)

section \<open>The shelves in the cache\<close>

definition stored_shelf :: "('d \<Rightarrow> bytes \<Rightarrow> bytes option) \<Rightarrow> 'd clidb \<Rightarrow> string \<Rightarrow> int \<Rightarrow> bytes option" where
  "stored_shelf contents c u n =
     (case shelf_dbm_ptr c of None \<Rightarrow> None | Some d \<Rightarrow> Option.bind (shelf_key u n) (contents d))"

definition stored_record :: "('d \<Rightarrow> bytes \<Rightarrow> bytes option) \<Rightarrow> 'd clidb \<Rightarrow> string \<Rightarrow> bytes option" where
  "stored_record contents c u =
     (case shelf_dbm_ptr c of None \<Rightarrow> None | Some d \<Rightarrow> Option.bind (record_key u) (contents d))"

definition recorded :: "'d clidb \<Rightarrow> int \<Rightarrow> bool" where
  "recorded c n \<longleftrightarrow> 1 \<le> n \<and> n \<le> MAX_SHELF_NUM \<and> 0 < shelf_record c ! nat (n - 1)"

definition shelf_cache :: "('d \<Rightarrow> bytes \<Rightarrow> bytes option) \<Rightarrow> 'd clidb \<Rightarrow> int \<Rightarrow> shelf_entry option" where
  "shelf_cache contents c n =
     (if recorded c n then map_option get_shelf (stored_shelf contents c (current_user c) n) else None)"

definition cache_ok :: "('d \<Rightarrow> bytes \<Rightarrow> bytes option) \<Rightarrow> 'd clidb \<Rightarrow> bool" where
  "cache_ok contents c \<longleftrightarrow> c_str USER_NAME_LEN (current_user c) \<and> shelf_dbm_ptr c \<noteq> None
     \<and> length (shelf_record c) = 15 \<and> set (shelf_record c) \<subseteq> {0, 1, 2}
     \<and> (\<forall>n. recorded c n \<longrightarrow> (\<exists>e. wf_shelf e \<and> s_code e = n
            \<and> stored_shelf contents c (current_user c) n = Some (put_shelf e)))"

definition record_saved :: "('d \<Rightarrow> bytes \<Rightarrow> bytes option) \<Rightarrow> 'd clidb \<Rightarrow> bool" where
  "record_saved contents c \<longleftrightarrow>
     stored_record contents c (current_user c) = Some (put_record (shelf_record c))"

text \<open>The entries of other users stay as they are.\<close>

definition others_kept :: "('d \<Rightarrow> bytes \<Rightarrow> bytes option) \<Rightarrow> 'd clidb \<Rightarrow> 'd clidb \<Rightarrow> bool" where
  "others_kept contents c c' \<longleftrightarrow> current_user c' = current_user c \<and>
     (\<forall>u. NUL \<notin> set u \<longrightarrow> u \<noteq> current_user c \<longrightarrow>
        stored_record contents c' u = stored_record contents c u \<and>
        (\<forall>n. stored_shelf contents c' u n = stored_shelf contents c u n))"

lemma get_put_record: "length rs = 15 \<Longrightarrow> list_all c_int rs \<Longrightarrow> get_record (put_record rs) = rs"
proof (rule nth_equalityI)
  fix i
  assume "length rs = 15" "list_all c_int rs" "i < length (get_record (put_record rs))"
  then show "get_record (put_record rs) ! i = rs ! i"
    by (simp add: get_record_def put_record_def field_at_concat_put_int list_all_length)
qed (simp add: get_record_def)

lemma get_put_shelf_all: "wf_shelf s \<Longrightarrow> get_shelf (put_shelf s) = s"
  using get_put_shelf [of s "[]"] by simp

locale dbm =
  fixes lib :: "'d dbm_lib" and contents :: "'d \<Rightarrow> bytes \<Rightarrow> bytes option"
  assumes fetch: "dbm_fetch lib d k = contents d k"
    and store_done: "dbm_store lib d k v = (True, d') \<Longrightarrow> contents d' = (contents d)(k \<mapsto> v)"
    and store_failed: "dbm_store lib d k v = (False, d') \<Longrightarrow> contents d' = contents d"
    and delete_done: "dbm_delete lib d k = (True, d') \<Longrightarrow> contents d' = (contents d)(k := None)"
    and delete_failed: "dbm_delete lib d k = (False, d') \<Longrightarrow> contents d' = contents d"
begin

lemma save_effect:
  assumes "shelf_record_save lib c = Some (ok, c')" and "c_str USER_NAME_LEN (current_user c)"
    and "shelf_dbm_ptr c = Some d"
  shows "\<exists>d'. c' = c\<lparr>shelf_dbm_ptr := Some d'\<rparr> \<and> (ok \<longrightarrow> record_saved contents c')
    \<and> (\<forall>u n. NUL \<notin> set u \<longrightarrow> stored_shelf contents c' u n = stored_shelf contents c u n)
    \<and> (\<forall>u. NUL \<notin> set u \<longrightarrow> u \<noteq> current_user c \<longrightarrow> stored_record contents c' u = stored_record contents c u)"
proof -
  obtain k where k: "record_key (current_user c) = Some k"
    using assms(2) record_key_fits by blast
  obtain d' where st: "dbm_store lib d k (put_record (shelf_record c)) = (ok, d')"
    and c': "c' = c\<lparr>shelf_dbm_ptr := Some d'\<rparr>"
    using assms k by (auto simp: shelf_record_save_def split: prod.splits)
  have nul: "NUL \<notin> set (current_user c)" using assms(2) by (simp add: c_str_def)
  have con: "contents d' = (if ok then (contents d)(k \<mapsto> put_record (shelf_record c)) else contents d)"
    using st store_done store_failed by (cases ok) auto
  have "stored_shelf contents c' u n = stored_shelf contents c u n" if "NUL \<notin> set u" for u n
    using shelf_record_key [of u n k "current_user c"] con k nul that c' assms(3)
    by (cases "shelf_key u n") (auto simp: stored_shelf_def)
  moreover have "stored_record contents c' u = stored_record contents c u"
    if "NUL \<notin> set u" "u \<noteq> current_user c" for u
    using record_key_inject [of u k "current_user c"] con k nul that c' assms(3)
    by (cases "record_key u") (auto simp: stored_record_def)
  moreover have "ok \<longrightarrow> record_saved contents c'"
    using con k c' by (simp add: record_saved_def stored_record_def)
  ultimately show ?thesis using c' by blast
qed

lemma cache_okD:
  assumes "cache_ok contents c"
  shows "c_str USER_NAME_LEN (current_user c)" and "NUL \<notin> set (current_user c)"
    and "length (shelf_record c) = 15" and "\<exists>d. shelf_dbm_ptr c = Some d"
  using assms by (auto simp: cache_ok_def c_str_def)

text \<open>Writing entry \<open>n\<close> of the record and saving it, after the file's shelf \<open>n\<close> was set to \<open>e\<close> (or removed).\<close>

lemma record_and_save_effect:
  assumes ok: "cache_ok contents c" and d: "shelf_dbm_ptr c1 = Some d1" and c1: "c1 = c\<lparr>shelf_dbm_ptr := Some d1\<rparr>"
    and n: "1 \<le> n" "n \<le> MAX_SHELF_NUM" and v: "v \<in> {0, 1, 2}"
    and new: "0 < v \<Longrightarrow> wf_shelf e \<and> s_code e = n \<and> stored_shelf contents c1 (current_user c) n = Some (put_shelf e)"
    and old: "\<And>i. i \<noteq> n \<Longrightarrow> stored_shelf contents c1 (current_user c) i = stored_shelf contents c (current_user c) i"
    and run: "record_and_save lib n v c1 = Some (done, c')"
  shows "cache_ok contents c'" and "done \<longrightarrow> record_saved contents c'"
    and "shelf_cache contents c' = (shelf_cache contents c)(n := (if 0 < v then Some e else None))"
    and "\<forall>u i. NUL \<notin> set u \<longrightarrow> stored_shelf contents c' u i = stored_shelf contents c1 u i"
    and "\<forall>u. NUL \<notin> set u \<longrightarrow> u \<noteq> current_user c \<longrightarrow> stored_record contents c' u = stored_record contents c1 u"
    and "shelf_record c' = (shelf_record c)[nat (n - 1) := v]" and "current_user c' = current_user c"
proof -
  let ?c2 = "c1\<lparr>shelf_record := (shelf_record c)[nat (n - 1) := v]\<rparr>"
  have sv: "shelf_record_save lib ?c2 = Some (done, c')"
    using run n c1 by (simp add: record_and_save_def shelf_record_put_def)
  obtain d' where c': "c' = ?c2\<lparr>shelf_dbm_ptr := Some d'\<rparr>" and saved: "done \<longrightarrow> record_saved contents c'"
    and st: "\<forall>u i. NUL \<notin> set u \<longrightarrow> stored_shelf contents c' u i = stored_shelf contents ?c2 u i"
    and sr: "\<forall>u. NUL \<notin> set u \<longrightarrow> u \<noteq> current_user c \<longrightarrow> stored_record contents c' u = stored_record contents ?c2 u"
    using save_effect [OF sv] cache_okD [OF ok] d c1 by auto
  have s2: "stored_shelf contents ?c2 = stored_shelf contents c1" "stored_record contents ?c2 = stored_record contents c1"
    by (auto simp: stored_shelf_def stored_record_def fun_eq_iff)
  show t: "\<forall>u i. NUL \<notin> set u \<longrightarrow> stored_shelf contents c' u i = stored_shelf contents c1 u i"
    and "\<forall>u. NUL \<notin> set u \<longrightarrow> u \<noteq> current_user c \<longrightarrow> stored_record contents c' u = stored_record contents c1 u"
    and "done \<longrightarrow> record_saved contents c'" and rc: "shelf_record c' = (shelf_record c)[nat (n - 1) := v]"
    and usr: "current_user c' = current_user c"
    using st sr s2 saved c' c1 by simp_all
  have rec: "recorded c' i \<longleftrightarrow> (if i = n then 0 < v else recorded c i)" for i
  proof (cases "1 \<le> i \<and> i \<le> MAX_SHELF_NUM")
    case True
    then have "nat (n - 1) = nat (i - 1) \<longleftrightarrow> i = n" using n by auto
    with True n cache_okD(3) [OF ok] show ?thesis by (simp add: recorded_def rc limits nth_list_update)
  qed (use n in \<open>auto simp: recorded_def\<close>)
  have at: "stored_shelf contents c' (current_user c) i = stored_shelf contents c1 (current_user c) i" for i
    using t cache_okD(2) [OF ok] by blast
  have "set ((shelf_record c)[nat (n - 1) := v]) \<subseteq> {0, 1, 2}"
    using ok v set_update_subset_insert [of "shelf_record c" "nat (n - 1)" v]
    by (auto simp: cache_ok_def)
  moreover have "\<exists>e. wf_shelf e \<and> s_code e = i \<and> stored_shelf contents c' (current_user c') i = Some (put_shelf e)"
    if "recorded c' i" for i
  proof (cases "i = n")
    case True
    then show ?thesis using that rec [of i] new at [of i] usr by auto
  next
    case False
    then show ?thesis using that rec [of i] ok old [of i] at [of i] usr by (auto simp: cache_ok_def)
  qed
  ultimately show "cache_ok contents c'"
    using ok rc usr c' by (simp add: cache_ok_def)
  show "shelf_cache contents c' = (shelf_cache contents c)(n := (if 0 < v then Some e else None))"
  proof
    fix i
    show "shelf_cache contents c' i = ((shelf_cache contents c)(n := (if 0 < v then Some e else None))) i"
      using rec [of i] at [of i] old [of i] new usr
      by (auto simp: shelf_cache_def get_put_shelf_all)
  qed
qed

lemma others_after_shelf:
  assumes "shelf_key (current_user c) n = Some k" and "NUL \<notin> set (current_user c)" and "shelf_dbm_ptr c = Some d"
    and "contents d' = (contents d)(k := x)"
  shows "others_kept contents c (c\<lparr>shelf_dbm_ptr := Some d'\<rparr>)"
    and "i \<noteq> n \<Longrightarrow> stored_shelf contents (c\<lparr>shelf_dbm_ptr := Some d'\<rparr>) (current_user c) i
      = stored_shelf contents c (current_user c) i"
    and "stored_shelf contents (c\<lparr>shelf_dbm_ptr := Some d'\<rparr>) (current_user c) n = x"
proof -
  have "stored_record contents (c\<lparr>shelf_dbm_ptr := Some d'\<rparr>) u = stored_record contents c u"
    if "NUL \<notin> set u" for u
    using that assms shelf_record_key [of "current_user c" n k u]
    by (cases "record_key u") (auto simp: stored_record_def)
  moreover have "stored_shelf contents (c\<lparr>shelf_dbm_ptr := Some d'\<rparr>) u i = stored_shelf contents c u i"
    if "NUL \<notin> set u" "u \<noteq> current_user c \<or> i \<noteq> n" for u i
    using that assms shelf_key_inject [of "current_user c" n k u i]
    by (cases "shelf_key u i") (auto simp: stored_shelf_def)
  ultimately show "others_kept contents c (c\<lparr>shelf_dbm_ptr := Some d'\<rparr>)"
    and "i \<noteq> n \<Longrightarrow> stored_shelf contents (c\<lparr>shelf_dbm_ptr := Some d'\<rparr>) (current_user c) i
      = stored_shelf contents c (current_user c) i"
    using assms(2) by (simp_all add: others_kept_def)
  show "stored_shelf contents (c\<lparr>shelf_dbm_ptr := Some d'\<rparr>) (current_user c) n = x"
    using assms by (simp add: stored_shelf_def)
qed

lemma record_and_save_total:
  assumes "cache_ok contents c" and "1 \<le> n" and "n \<le> MAX_SHELF_NUM"
  shows "\<exists>ok c'. record_and_save lib n v (c\<lparr>shelf_dbm_ptr := Some d\<rparr>) = Some (ok, c')"
  using assms record_key_fits [of "current_user c"]
  by (auto simp: record_and_save_def shelf_record_put_def shelf_record_save_def cache_ok_def split: prod.splits)

lemma cache_ok_same_contents:
  assumes "cache_ok contents c" and "shelf_dbm_ptr c = Some d" and "contents d' = contents d"
  shows "cache_ok contents (c\<lparr>shelf_dbm_ptr := Some d'\<rparr>)"
    and "shelf_cache contents (c\<lparr>shelf_dbm_ptr := Some d'\<rparr>) = shelf_cache contents c"
    and "others_kept contents c (c\<lparr>shelf_dbm_ptr := Some d'\<rparr>)"
proof -
  have "stored_shelf contents (c\<lparr>shelf_dbm_ptr := Some d'\<rparr>) = stored_shelf contents c"
    "stored_record contents (c\<lparr>shelf_dbm_ptr := Some d'\<rparr>) = stored_record contents c"
    "recorded (c\<lparr>shelf_dbm_ptr := Some d'\<rparr>) = recorded c"
    by (auto simp: fun_eq_iff stored_shelf_def stored_record_def recorded_def assms(2,3))
  then show "cache_ok contents (c\<lparr>shelf_dbm_ptr := Some d'\<rparr>)"
    and "shelf_cache contents (c\<lparr>shelf_dbm_ptr := Some d'\<rparr>) = shelf_cache contents c"
    and "others_kept contents c (c\<lparr>shelf_dbm_ptr := Some d'\<rparr>)"
    using assms(1) by (auto simp: cache_ok_def shelf_cache_def others_kept_def fun_eq_iff)
qed

lemma shelf_write_effect:
  assumes ok: "cache_ok contents c" and n: "1 \<le> n" "n \<le> MAX_SHELF_NUM" and v: "v \<in> {0, 1, 2}"
    and d: "shelf_dbm_ptr c = Some d" and k: "shelf_key (current_user c) n = Some k"
    and d': "contents d' = (contents d)(k := (if 0 < v then Some (put_shelf e) else None))"
    and e: "0 < v \<Longrightarrow> wf_shelf e \<and> s_code e = n"
    and run: "record_and_save lib n v (c\<lparr>shelf_dbm_ptr := Some d'\<rparr>) = Some (done, c')"
  shows "cache_ok contents c' \<and> others_kept contents c c' \<and> (done \<longrightarrow> record_saved contents c')
    \<and> shelf_cache contents c' = (shelf_cache contents c)(n := (if 0 < v then Some e else None))
    \<and> shelf_record c' = (shelf_record c)[nat (n - 1) := v]"
proof -
  let ?c1 = "c\<lparr>shelf_dbm_ptr := Some d'\<rparr>"
  note s = others_after_shelf [OF k cache_okD(2) [OF ok] d d']
  have c1: "shelf_dbm_ptr ?c1 = Some d'" "?c1 = c\<lparr>shelf_dbm_ptr := Some d'\<rparr>" by simp_all
  have new: "0 < v \<Longrightarrow> wf_shelf e \<and> s_code e = n
      \<and> stored_shelf contents ?c1 (current_user c) n = Some (put_shelf e)"
    using e s(3) by simp
  note r = record_and_save_effect [OF ok c1 n v new s(2) run]
  have "others_kept contents c c'"
    using s(1) r(4,5,7) by (simp add: others_kept_def)
  then show ?thesis using r by simp
qed

lemma real_insert_effect:
  assumes ok: "cache_ok contents c" and e: "wf_shelf e" "1 \<le> s_code e" "s_code e \<le> MAX_SHELF_NUM"
    and mode: "mode = SHELF_SYNC_MODE \<and> v = 2 \<or> mode = SHELF_INSERT_MODE \<and> v = 1"
  obtains (stored) res c' where "clidb_shelf_real_insert lib e mode c = Some (res, c')"
      "cache_ok contents c'" "others_kept contents c c'" "res \<longrightarrow> record_saved contents c'"
      "shelf_cache contents c' = (shelf_cache contents c)(s_code e \<mapsto> e)"
      "shelf_record c' = (shelf_record c)[nat (s_code e - 1) := v]"
    | (failed) c' where "clidb_shelf_real_insert lib e mode c = Some (False, c')"
      "cache_ok contents c'" "others_kept contents c c'" "shelf_cache contents c' = shelf_cache contents c"
      "shelf_record c' = shelf_record c"
proof -
  obtain d where d: "shelf_dbm_ptr c = Some d" using cache_okD(4) [OF ok] by blast
  obtain k where k: "shelf_key (current_user c) (s_code e) = Some k"
    using shelf_key_fits cache_okD(1) [OF ok] e by fastforce
  obtain st d' where s: "dbm_store lib d k (put_shelf e) = (st, d')" by fastforce
  show thesis
  proof (cases st)
    case True
    then have d': "contents d' = (contents d)(k := (if 0 < v then Some (put_shelf e) else None))"
      using store_done s mode by auto
    obtain res c' where r: "record_and_save lib (s_code e) v (c\<lparr>shelf_dbm_ptr := Some d'\<rparr>) = Some (res, c')"
      using record_and_save_total [OF ok e(2,3)] by blast
    have run: "clidb_shelf_real_insert lib e mode c = Some (res, c')"
      using mode d k s r True
      by (auto simp: clidb_shelf_real_insert_def SHELF_SYNC_MODE_def SHELF_INSERT_MODE_def Let_def)
    have v: "v \<in> {0, 1, 2}" "0 < v" using mode by auto
    with shelf_write_effect [OF ok e(2,3) v(1) d k d' _ r] e(1) show thesis
      by (intro stored [OF run]) auto
  next
    case False
    then have "contents d' = contents d" using store_failed s by auto
    note same = cache_ok_same_contents [OF ok d this]
    have run: "clidb_shelf_real_insert lib e mode c = Some (False, c\<lparr>shelf_dbm_ptr := Some d'\<rparr>)"
      using d k s False by (simp add: clidb_shelf_real_insert_def)
    show thesis by (rule failed [OF run same(1,3,2)]) simp
  qed
qed

lemma shelf_delete_effect:
  assumes ok: "cache_ok contents c" and n: "1 \<le> n" "n \<le> MAX_SHELF_NUM"
  obtains (removed) res c' where "clidb_shelf_delete lib n c = Some (res, c')"
      "cache_ok contents c'" "others_kept contents c c'" "res \<longrightarrow> record_saved contents c'"
      "shelf_cache contents c' = (shelf_cache contents c)(n := None)"
      "shelf_record c' = (shelf_record c)[nat (n - 1) := 0]"
    | (failed) c' where "clidb_shelf_delete lib n c = Some (False, c')"
      "cache_ok contents c'" "others_kept contents c c'" "shelf_cache contents c' = shelf_cache contents c"
      "shelf_record c' = shelf_record c"
proof -
  obtain d where d: "shelf_dbm_ptr c = Some d" using cache_okD(4) [OF ok] by blast
  obtain k where k: "shelf_key (current_user c) n = Some k"
    using shelf_key_fits cache_okD(1) [OF ok] n by fastforce
  obtain st d' where s: "dbm_delete lib d k = (st, d')" by fastforce
  show thesis
  proof (cases st)
    case True
    then have d': "contents d' = (contents d)(k := (if 0 < (0 :: int) then Some (put_shelf e) else None))" for e
      using delete_done s by simp
    obtain res c' where r: "record_and_save lib n 0 (c\<lparr>shelf_dbm_ptr := Some d'\<rparr>) = Some (res, c')"
      using record_and_save_total [OF ok n] by blast
    have run: "clidb_shelf_delete lib n c = Some (res, c')"
      using d k s r True by (simp add: clidb_shelf_delete_def)
    from shelf_write_effect [OF ok n _ d k d' _ r] show thesis
      by (intro removed [OF run]) auto
  next
    case False
    then have "contents d' = contents d" using delete_failed s by auto
    note same = cache_ok_same_contents [OF ok d this]
    have run: "clidb_shelf_delete lib n c = Some (False, c\<lparr>shelf_dbm_ptr := Some d'\<rparr>)"
      using d k s False by (simp add: clidb_shelf_delete_def)
    show thesis by (rule failed [OF run same(1,3,2)]) simp
  qed
qed

lemma shelf_get_effect:
  assumes ok: "cache_ok contents c" and "recorded c n" and e: "wf_shelf e"
  shows "\<exists>e'. shelf_cache contents c n = Some e' \<and> wf_shelf e' \<and> s_code e' = n
    \<and> clidb_shelf_get lib n e c = Some (True, e')"
proof -
  obtain e' where e': "wf_shelf e'" "s_code e' = n" "stored_shelf contents c (current_user c) n = Some (put_shelf e')"
    using assms by (auto simp: cache_ok_def)
  then obtain d k where "shelf_dbm_ptr c = Some d" "shelf_key (current_user c) n = Some k"
      "contents d k = Some (put_shelf e')"
    by (auto simp: stored_shelf_def bind_eq_Some_conv split: option.splits)
  moreover have "length (put_shelf e) = 236" "length (put_shelf e') = 236"
    using e e' by (simp_all add: wf_shelf_def length_put_shelf limits)
  ultimately have "clidb_shelf_get lib n e c = Some (True, e')"
    using e' by (simp add: clidb_shelf_get_def fetch memcpy_over_def get_put_shelf_all)
  then show ?thesis using e' assms(2) by (simp add: shelf_cache_def get_put_shelf_all)
qed

lemma obtain_effect:
  assumes "stored_record contents c (current_user c) = Some (put_record rs)" and "length rs = 15"
    and "list_all c_int rs" and "length (shelf_record c) = 15"
  shows "shelf_record_obtain lib c = Some (True, c\<lparr>shelf_record := rs\<rparr>)"
proof -
  obtain d k where "shelf_dbm_ptr c = Some d" "record_key (current_user c) = Some k"
      "contents d k = Some (put_record rs)"
    using assms(1) by (auto simp: stored_record_def bind_eq_Some_conv split: option.splits)
  moreover have "length (put_record xs) = 60" if "length xs = 15" for xs
    using that by (simp add: put_record_def length_concat_put_int)
  ultimately show ?thesis
    using assms by (simp add: shelf_record_obtain_def fetch memcpy_over_def get_put_record)
qed

lemma init_restores:
  assumes ok: "cache_ok contents c" and saved: "record_saved contents c" and d: "shelf_dbm_ptr c = Some d"
    and len: "length (shelf_record c0) = 15"
  shows "\<exists>c'. clidb_init lib True (Some d) (Some b) (current_user c) c0 = Some (True, c')
    \<and> cache_ok contents c' \<and> record_saved contents c' \<and> shelf_record c' = shelf_record c
    \<and> shelf_cache contents c' = shelf_cache contents c \<and> book_dbm_ptr c' = Some b"
proof -
  let ?c2 = "c0\<lparr>current_user := current_user c, shelf_dbm_ptr := Some d, book_dbm_ptr := Some b\<rparr>"
  let ?c' = "?c2\<lparr>shelf_record := shelf_record c\<rparr>"
  have st: "stored_shelf contents ?c' = stored_shelf contents c" "stored_record contents ?c2 = stored_record contents c"
    "stored_record contents ?c' = stored_record contents c" "recorded ?c' = recorded c"
    using d by (auto simp: stored_shelf_def stored_record_def recorded_def fun_eq_iff)
  have "list_all c_int (shelf_record c)"
    using ok by (auto simp: cache_ok_def list_all_iff c_int_def)
  then have "shelf_record_obtain lib ?c2 = Some (True, ?c')"
    using obtain_effect [of ?c2 "shelf_record c"] saved st cache_okD(3) [OF ok] len
    by (simp add: record_saved_def)
  then have "clidb_init lib True (Some d) (Some b) (current_user c) c0 = Some (True, ?c')"
    using cache_okD(1) [OF ok] by (simp add: clidb_init_def Let_def c_str_def)
  moreover have "cache_ok contents ?c'" "record_saved contents ?c'" "shelf_cache contents ?c' = shelf_cache contents c"
    using ok saved st by (auto simp: cache_ok_def record_saved_def shelf_cache_def fun_eq_iff)
  ultimately show ?thesis by simp
qed

end

section \<open>Positions and numbers of shelves\<close>

lemma next_shelf_rec:
  assumes "0 \<le> r"
  shows "next_shelf c r = (if MAX_SHELF_NUM \<le> r then None
    else if recorded c (r + 1) then Some (r + 1) else next_shelf c (r + 1))"
proof (cases "MAX_SHELF_NUM \<le> r")
  case False
  then have "[r + 1..MAX_SHELF_NUM] = (r + 1) # [r + 1 + 1..MAX_SHELF_NUM]"
    by (intro upto_rec1) simp
  with False assms show ?thesis
    by (simp add: next_shelf_def recorded_def clidb_shelf_exists_def)
qed (simp add: next_shelf_def)

lemma filter_upto_rec:
  "(r::int) < k \<Longrightarrow> filter P [r + 1..k] = (if P (r + 1) then [r + 1] else []) @ filter P [r + 1 + 1..k]"
  by (simp add: upto_rec1)

lemma next_shelf_filter:
  "0 \<le> r \<Longrightarrow> (case next_shelf c r of
      None \<Rightarrow> filter (recorded c) [r + 1..MAX_SHELF_NUM] = []
    | Some x \<Rightarrow> r < x \<and> filter (recorded c) [r + 1..MAX_SHELF_NUM] = x # filter (recorded c) [x + 1..MAX_SHELF_NUM])"
proof (induction "nat (MAX_SHELF_NUM - r)" arbitrary: r)
  case 0
  then show ?case by (simp add: next_shelf_rec)
next
  case (Suc n)
  then have "r < MAX_SHELF_NUM" "n = nat (MAX_SHELF_NUM - (r + 1))" by linarith+
  with Suc.hyps(1) [of "r + 1"] Suc.prems show ?case
    by (auto simp: next_shelf_rec [of r] filter_upto_rec [of r] split: option.splits)
qed

lemma realno_loop_filter:
  "0 \<le> r \<Longrightarrow> realno_loop c n r = (let rs = filter (recorded c) [r + 1..MAX_SHELF_NUM] in
      if n = 0 then Some r else if n \<le> length rs then Some (rs ! (n - 1)) else None)"
proof (induction n arbitrary: r)
  case (Suc n)
  note nf = next_shelf_filter [OF Suc.prems, of c]
  show ?case
  proof (cases "next_shelf c r")
    case None
    with nf show ?thesis by simp
  next
    case (Some x)
    with nf have x: "r < x" "filter (recorded c) [r + 1..MAX_SHELF_NUM] = x # filter (recorded c) [x + 1..MAX_SHELF_NUM]"
      by simp_all
    then show ?thesis using Suc.IH [of x] Suc.prems Some by (cases n) (simp_all add: Let_def)
  qed
qed simp

section \<open>The books in the cache\<close>

definition stored_book :: "('d \<Rightarrow> bytes \<Rightarrow> bytes option) \<Rightarrow> 'd clidb \<Rightarrow> int \<Rightarrow> bytes option" where
  "stored_book contents c i =
     (case book_dbm_ptr c of None \<Rightarrow> None | Some d \<Rightarrow> Option.bind (book_key i) (contents d))"

text \<open>The cache holds the books \<open>bs\<close>, found at the positions from 0.\<close>

definition book_cache :: "('d \<Rightarrow> bytes \<Rightarrow> bytes option) \<Rightarrow> 'd clidb \<Rightarrow> book_entry list \<Rightarrow> bool" where
  "book_cache contents c bs \<longleftrightarrow> book_dbm_ptr c \<noteq> None \<and> book_dbm_pos c = int (length bs)
     \<and> int (length bs) < 2147483647 \<and> (\<forall>b \<in> set bs. wf_book b)
     \<and> (\<forall>i < length bs. stored_book contents c (int i) = Some (put_book (bs ! i)))"

lemma get_put_book_all: "wf_book b \<Longrightarrow> get_book (put_book b) = b"
  using get_put_book [of b "[]"] by simp

lemma wf_book_untimed: "wf_book b \<Longrightarrow> wf_book (b\<lparr>encoding_time := ''''\<rparr>)"
  by (simp add: wf_book_def c_str_def)

lemma book_cacheD:
  assumes "book_cache contents c bs"
  shows "\<exists>d. book_dbm_ptr c = Some d" and "book_dbm_pos c = int (length bs)"
    and "i < length bs \<Longrightarrow> stored_book contents c (int i) = Some (put_book (bs ! i))"
    and "i < length bs \<Longrightarrow> wf_book (bs ! i)"
  using assms by (auto simp: book_cache_def)

lemma book_cache_reset:
  "book_dbm_ptr c \<noteq> None \<Longrightarrow> book_cache contents (clidb_book_reset c) []"
  by (simp add: book_cache_def clidb_book_reset_def)

lemma book_cache_search [simp]:
  "book_cache contents (c\<lparr>book_search_pos := p\<rparr>) bs = book_cache contents c bs"
  "book_cache contents (c\<lparr>book_search_cnt := p\<rparr>) bs = book_cache contents c bs"
  "book_cache contents (c\<lparr>book_search_step := p\<rparr>) bs = book_cache contents c bs"
  by (simp_all add: book_cache_def stored_book_def)

lemma backward_mode_page:
  assumes "0 < book_search_step c" and "0 \<le> book_search_pos c"
  shows "clidb_book_backward_mode c = Some (c\<lparr>book_search_pos :=
    (if book_search_pos c = 0 then 0 else (book_search_pos c - 1) div book_search_step c * book_search_step c)\<rparr>)"
proof -
  let ?p = "book_search_pos c" and ?s = "book_search_step c"
  have sd: "?p sdiv ?s = ?p div ?s" "?p smod ?s = ?p mod ?s"
    using assms by (cases "?p = 0"; simp add: signed_divide_int_def signed_modulo_int_def)+
  have "(?p - 1) div ?s = (if ?p mod ?s = 0 then ?p div ?s - 1 else ?p div ?s)"
  proof (cases "?p mod ?s = 0")
    case True
    then obtain q where "?p = ?s * q" by auto
    moreover have "(?s * q - 1) div ?s = q - 1"
      using assms(1) div_mult_self2 [of ?s "?s - 1" "q - 1"] by (simp add: algebra_simps)
    ultimately show ?thesis using True assms by simp
  next
    case False
    then have "0 < ?p mod ?s" using assms(1) by (simp add: order_less_le)
    moreover have "?p - 1 = ?s * (?p div ?s) + (?p mod ?s - 1)"
      by (simp add: algebra_simps)
    moreover have "?p mod ?s - 1 < ?s" using assms(1) pos_mod_bound [of ?s ?p] by linarith
    ultimately have "(?p - 1) div ?s = ?p div ?s"
      by (intro int_div_pos_eq [where r = "?p mod ?s - 1"]) simp_all
    with False show ?thesis by simp
  qed
  then show ?thesis using assms sd by (simp add: clidb_book_backward_mode_def Let_def)
qed

context dbm
begin

lemma book_peek_effect:
  assumes bc: "book_cache contents c bs" and i: "i < length bs"
  shows "clidb_book_peek lib b (int i) c = Some (True, bs ! i)"
proof -
  obtain d k where "book_dbm_ptr c = Some d" "book_key (int i) = Some k" "contents d k = Some (put_book (bs ! i))"
    using book_cacheD(3) [OF bc i] by (auto simp: stored_book_def bind_eq_Some_conv split: option.splits)
  then show ?thesis
    using book_cacheD(4) [OF bc i] by (simp add: clidb_book_peek_def fetch memcpy_over_def get_put_book_all)
qed

lemma book_store_effect:
  assumes bc: "book_cache contents c bs" and wf: "wf_book b" and i: "i \<le> length bs"
    and d: "book_dbm_ptr c = Some d" and k: "book_key (int i) = Some k"
    and st: "dbm_store lib d k (put_book b) = (True, d')"
  shows "j < length bs \<Longrightarrow> stored_book contents (c\<lparr>book_dbm_ptr := Some d'\<rparr>) (int j)
      = Some (put_book (if j = i then b else bs ! j))"
    and "stored_book contents (c\<lparr>book_dbm_ptr := Some d'\<rparr>) (int i) = Some (put_book b)"
proof -
  have con: "contents d' = (contents d)(k \<mapsto> put_book b)" by (rule store_done [OF st])
  then show "stored_book contents (c\<lparr>book_dbm_ptr := Some d'\<rparr>) (int i) = Some (put_book b)"
    using k by (simp add: stored_book_def)
  assume j: "j < length bs"
  obtain k' where "book_key (int j) = Some k'" "contents d k' = Some (put_book (bs ! j))"
    using book_cacheD(3) [OF bc j] d by (auto simp: stored_book_def bind_eq_Some_conv)
  then show "stored_book contents (c\<lparr>book_dbm_ptr := Some d'\<rparr>) (int j) = Some (put_book (if j = i then b else bs ! j))"
    using con k book_key_inject [of "int i" k "int j"] by (auto simp: stored_book_def)
qed

lemma book_append_effect:
  assumes bc: "book_cache contents c bs" and wf: "wf_book b" and room: "int (length bs) + 1 < 2147483647"
    and run: "clidb_book_insert lib b (-1) c = Some (True, c')"
  shows "book_cache contents c' (bs @ [b])" and "book_search_pos c' = book_search_pos c"
proof -
  obtain d where d: "book_dbm_ptr c = Some d" using book_cacheD(1) [OF bc] by blast
  obtain k where k: "book_key (int (length bs)) = Some k" using book_key_fits [of "int (length bs)"] room by auto
  obtain d' where st: "dbm_store lib d k (put_book b) = (True, d')"
    and c': "c' = c\<lparr>book_dbm_pos := int (length bs) + 1, book_dbm_ptr := Some d'\<rparr>"
    using run d k book_cacheD(2) [OF bc] by (auto simp: clidb_book_insert_def Let_def split: prod.splits)
  note s = book_store_effect [OF bc wf _ d k st]
  have same: "stored_book contents c' = stored_book contents (c\<lparr>book_dbm_ptr := Some d'\<rparr>)"
    by (auto simp: c' stored_book_def fun_eq_iff)
  have "stored_book contents c' (int j) = Some (put_book ((bs @ [b]) ! j))" if "j < length (bs @ [b])" for j
    using that s same by (cases "j = length bs") (auto simp: nth_append)
  then show "book_cache contents c' (bs @ [b])"
    using bc wf room c' by (auto simp: book_cache_def)
  show "book_search_pos c' = book_search_pos c" by (simp add: c')
qed

lemma book_replace_effect:
  assumes bc: "book_cache contents c bs" and wf: "wf_book b" and i: "i < length bs"
    and run: "clidb_book_insert lib b (int i) c = Some (True, c')"
  shows "book_cache contents c' (bs[i := b])"
proof -
  obtain d where d: "book_dbm_ptr c = Some d" using book_cacheD(1) [OF bc] by blast
  obtain k where k: "book_key (int i) = Some k"
    using book_cacheD(3) [OF bc i] by (auto simp: stored_book_def bind_eq_Some_conv split: option.splits)
  obtain d' where st: "dbm_store lib d k (put_book b) = (True, d')" and c': "c' = c\<lparr>book_dbm_ptr := Some d'\<rparr>"
    using run d k by (auto simp: clidb_book_insert_def Let_def split: prod.splits)
  note s = book_store_effect [OF bc wf _ d k st]
  show ?thesis
    using bc wf i c' s(1) set_update_subset_insert [of bs i b]
    by (auto simp: book_cache_def nth_list_update)
qed

lemma book_delete_cached:
  assumes bc: "book_cache contents c bs" and i: "i < length bs"
    and run: "clidb_book_delete lib junk (int i) c = Some (True, c')"
  shows "book_cache contents c' (bs[i := (bs ! i)\<lparr>encoding_time := ''''\<rparr>])"
  using run book_peek_effect [OF bc i]
    book_replace_effect [OF bc wf_book_untimed [OF book_cacheD(4) [OF bc i]] i]
  by (simp add: clidb_book_delete_def)

lemma book_get_effect:
  assumes bc: "book_cache contents c bs" and pos: "book_search_pos c = int i"
  shows "clidb_book_get lib b c =
    (if length bs \<le> i then Some (-1, b, c)
     else if book_search_step c \<le> book_search_cnt c then Some (-1, b, c\<lparr>book_search_cnt := book_search_cnt c + 1\<rparr>)
     else Some (1, bs ! i, c\<lparr>book_search_cnt := book_search_cnt c + 1, book_search_pos := int (Suc i)\<rparr>))"
  using book_cacheD(1,2) [OF bc] book_peek_effect [OF bc, of i b] pos
  by (auto simp: clidb_book_get_def Let_def)

end

section \<open>A library that keeps the promises\<close>

definition map_dbm :: "(bytes \<Rightarrow> bytes option) dbm_lib" where
  "map_dbm = \<lparr>dbm_store = (\<lambda>d k v. (True, d(k \<mapsto> v))), dbm_fetch = (\<lambda>d k. d k),
     dbm_delete = (\<lambda>d k. (d k \<noteq> None, d(k := None)))\<rparr>"

interpretation md: dbm map_dbm "\<lambda>d. d"
  by unfold_locales (auto simp: map_dbm_def)

context dbm
begin

lemma insert_stores:
  assumes "cache_ok contents c" and "wf_shelf e" "1 \<le> s_code e" "s_code e \<le> MAX_SHELF_NUM"
    and "clidb_shelf_insert lib e c = Some (True, c')"
  shows "cache_ok contents c'" and "others_kept contents c c'" and "record_saved contents c'"
    and "shelf_cache contents c' = (shelf_cache contents c)(s_code e \<mapsto> e)"
  using real_insert_effect [OF assms(1-4), of SHELF_INSERT_MODE 1] assms(5)
  by (auto simp: clidb_shelf_insert_def)

end

section \<open>Properties\<close>

definition sample_cache :: "(bytes \<Rightarrow> bytes option) clidb" where
  "sample_cache = \<lparr>current_user = ''u'', shelf_dbm_ptr = Some (\<lambda>_. None), book_dbm_ptr = Some (\<lambda>_. None),
     shelf_record = replicate 15 0, book_dbm_pos = 0, book_search_pos = 0, book_search_step = 10,
     book_search_cnt = 0\<rparr>"

definition sample_cached_shelf :: shelf_entry where
  "sample_cached_shelf = \<lparr>s_code = 3, s_name = ''Study'', nfloors = 2, ndepth = replicate 15 1, building_time = ''20-02-02 10h''\<rparr>"

lemma sample_cache_ok: "cache_ok (\<lambda>d. d) sample_cache"
  by (auto simp: cache_ok_def sample_cache_def recorded_def c_str_def limits nth_Cons' numeral_nat)

lemma sample_cached_wf: "wf_shelf sample_cached_shelf"
  by (simp add: wf_shelf_def sample_cached_shelf_def c_str_def c_int_def limits)


lemma sample_insert: "\<exists>c'. clidb_shelf_insert map_dbm sample_cached_shelf sample_cache = Some (True, c')"
  by (simp add: clidb_shelf_insert_def clidb_shelf_real_insert_def record_and_save_def shelf_record_put_def
      shelf_record_save_def shelf_key_def record_key_def key_buf_def sample_cache_def sample_cached_shelf_def
      map_dbm_def limits SHELF_INSERT_MODE_def SHELF_SYNC_MODE_def Let_def dec_def dec_nat.simps)


text \<open>A later login of the same user, in a new process, finds the record and every shelf of the cache
  file as the last saved session left them.\<close>

theorem cache_survives_login:
  assumes "dbm lib contents" and "cache_ok contents c" and "record_saved contents c" and "shelf_dbm_ptr c = Some d"
    and "length (shelf_record c0) = 15"
  shows "\<exists>c'. clidb_init lib True (Some d) (Some b) (current_user c) c0 = Some (True, c')
    \<and> cache_ok contents c' \<and> record_saved contents c' \<and> shelf_record c' = shelf_record c
    \<and> shelf_cache contents c' = shelf_cache contents c"
  using dbm.init_restores [OF assms] by blast

theorem cache_survives_login_witness:
  "\<exists>c1 d c2. clidb_shelf_insert map_dbm sample_cached_shelf sample_cache = Some (True, c1) \<and> shelf_dbm_ptr c1 = Some d
     \<and> clidb_init map_dbm True (Some d) (Some (\<lambda>_. None)) ''u'' sample_cache = Some (True, c2)
     \<and> shelf_cache (\<lambda>d. d) c2 3 = Some sample_cached_shelf"
proof -
  obtain c1 where c1: "clidb_shelf_insert map_dbm sample_cached_shelf sample_cache = Some (True, c1)"
    using sample_insert by blast
  have code: "1 \<le> s_code sample_cached_shelf" "s_code sample_cached_shelf \<le> MAX_SHELF_NUM" "s_code sample_cached_shelf = 3"
    by (simp_all add: sample_cached_shelf_def limits)
  note * = md.insert_stores [OF sample_cache_ok sample_cached_wf code(1,2) c1]
  from *(1) obtain d where d: "shelf_dbm_ptr c1 = Some d" by (auto simp: cache_ok_def)
  have u: "current_user c1 = ''u''" using *(2) by (simp add: others_kept_def sample_cache_def)
  have "length (shelf_record sample_cache) = 15" by (simp add: sample_cache_def)
  from cache_survives_login [OF md.dbm_axioms *(1,3) d this, of "\<lambda>_. None"] u obtain c2
    where "clidb_init map_dbm True (Some d) (Some (\<lambda>_. None)) ''u'' sample_cache = Some (True, c2)"
      "shelf_cache (\<lambda>d. d) c2 = shelf_cache (\<lambda>d. d) c1" by auto
  moreover have "shelf_cache (\<lambda>d. d) c1 3 = Some sample_cached_shelf" using *(4) code(3) by simp
  ultimately show ?thesis using c1 d by (intro exI [of _ c1] exI [of _ d] exI [of _ c2]) simp
qed

text \<open>C18: the position of a shelf in the list of the user interface is turned into its number: position
  \<open>pos\<close> gives the \<open>pos\<close>-th recorded number in increasing order, and for a position beyond the number of
  recorded shelves (or a negative one) the loop never ends.\<close>

theorem shelf_realno_correct:
  "clidb_shelf_realno c pos =
     (let rs = filter (recorded c) [1..MAX_SHELF_NUM] in
      if pos = 0 then Some 0 else if 1 \<le> pos \<and> pos \<le> int (length rs) then Some (rs ! nat (pos - 1)) else None)"
proof (cases "pos < 0")
  case False
  then have "nat pos - 1 = nat (pos - 1)" by simp
  with False show ?thesis
    by (auto simp: clidb_shelf_realno_def realno_loop_filter Let_def)
qed (simp add: clidb_shelf_realno_def Let_def)

end
