(* ===== verification/Clishell.thy ===== *)
theory Clishell
  imports Socketcli Clidb
begin

unbundle bit_operations_syntax

text \<open>
  \<^verbatim>\<open>bsdqclient/clishell.c\<close>: the requests the user interface makes.  \<open>cli\<close> is the client's state: the
  socket, the cache, \<^verbatim>\<open>login_user\<close> and the static \<^verbatim>\<open>new_mark\<close> of \<^verbatim>\<open>client_searching_book\<close>.  \<open>cenv\<close> collects the
  libraries and the network.  Every function returns the C result, the objects it writes through its
  pointers, and the new state; \<^const>\<open>None\<close> stands for undefined behaviour or a call that does not return
  (the loops that read answers have no bound of their own and are partial functions).  Messages that
  the code leaves uninitialised are arguments (\<open>m0\<close>, \<open>g0\<close>).
\<close>

record ('w, 'd) cli =
  c_sock :: "'w cli_sock"
  c_db :: "'d clidb"
  login_user :: string
  new_mark :: int

record ('w, 'd, 'k) cenv =
  ce_lib :: "'k aes_lib"
  ce_net :: "'w net"
  ce_dbm :: "'d dbm_lib"

section \<open>Zeroed messages, times and texts\<close>

definition zero_book :: book_entry where
  "zero_book = \<lparr>code0 = 0, code1 = 0, code2 = 0, b_name = '''', b_author = '''', b_label = '''',
     borrowed = NUL, on_reading = NUL, encoding_time = ''''\<rparr>"

definition zero_shelf :: shelf_entry where
  "zero_shelf = \<lparr>s_code = 0, s_name = '''', nfloors = 0, ndepth = replicate MAX_FLOORS 0, building_time = ''''\<rparr>"

definition zero_message :: message_cs where
  "zero_message = \<lparr>m_user = '''', m_request = req_insert_book_e, m_stuff = Book_un zero_book,
     m_response = r_success, m_error_text = '''', m_extra_info = replicate EXTRA_INFO_SIZ 0\<rparr>"

text \<open>The common start of the requests: \<^verbatim>\<open>memset\<close>, the user, the request.\<close>

definition new_request :: "client_request \<Rightarrow> trans_stuff \<Rightarrow> ('w, 'd) cli \<Rightarrow> message_cs" where
  "new_request r u c = zero_message\<lparr>m_user := login_user c, m_request := r, m_stuff := u\<rparr>"

record tm =
  tm_year :: int
  tm_mon :: int
  tm_mday :: int
  tm_hour :: int

definition time_text :: "tm \<Rightarrow> string" where
  "time_text t = dec02 (tm_year t - 100) @ ''-'' @ dec02 (tm_mon t + 1) @ ''-'' @ dec02 (tm_mday t)
     @ '' '' @ dec02 (tm_hour t) @ ''h''"

text \<open>\<^verbatim>\<open>s[0]\<close> of a C string, and a \<^verbatim>\<open>char\<close> (signed) as an \<^verbatim>\<open>int\<close>.\<close>

definition char_at0 :: "string \<Rightarrow> char" where
  "char_at0 s = (case s of [] \<Rightarrow> NUL | c # _ \<Rightarrow> c)"

definition char_int :: "char \<Rightarrow> int" where
  "char_int c = (if int (of_char c) < 128 then int (of_char c) else int (of_char c) - 256)"

text \<open>\<^verbatim>\<open>s[i] = ch\<close> in an array of \<open>n\<close> bytes that is zero after the end of the string.\<close>

definition set_char :: "nat \<Rightarrow> nat \<Rightarrow> char \<Rightarrow> string \<Rightarrow> string" where
  "set_char n i ch s = get_str ((put_str n s)[i := ch])"

definition err_no_server :: string where
  "err_no_server = utf8 [230, 151, 160, 230, 179, 149, 232, 191, 158, 230, 142, 165, 230, 156, 141, 229,
     138, 161, 229, 153, 168, 46, 46, 46]"

definition err_dbm_init :: string where
  "err_dbm_init = utf8 [100, 98, 109, 229, 136, 157, 229, 167, 139, 229, 140, 150, 229, 164, 177, 232,
     180, 165, 46, 46, 46]"

definition err_incomplete :: string where
  "err_incomplete = utf8 [228, 185, 166, 231, 177, 141, 228, 191, 161, 230, 129, 175, 228, 184, 141, 229,
     174, 140, 230, 149, 180]"

definition err_register :: string where
  "err_register = utf8 [230, 179, 168, 229, 134, 140, 232, 180, 166, 230, 136, 183, 229, 164, 177, 232, 180, 165]"

definition err_verify :: string where
  "err_verify = utf8 [232, 180, 166, 230, 136, 183, 233, 170, 140, 232, 175, 129, 229, 164, 177, 232, 180, 165]"

definition found_text :: "int \<Rightarrow> int \<Rightarrow> string" where
  "found_text mark n = dec mark @ utf8 [32, 230, 163, 128, 231, 180, 162, 229, 136, 176, 58, 32]
     @ dec n @ utf8 [32, 229, 134, 140]"

section \<open>Sending a request and reading its answers\<close>

definition send_request :: "('w, 'd, 'k) cenv \<Rightarrow> message_cs \<Rightarrow> ('w, 'd) cli \<Rightarrow> (bool \<times> ('w, 'd) cli) option" where
  "send_request E m c = map_option (\<lambda>(ok, k). (ok, c\<lparr>c_sock := k\<rparr>))
     (socket_client_send_request (ce_lib E) (ce_net E) m (c_sock c))"

definition get_response :: "('w, 'd, 'k) cenv \<Rightarrow> message_cs \<Rightarrow> ('w, 'd) cli
    \<Rightarrow> (bool \<times> message_cs \<times> ('w, 'd) cli) option" where
  "get_response E m c = map_option (\<lambda>(ok, m', k). (ok, m', c\<lparr>c_sock := k\<rparr>))
     (socket_client_get_response (ce_lib E) (ce_net E) m (c_sock c))"

definition on_db :: "('d clidb \<Rightarrow> (bool \<times> 'd clidb) option) \<Rightarrow> ('w, 'd) cli \<Rightarrow> (bool \<times> ('w, 'd) cli) option" where
  "on_db f c = map_option (\<lambda>(ok, d). (ok, c\<lparr>c_db := d\<rparr>)) (f (c_db c))"

partial_function (option) find_loop :: "('w, 'd, 'k) cenv \<Rightarrow> bool \<Rightarrow> nat \<Rightarrow> message_cs \<Rightarrow> ('w, 'd) cli
    \<Rightarrow> (int \<times> message_cs \<times> ('w, 'd) cli) option" where
  "find_loop E not_cached nfinds m c =
     Option.bind (get_response E m c) (\<lambda>(ok, m1, c1).
       if \<not> ok then Some (0, m1, c1)
       else if m_response m1 = r_failed then Some (0, m1, c1)
       else if m_response m1 = r_find_end then Some (if nfinds = 0 then -1 else 1, m1, c1)
       else if m_response m1 = r_find_end_more then Some (1, m1, c1)
       else if m_request m1 = req_find_book_e then
         (if not_cached then find_loop E not_cached (Suc nfinds) m1 c1
          else Option.bind (on_db (clidb_book_insert (ce_dbm E) (book_of m1) (-1)) c1) (\<lambda>(_, c2).
            find_loop E not_cached (Suc nfinds) m1 c2))
       else Some (1, m1, c1))"

definition find_from_server :: "('w, 'd, 'k) cenv \<Rightarrow> message_cs \<Rightarrow> ('w, 'd) cli
    \<Rightarrow> (int \<times> message_cs \<times> ('w, 'd) cli) option" where
  "find_from_server E m c =
     Option.bind (send_request E m c) (\<lambda>(ok, c1).
       if \<not> ok then Some (0, m, c1)
       else find_loop E (m_request m = req_find_book_e \<and> code2 (book_of m) = BREAK_LIMIT_INT) 0 m c1)"

section \<open>Requests on books\<close>

definition client_shelf_insert_book :: "('w, 'd, 'k) cenv \<Rightarrow> tm \<Rightarrow> book_entry \<Rightarrow> string \<Rightarrow> ('w, 'd) cli
    \<Rightarrow> (int \<times> book_entry \<times> string \<times> ('w, 'd) cli) option" where
  "client_shelf_insert_book E t b err c =
     (if char_int (char_at0 (b_name b)) AND char_int (char_at0 (b_author b)) AND code1 b = 0
      then Some (0, b, err_incomplete, c)
      else (let b1 = b\<lparr>encoding_time := time_text t\<rparr> in
        map_option (\<lambda>(res, m, c1). (res, b1, if res = 0 then m_error_text m else err, c1))
          (find_from_server E (new_request req_insert_book_e (Book_un (b1\<lparr>code2 := NON_SENSE_INT\<rparr>)) c) c)))"

definition loading_entry :: "int \<Rightarrow> int \<Rightarrow> book_entry" where
  "loading_entry shelfno bookno = zero_book\<lparr>code0 := shelfno, code1 := NON_SENSE_INT, code2 := bookno,
     b_name := ''-'', b_author := ''-'', b_label := ''-'',
     borrowed := (if shelfno = NON_SENSE_INT then FLAG_FIND_UNSORTED else CHR ''0''),
     on_reading := (if shelfno = NON_SENSE_INT then FLAG_FIND_UNSORTED else CHR ''0'')\<rparr>"

definition client_shelf_loading_book :: "('w, 'd, 'k) cenv \<Rightarrow> int \<Rightarrow> int \<Rightarrow> ('w, 'd) cli
    \<Rightarrow> (int \<times> ('w, 'd) cli) option" where
  "client_shelf_loading_book E shelfno bookno c =
     map_option (\<lambda>(res, _, c1). (res, c1))
       (find_from_server E (new_request req_find_book_e (Book_un (loading_entry shelfno bookno)) c) c)"

text \<open>The uninitialised book of \<^verbatim>\<open>clidb_book_delete\<close> is \<open>junk\<close>; the result of the cache is ignored.\<close>

definition client_shelf_delete_book :: "('w, 'd, 'k) cenv \<Rightarrow> book_entry \<Rightarrow> book_entry \<Rightarrow> int \<Rightarrow> ('w, 'd) cli
    \<Rightarrow> (int \<times> book_entry \<times> ('w, 'd) cli) option" where
  "client_shelf_delete_book E junk b dbm_pos c =
     Option.bind (find_from_server E (new_request req_delete_book_e (Book_un (zero_book\<lparr>code0 := NON_SENSE_INT,
         code1 := NON_SENSE_INT, code2 := code2 b\<rparr>)) c) c) (\<lambda>(res, _, c1).
       if res = 1 then map_option (\<lambda>(_, c2). (res, b\<lparr>encoding_time := ''''\<rparr>, c2))
         (on_db (clidb_book_delete (ce_dbm E) junk dbm_pos) c1)
       else Some (res, b, c1))"

definition client_shelf_collecting_book :: "('w, 'd, 'k) cenv \<Rightarrow> int \<Rightarrow> book_entry \<Rightarrow> int \<Rightarrow> ('w, 'd) cli
    \<Rightarrow> (int \<times> book_entry \<times> ('w, 'd) cli) option" where
  "client_shelf_collecting_book E shelfno b dbm_pos c =
     Option.bind (find_from_server E (new_request req_update_book_e (Book_un (b\<lparr>code0 := shelfno\<rparr>)) c) c)
       (\<lambda>(res, _, c1).
       if res = 1 then
         (let b1 = b\<lparr>encoding_time := set_char 20 11 (CHR ''H'') (encoding_time b)\<rparr> in
          map_option (\<lambda>(_, c2). (res, b1, c2)) (on_db (clidb_book_insert (ce_dbm E) b1 dbm_pos) c1))
       else Some (res, b, c1))"

definition client_shelf_tagging_book :: "('w, 'd, 'k) cenv \<Rightarrow> book_entry \<Rightarrow> int \<Rightarrow> ('w, 'd) cli
    \<Rightarrow> (int \<times> ('w, 'd) cli) option" where
  "client_shelf_tagging_book E b dbm_pos c =
     Option.bind (find_from_server E (new_request req_update_book_e (Book_un b) c) c) (\<lambda>(res, _, c1).
       if res = 1 then map_option (\<lambda>(_, c2). (res, c2)) (on_db (clidb_book_insert (ce_dbm E) b dbm_pos) c1)
       else Some (res, c1))"

definition count_of_message :: "message_cs \<Rightarrow> book_count" where
  "count_of_message m = \<lparr>books_all = m_extra_info m ! 0, books_on_reading = m_extra_info m ! 1,
     books_borrowed = m_extra_info m ! 2, books_unsorted = m_extra_info m ! 3\<rparr>"

definition client_shelf_count_book :: "('w, 'd, 'k) cenv \<Rightarrow> int \<Rightarrow> book_count \<Rightarrow> ('w, 'd) cli
    \<Rightarrow> (int \<times> book_count \<times> ('w, 'd) cli) option" where
  "client_shelf_count_book E shelfno bc c =
     map_option (\<lambda>(res, m, c1). (res, if res = 1 then count_of_message m else bc, c1))
       (find_from_server E (new_request req_count_book_e
          (Book_un (zero_book\<lparr>code0 := shelfno, code1 := NON_SENSE_INT\<rparr>)) c) c)"

text \<open>The entry a move asks the server to store, and the number the function returns on success.\<close>

definition move_entry :: "int \<Rightarrow> book_entry \<Rightarrow> book_entry \<times> int" where
  "move_entry action b =
     (if action = 0 then (b\<lparr>on_reading := CHR ''1''\<rparr>, 1)
      else if action = 1 then
        (if on_reading b = CHR ''1'' then (b\<lparr>on_reading := CHR ''0''\<rparr>, 4)
         else if borrowed b = CHR ''1'' then (b\<lparr>borrowed := CHR ''0''\<rparr>, 4)
         else (b\<lparr>borrowed := CHR ''1''\<rparr>, 2))
      else (b, 0))"

definition client_shelf_moving_book :: "('w, 'd, 'k) cenv \<Rightarrow> book_entry \<Rightarrow> int \<Rightarrow> int \<Rightarrow> ('w, 'd) cli
    \<Rightarrow> (int \<times> ('w, 'd) cli) option" where
  "client_shelf_moving_book E b dbm_pos action c =
     (case move_entry action b of (b1, ret) \<Rightarrow>
        Option.bind (find_from_server E (new_request req_update_book_e (Book_un b1) c) c) (\<lambda>(res, m, c1).
          if res = 1 then map_option (\<lambda>(_, c2). (ret, c2))
            (on_db (clidb_book_insert (ce_dbm E) (book_of m) dbm_pos) c1)
          else Some (ret + 1, c1)))"

definition client_shelf_abandon_books :: "('w, 'd, 'k) cenv \<Rightarrow> int \<Rightarrow> ('w, 'd) cli \<Rightarrow> (int \<times> ('w, 'd) cli) option" where
  "client_shelf_abandon_books E shelfno c =
     map_option (\<lambda>(res, _, c1). (res, c1))
       (find_from_server E (new_request req_delete_book_e
          (Book_un (zero_book\<lparr>code0 := shelfno, code2 := NON_SENSE_INT\<rparr>)) c) c)"

definition client_shelf_unsorted_books :: "('w, 'd, 'k) cenv \<Rightarrow> int \<Rightarrow> ('w, 'd) cli \<Rightarrow> (int \<times> ('w, 'd) cli) option" where
  "client_shelf_unsorted_books E shelfno c =
     map_option (\<lambda>(res, _, c1). (res, c1))
       (find_from_server E (new_request req_update_book_e
          (Book_un (zero_book\<lparr>code0 := shelfno, code2 := NON_SENSE_INT\<rparr>)) c) c)"

text \<open>The number of hits is printed into the 20 bytes of \<^verbatim>\<open>encoding_time\<close>.\<close>

definition client_searching_book :: "('w, 'd, 'k) cenv \<Rightarrow> int \<Rightarrow> book_entry \<Rightarrow> ('w, 'd) cli
    \<Rightarrow> (int \<times> book_entry \<times> ('w, 'd) cli) option" where
  "client_searching_book E bookno e c =
     Option.bind (find_from_server E (new_request req_find_book_e
         (Book_un (e\<lparr>code1 := NON_SENSE_INT, code2 := bookno\<rparr>)) c) c) (\<lambda>(res, m, c1).
       if bookno = BREAK_LIMIT_INT then
         (let mark = new_mark c1 XOR 1; t = found_text mark (hd (m_extra_info m)) in
          if length t < 20 then Some (res, e\<lparr>encoding_time := t\<rparr>, c1\<lparr>new_mark := mark\<rparr>) else None)
       else Some (res, e, c1))"

section \<open>Requests on shelves and accounts\<close>

definition client_shelf_delete_itself :: "('w, 'd, 'k) cenv \<Rightarrow> int \<Rightarrow> ('w, 'd) cli \<Rightarrow> (int \<times> ('w, 'd) cli) option" where
  "client_shelf_delete_itself E shelfno c =
     Option.bind (find_from_server E (new_request req_remove_shelf_e (Shelf_un (zero_shelf\<lparr>s_code := shelfno\<rparr>)) c) c)
       (\<lambda>(res, _, c1).
       if res = 1 then map_option (\<lambda>(_, c2). (res, c2)) (on_db (clidb_shelf_delete (ce_dbm E) shelfno) c1)
       else Some (res, c1))"

definition client_build_shelf :: "('w, 'd, 'k) cenv \<Rightarrow> tm \<Rightarrow> shelf_entry \<Rightarrow> string \<Rightarrow> ('w, 'd) cli
    \<Rightarrow> (int \<times> string \<times> ('w, 'd) cli) option" where
  "client_build_shelf E t e err c =
     Option.bind (find_from_server E (new_request req_build_shelf_e (Shelf_un (e\<lparr>building_time := time_text t\<rparr>)) c) c)
       (\<lambda>(res, m, c1).
       if res = 1 then map_option (\<lambda>(_, c2). (res, err, c2)) (on_db (clidb_shelf_insert (ce_dbm E) (shelf_of m)) c1)
       else Some (res, m_error_text m, c1))"

definition account_error :: "string \<Rightarrow> int \<Rightarrow> message_cs \<Rightarrow> string \<Rightarrow> string" where
  "account_error default_text res m err =
     (if res = 0 then (if m_error_text m = '''' then default_text else m_error_text m) else err)"

definition client_register_account :: "('w, 'd, 'k) cenv \<Rightarrow> account_entry \<Rightarrow> string \<Rightarrow> ('w, 'd) cli
    \<Rightarrow> (int \<times> string \<times> ('w, 'd) cli) option" where
  "client_register_account E a err c =
     map_option (\<lambda>(res, m, c1). (res, account_error err_register res m err, c1))
       (find_from_server E ((new_request req_register_account_e (Account_un a) c)\<lparr>m_user := a_name a\<rparr>) c)"

definition client_verify_account :: "('w, 'd, 'k) cenv \<Rightarrow> account_entry \<Rightarrow> int \<Rightarrow> string \<Rightarrow> ('w, 'd) cli
    \<Rightarrow> (int \<times> string \<times> ('w, 'd) cli) option" where
  "client_verify_account E a init_mode err c =
     (let m = (new_request req_verify_account_e (Account_un a) c)\<lparr>m_user := a_name a\<rparr>;
          m1 = (if init_mode = 1 \<and> a_type a = account_user_e then m\<lparr>m_extra_info := 1 # tl (m_extra_info m)\<rparr> else m)
      in map_option (\<lambda>(res, m, c1). (res, account_error err_verify res m err, c1)) (find_from_server E m1 c))"

section \<open>Logging in and registering\<close>

text \<open>What the operating system answers while the client starts: the socket's calls, the cache directory,
  and the two cache files.\<close>

record 'd cli_start =
  st_open :: cli_open
  st_dir_ok :: bool
  st_shelf_file :: "'d option"
  st_book_file :: "'d option"

definition client_connect :: "'d cli_start \<Rightarrow> ('w, 'd) cli \<Rightarrow> bool \<times> ('w, 'd) cli" where
  "client_connect st c = (case socket_client_init (st_open st) (c_sock c) of (ok, k) \<Rightarrow> (ok, c\<lparr>c_sock := k\<rparr>))"

definition client_disconnect :: "('w, 'd) cli \<Rightarrow> ('w, 'd) cli" where
  "client_disconnect c = c\<lparr>c_sock := socket_client_close (c_sock c)\<rparr>"

definition client_start_login :: "('w, 'd, 'k) cenv \<Rightarrow> 'd cli_start \<Rightarrow> account_entry \<Rightarrow> string \<Rightarrow> ('w, 'd) cli
    \<Rightarrow> (bool \<times> string \<times> ('w, 'd) cli) option" where
  "client_start_login E st a err c =
     (case client_connect st c of (ok, c1) \<Rightarrow>
        if \<not> ok then Some (False, err_no_server, c1)
        else if a_type a = account_user_e then
          Option.bind (client_verify_account E a 1 err c1) (\<lambda>(res, err1, c2).
            if res = 0 then Some (False, err1, client_disconnect c2)
            else Option.bind (on_db (clidb_init (ce_dbm E) (st_dir_ok st) (st_shelf_file st) (st_book_file st)
                (a_name a)) c2) (\<lambda>(ok2, c3).
              if \<not> ok2 then Some (False, err_dbm_init, client_disconnect c3)
              else Some (True, err1, c3\<lparr>login_user := a_name a\<rparr>)))
        else if a_type a = account_admin_e then
          map_option (\<lambda>(res, err1, c2).
            if res = 0 then (False, err1, client_disconnect c2) else (True, err1, c2))
            (client_verify_account E a 0 err c1)
        else Some (True, err, c1))"

text \<open>After a refused registration the connection stays open.\<close>

definition client_start_register :: "('w, 'd, 'k) cenv \<Rightarrow> 'd cli_start \<Rightarrow> account_entry \<Rightarrow> string \<Rightarrow> ('w, 'd) cli
    \<Rightarrow> (bool \<times> string \<times> ('w, 'd) cli) option" where
  "client_start_register E st a err c =
     (case client_connect st c of (ok, c1) \<Rightarrow>
        if \<not> ok then Some (False, err_no_server, c1)
        else map_option (\<lambda>(res, err1, c2).
          if res = 0 then (False, err1, c2) else (True, err1, client_disconnect c2))
          (client_register_account E a err c1))"

section \<open>Synchronisation\<close>

text \<open>One request and its first answer.\<close>

definition ask :: "('w, 'd, 'k) cenv \<Rightarrow> message_cs \<Rightarrow> message_cs \<Rightarrow> ('w, 'd) cli
    \<Rightarrow> (bool \<times> message_cs \<times> ('w, 'd) cli) option" where
  "ask E req g c =
     Option.bind (send_request E req c) (\<lambda>(ok, c1).
       if \<not> ok then Some (False, g, c1) else get_response E g c1)"

definition client_books_count_sync :: "('w, 'd, 'k) cenv \<Rightarrow> message_cs \<Rightarrow> message_cs \<Rightarrow> book_count \<Rightarrow> ('w, 'd) cli
    \<Rightarrow> (bool \<times> book_count \<times> ('w, 'd) cli) option" where
  "client_books_count_sync E m0 g0 bc c =
     map_option (\<lambda>(ok, m, c1). if ok \<and> m_response m = r_success then (True, count_of_message m, c1) else (False, bc, c1))
       (ask E (m0\<lparr>m_user := login_user c, m_request := req_count_book_e,
          m_stuff := Book_un ((book_of m0)\<lparr>code0 := NON_SENSE_INT, code1 := NON_SENSE_INT\<rparr>)\<rparr>) g0 c)"

definition client_shelves_count_sync :: "('w, 'd, 'k) cenv \<Rightarrow> message_cs \<Rightarrow> message_cs \<Rightarrow> shelf_count \<Rightarrow> ('w, 'd) cli
    \<Rightarrow> (bool \<times> shelf_count \<times> ('w, 'd) cli) option" where
  "client_shelves_count_sync E m0 g0 sc c =
     map_option (\<lambda>(ok, m, c1). (ok,
         if ok \<and> m_response m = r_success then \<lparr>shelves_all = hd (m_extra_info m)\<rparr> else sc, c1))
       (ask E (m0\<lparr>m_user := login_user c, m_request := req_count_shelf_e\<rparr>) g0 c)"

definition set_shelf_code :: "int \<Rightarrow> message_cs \<Rightarrow> message_cs" where
  "set_shelf_code n m = set_shelf ((shelf_of m)\<lparr>s_code := n\<rparr>) m"

text \<open>The first loop of \<^verbatim>\<open>client_shelves_info_sync\<close>: \<open>req\<close> is \<^verbatim>\<open>msgreq\<close>, \<open>g\<close> is \<^verbatim>\<open>msgget\<close>.\<close>

partial_function (option) sync_loop :: "('w, 'd, 'k) cenv \<Rightarrow> int \<Rightarrow> message_cs \<Rightarrow> message_cs \<Rightarrow> ('w, 'd) cli
    \<Rightarrow> (bool \<times> int \<times> message_cs \<times> message_cs \<times> ('w, 'd) cli) option" where
  "sync_loop E cnt req g c =
     Option.bind (get_response E g c) (\<lambda>(ok, g1, c1).
       if \<not> ok then Some (False, cnt, req, g1, c1)
       else if m_response g1 = r_success then
         Option.bind (on_db (clidb_shelf_synchronize (ce_dbm E) (shelf_of g1)) c1) (\<lambda>(done, c2).
           if \<not> done then Some (False, cnt, req, g1, c2) else sync_loop E (cnt + 1) req g1 c2)
       else if m_response g1 = r_find_end_more then
         (let req1 = set_shelf_code (s_code (shelf_of g1)) req in
          Option.bind (send_request E req1 c1) (\<lambda>(sent, c2).
            if \<not> sent then Some (False, cnt, req1, g1, c2) else sync_loop E cnt req1 g1 c2))
       else if m_response g1 = r_find_end then Some (True, cnt, req, g1, c1)
       else sync_loop E cnt req g1 c1)"

text \<open>The second loop: the shelves of the cache that the server did not list are asked for one by one.\<close>

definition sync_one :: "('w, 'd, 'k) cenv \<Rightarrow> int \<Rightarrow> int \<Rightarrow> message_cs \<Rightarrow> message_cs \<Rightarrow> ('w, 'd) cli
    \<Rightarrow> (bool \<times> int \<times> message_cs \<times> message_cs \<times> ('w, 'd) cli) option" where
  "sync_one E i cnt req g c =
     Option.bind (clidb_shelf_not_syncs i (c_db c)) (\<lambda>not_synced.
       if \<not> not_synced then Some (True, cnt, req, g, c)
       else (let req1 = set_shelf_code (- i) req in
         Option.bind (ask E req1 g c) (\<lambda>(ok, g1, c1).
           if \<not> ok then Some (False, cnt, req1, g1, c1)
           else if m_response g1 = r_success then
             map_option (\<lambda>(done, c2). (done, if done then cnt + 1 else cnt, req1, g1, c2))
               (on_db (clidb_shelf_synchronize (ce_dbm E) (shelf_of g1)) c1)
           else if m_response g1 = r_find_end then
             map_option (\<lambda>(done, c2). (done, cnt, req1, g1, c2)) (on_db (clidb_shelf_delete (ce_dbm E) i) c1)
           else Some (True, cnt, req1, g1, c1))))"

fun sync_rest :: "('w, 'd, 'k) cenv \<Rightarrow> int list \<Rightarrow> int \<Rightarrow> message_cs \<Rightarrow> message_cs \<Rightarrow> ('w, 'd) cli
    \<Rightarrow> (bool \<times> int \<times> ('w, 'd) cli) option" where
  "sync_rest E [] cnt req g c = Some (True, cnt, c)"
| "sync_rest E (i # is) cnt req g c =
     Option.bind (sync_one E i cnt req g c) (\<lambda>(ok, cnt1, req1, g1, c1).
       if \<not> ok then Some (False, cnt1, c1) else sync_rest E is cnt1 req1 g1 c1)"

definition client_shelves_info_sync :: "('w, 'd, 'k) cenv \<Rightarrow> message_cs \<Rightarrow> message_cs \<Rightarrow> message_cs \<Rightarrow> message_cs
    \<Rightarrow> shelf_count \<Rightarrow> ('w, 'd) cli \<Rightarrow> (bool \<times> shelf_count \<times> ('w, 'd) cli) option" where
  "client_shelves_info_sync E cm0 cg0 m0 g0 sc c =
     Option.bind (client_shelves_count_sync E cm0 cg0 sc c) (\<lambda>(counted, sc1, c1).
       if \<not> counted then Some (False, sc1, c1)
       else (let req = set_shelf_code NON_SENSE_INT (m0\<lparr>m_user := login_user c, m_request := req_find_shelf_e\<rparr>) in
         Option.bind (send_request E req c1) (\<lambda>(sent, c2).
           if \<not> sent then Some (False, sc1, c2)
           else Option.bind (sync_loop E 0 req g0 c2) (\<lambda>(ok, cnt, req1, g1, c3).
             if \<not> ok then Some (False, sc1, c3)
             else Option.bind (sync_rest E [1..MAX_SHELF_NUM] cnt req1 g1 c3) (\<lambda>(ok1, cnt1, c4).
               if \<not> ok1 then Some (False, sc1, c4)
               else map_option (\<lambda>(sorted, c5). (sorted \<and> cnt1 = shelves_all sc1, sc1, c5))
                 (on_db (clidb_shelf_record_sort (ce_dbm E)) c4))))))"

section \<open>The heartbeat thread\<close>

text \<open>The thread is before the test of its outer loop, asleep for the i-th time, or gone.  One step runs to
  the next of these points; \<open>hb_sent\<close> and \<open>hb_slept\<close> count the packets and the seconds.\<close>

datatype hb_pc = HB_test | HB_sleep nat | HB_exited

record 'w hb =
  hb_at :: hb_pc
  thread_running :: bool
  hb_sock :: "'w cli_sock"
  hb_sent :: nat
  hb_slept :: nat

definition heartbeat :: heartbeat_cs where
  "heartbeat = \<lparr>hb_request = req_heartbeat_e, hb_response = r_success, hb_extra_info = [0, 0]\<rparr>"

definition hb_step :: "'k aes_lib \<Rightarrow> 'w net \<Rightarrow> 'w hb \<Rightarrow> 'w hb option" where
  "hb_step lib net h =
     (case hb_at h of
        HB_test \<Rightarrow>
          if \<not> thread_running h then Some (h\<lparr>hb_at := HB_exited\<rparr>)
          else map_option (\<lambda>(_, k). h\<lparr>hb_at := HB_sleep 1, hb_sock := k, hb_sent := hb_sent h + 1\<rparr>)
                 (socket_client_send_heartbeat lib net heartbeat (hb_sock h))
      | HB_sleep i \<Rightarrow>
          (let h1 = h\<lparr>hb_slept := hb_slept h + 1\<rparr> in
           if \<not> thread_running h then Some (h1\<lparr>hb_at := HB_test\<rparr>)
           else if i + 1 \<le> 10 then Some (h1\<lparr>hb_at := HB_sleep (i + 1)\<rparr>)
           else Some (h1\<lparr>hb_at := HB_test\<rparr>))
      | HB_exited \<Rightarrow> Some h)"

text \<open>\<^verbatim>\<open>client_stop_heartbeat_thread\<close> clears the flag; \<^verbatim>\<open>pthread_join\<close> then waits for \<open>HB_exited\<close>.\<close>

definition client_stop_heartbeat_thread :: "'w hb \<Rightarrow> 'w hb" where
  "client_stop_heartbeat_thread h = h\<lparr>thread_running := False\<rparr>"

definition client_start_heartbeat_thread :: "bool \<Rightarrow> 'w cli_sock \<Rightarrow> 'w hb option" where
  "client_start_heartbeat_thread created k =
     (if created then Some \<lparr>hb_at = HB_test, thread_running = True, hb_sock = k, hb_sent = 0, hb_slept = 0\<rparr> else None)"

inductive hb_run :: "'k aes_lib \<Rightarrow> 'w net \<Rightarrow> 'w hb \<Rightarrow> 'w hb \<Rightarrow> bool" for lib net where
  hb_refl: "hb_run lib net h h"
| hb_thread: "hb_run lib net h h1 \<Longrightarrow> hb_step lib net h1 = Some h2 \<Longrightarrow> hb_run lib net h h2"
| hb_stop: "hb_run lib net h h1 \<Longrightarrow> hb_run lib net h (client_stop_heartbeat_thread h1)"

section \<open>Properties\<close>

lemma dec_digits: "0 \<le> n \<Longrightarrow> length (dec n) < 3 \<longleftrightarrow> n < 100"
proof -
  assume n: "0 \<le> n"
  have one: "length (dec_nat k) \<le> 2" if "k < 100" for k using length_dec_nat [of k 2] that by simp
  have three: "3 \<le> length (dec_nat k)" if "100 \<le> k" for k
  proof -
    have "10 \<le> k div 10" using that by simp
    then have "dec_nat k = dec_nat (k div 10 div 10) @ [digit_char (k div 10 mod 10)] @ [digit_char (k mod 10)]"
      using that by (simp add: dec_nat.simps [of k] dec_nat.simps [of "k div 10"])
    moreover have "1 \<le> length (dec_nat (k div 10 div 10))"
      using dec_nat_nonempty by (simp add: Suc_leI del: dec_nat_nonempty)
    ultimately show ?thesis by simp
  qed
  show ?thesis
  proof (cases "n < 100")
    case True
    then show ?thesis using one [of "nat n"] n by (simp add: dec_def nat_less_iff less_Suc_eq_le numeral_3_eq_3)
  next
    case False
    then have "100 \<le> nat n" by simp
    then show ?thesis using three [of "nat n"] False n by (simp add: dec_def)
  qed
qed

lemma length_found_text: "mark = 0 \<or> mark = 1 \<Longrightarrow> length (found_text mark n) = 17 + length (dec n)"
  by (auto simp: found_text_def utf8_def dec_def dec_nat.simps)

text \<open>C24: asking for the number of hits of a search is undefined behaviour exactly when there are a hundred or
  more: the text with the number no longer fits the 20 bytes of \<^verbatim>\<open>encoding_time\<close> it is printed into.\<close>

theorem search_hits_overflow:
  assumes "find_from_server E (new_request req_find_book_e (Book_un (e\<lparr>code1 := NON_SENSE_INT, code2 := BREAK_LIMIT_INT\<rparr>)) c) c
      = Some (res, m, c1)"
    and "m_extra_info m = n # rest" and "0 \<le> n" and "new_mark c1 = 0 \<or> new_mark c1 = 1"
  shows "client_searching_book E BREAK_LIMIT_INT e c = None \<longleftrightarrow> 100 \<le> n"
proof -
  have "new_mark c1 XOR 1 = 0 \<or> new_mark c1 XOR 1 = 1" using assms(4) by auto
  then have "length (found_text (new_mark c1 XOR 1) n) < 20 \<longleftrightarrow> n < 100"
    using length_found_text dec_digits [OF assms(3)] by auto
  then show ?thesis using assms(1,2) by (auto simp: client_searching_book_def Let_def)
qed

text \<open>A server that answers every request with the same message.\<close>

definition echo_net :: "bytes \<Rightarrow> unit net" where
  "echo_net f = \<lparr>net_send = (\<lambda>w c. (True, w)), net_recv = (\<lambda>w n. (Some f, w))\<rparr>"

definition plain_lib :: "unit aes_lib" where
  "plain_lib = \<lparr>aes_set_encrypt_key = (\<lambda>k. Some ()), aes_set_decrypt_key = (\<lambda>k. Some ()),
     aes_cbc_encrypt = (\<lambda>k iv x. x), aes_cbc_decrypt = (\<lambda>k iv x. x)\<rparr>"

definition hits_message :: "int \<Rightarrow> message_cs" where
  "hits_message n = zero_message\<lparr>m_request := req_find_book_e, m_response := r_find_end, m_extra_info := [n, 0, 0, 0, 0, 0, 0]\<rparr>"

definition echo_cenv :: "message_cs \<Rightarrow> (unit, bytes \<Rightarrow> bytes option, unit) cenv" where
  "echo_cenv m = \<lparr>ce_lib = plain_lib, ce_net = echo_net (put_message m), ce_dbm = map_dbm\<rparr>"

definition echo_cli :: "(unit, bytes \<Rightarrow> bytes option) cli" where
  "echo_cli = \<lparr>c_sock = \<lparr>client_sockfd = 4, cli_aes = \<lparr>aes_key = replicate 16 NUL, aes_has_init = True\<rparr>, cli_world = ()\<rparr>,
     c_db = sample_cache, login_user = ''u'', new_mark = 0\<rparr>"

lemma wf_hits: "c_int n \<Longrightarrow> wf_message (hits_message n)"
  by (simp add: hits_message_def zero_message_def zero_book_def wf_message_def wf_book_def c_int_def int_request_def
      int_response_def limits c_str_def)

lemma echo_find:
  assumes "wf_message m" and "wf_message (hits_message n)" and "code2 (book_of m) = BREAK_LIMIT_INT"
  shows "find_from_server (echo_cenv (hits_message n)) m echo_cli = Some (-1, hits_message n, echo_cli)"
proof -
  have len: "length (put_message m) = 704" "length (put_message (hits_message n)) = 704"
    using length_put_message [OF assms(1)] length_put_message [OF assms(2)] by (simp_all add: sizeof_message_def)
  have snd: "send_request (echo_cenv (hits_message n)) m echo_cli = Some (True, echo_cli)"
    using len by (simp add: send_request_def socket_client_send_request_def client_send_def encrypt_def echo_cenv_def
        echo_cli_def echo_net_def plain_lib_def AES_BLOCK_SIZE_def)
  have "get_response (echo_cenv (hits_message n)) m echo_cli = Some (True, hits_message n, echo_cli)" for m
    using len get_put_message [OF assms(2)]
    by (simp add: get_response_def socket_client_get_response_def decrypt_def echo_cenv_def echo_cli_def echo_net_def
        plain_lib_def AES_BLOCK_SIZE_def encrypted_size_def sizeof_message_def Let_def)
  then show ?thesis
    using snd by (simp add: find_from_server_def find_loop.simps hits_message_def)
qed

theorem search_hits_overflow_witness:
  "client_searching_book (echo_cenv (hits_message 100)) BREAK_LIMIT_INT zero_book echo_cli = None
   \<and> client_searching_book (echo_cenv (hits_message 99)) BREAK_LIMIT_INT zero_book echo_cli \<noteq> None"
proof -
  let ?m = "new_request req_find_book_e (Book_un (zero_book\<lparr>code1 := NON_SENSE_INT, code2 := BREAK_LIMIT_INT\<rparr>)) echo_cli"
  have wf: "wf_message ?m"
    by (simp add: new_request_def zero_message_def zero_book_def echo_cli_def wf_message_def wf_book_def c_int_def
        int_request_def int_response_def limits list_all_length c_str_def)
  have hits: "wf_message (hits_message 100)" "wf_message (hits_message 99)" by (simp_all add: wf_hits c_int_def)
  have code: "code2 (book_of ?m) = BREAK_LIMIT_INT" by (simp add: new_request_def)
  have mark: "new_mark echo_cli = 0 \<or> new_mark echo_cli = 1" by (simp add: echo_cli_def)
  have ex: "m_extra_info (hits_message n) = n # [0, 0, 0, 0, 0, 0]" for n by (simp add: hits_message_def)
  show ?thesis
    using search_hits_overflow [OF echo_find [OF wf hits(1) code] ex _ mark]
      search_hits_overflow [OF echo_find [OF wf hits(2) code] ex _ mark] by simp
qed



definition hb_inv :: "'w hb \<Rightarrow> bool" where
  "hb_inv h \<longleftrightarrow> thread_running h \<longrightarrow> (case hb_at h of HB_test \<Rightarrow> hb_slept h = 10 * hb_sent h
    | HB_sleep i \<Rightarrow> 1 \<le> i \<and> i \<le> 10 \<and> 1 \<le> hb_sent h \<and> hb_slept h + 1 = 10 * (hb_sent h - 1) + i | HB_exited \<Rightarrow> False)"

lemma hb_step_inv: "hb_inv h \<Longrightarrow> hb_step lib net h = Some h' \<Longrightarrow> hb_inv h'"
  by (cases "hb_at h") (auto simp: hb_inv_def hb_step_def Let_def split: if_splits)

lemma hb_run_inv: "hb_run lib net h0 h \<Longrightarrow> hb_inv h0 \<Longrightarrow> hb_inv h"
proof (induction rule: hb_run.induct)
  case (hb_thread h h1 h2)
  then show ?case using hb_step_inv by blast
qed (simp_all add: client_stop_heartbeat_thread_def hb_inv_def)

text \<open>C26: as long as it is not stopped the thread sends one packet every ten seconds: after its n-th packet it
  has slept ten times n-1 seconds, and it never sleeps more than ten times before the next one.\<close>

theorem heartbeat_pace:
  assumes "client_start_heartbeat_thread True k = Some h0" and "hb_run lib net h0 h" and "thread_running h"
  shows "case hb_at h of HB_test \<Rightarrow> hb_slept h = 10 * hb_sent h
    | HB_sleep i \<Rightarrow> 1 \<le> i \<and> i \<le> 10 \<and> 1 \<le> hb_sent h \<and> hb_slept h + 1 = 10 * (hb_sent h - 1) + i | HB_exited \<Rightarrow> False"
proof -
  have "hb_inv h0" using assms(1) by (auto simp: client_start_heartbeat_thread_def hb_inv_def)
  then show ?thesis using hb_run_inv [OF assms(2)] assms(3) by (simp add: hb_inv_def)
qed

definition echo_thread :: "unit hb" where
  "echo_thread = \<lparr>hb_at = HB_test, thread_running = True, hb_sock = c_sock echo_cli, hb_sent = 0, hb_slept = 0\<rparr>"

lemma echo_thread_step:
  "hb_step plain_lib (echo_net []) echo_thread = Some (echo_thread\<lparr>hb_at := HB_sleep 1, hb_sent := 1\<rparr>)"
  by (simp add: hb_step_def echo_thread_def socket_client_send_heartbeat_def client_send_def encrypt_def echo_cli_def
      echo_net_def plain_lib_def AES_BLOCK_SIZE_def heartbeat_def put_heartbeat_def)

theorem heartbeat_pace_witness:
  "hb_run plain_lib (echo_net []) echo_thread (echo_thread\<lparr>hb_at := HB_sleep 1, hb_sent := 1\<rparr>)
   \<and> hb_slept (echo_thread\<lparr>hb_at := HB_sleep 1, hb_sent := 1\<rparr>) + 1 = 10 * (1 - 1) + 1"
proof -
  have run: "hb_run plain_lib (echo_net []) echo_thread (echo_thread\<lparr>hb_at := HB_sleep 1, hb_sent := 1\<rparr>)"
    using hb_thread [OF hb_refl echo_thread_step] .
  have "client_start_heartbeat_thread True (c_sock echo_cli) = Some echo_thread"
    by (simp add: client_start_heartbeat_thread_def echo_thread_def)
  from heartbeat_pace [OF this run] run show ?thesis by (simp add: echo_thread_def)
qed

end
