(* ===== verification/Check_Password.thy ===== *)
theory Check_Password
  imports Prelude
begin

text \<open>
  \<^verbatim>\<open>bsdqclient/check_password/check_password.c\<close>: the strength check a new password has to pass.  Cracklib is
  the parameter \<open>crack\<close> (\<open>dict_open\<close> says which of the three dictionary files can be opened,
  \<open>fascist_check\<close> is \<^verbatim>\<open>FascistCheck\<close>).  The buffer of the error text is modelled by its length, so that a
  text that does not fit is \<^const>\<open>None\<close>.  The configuration file is not read any more (its code is commented
  out), the table of defaults and the code that reads it are still there.
\<close>

section \<open>Character classes\<close>

definition islower :: "char \<Rightarrow> bool" where
  "islower c \<longleftrightarrow> 97 \<le> (of_char c :: nat) \<and> (of_char c :: nat) \<le> 122"

definition isupper :: "char \<Rightarrow> bool" where
  "isupper c \<longleftrightarrow> 65 \<le> (of_char c :: nat) \<and> (of_char c :: nat) \<le> 90"

definition ispunct :: "char \<Rightarrow> bool" where
  "ispunct c \<longleftrightarrow> (let n = (of_char c :: nat) in 33 \<le> n \<and> n \<le> 47 \<or> 58 \<le> n \<and> n \<le> 64 \<or> 91 \<le> n \<and> n \<le> 96 \<or> 123 \<le> n \<and> n \<le> 126)"

section \<open>Configuration\<close>

record config_entry =
  cfg_key :: string
  cfg_value :: "string option"
  cfg_default :: string

definition config_entries :: "config_entry list" where
  "config_entries = map (\<lambda>(k, d). \<lparr>cfg_key = k, cfg_value = None, cfg_default = d\<rparr>)
     [(''min_points'', ''3''), (''use_cracklib'', ''1''), (''min_upper'', ''0''), (''min_lower'', ''0''),
      (''min_digit'', ''0''), (''min_punct'', ''0''), (''max_consecutive_per_class'', ''5'')]"

text \<open>\<^verbatim>\<open>strncmp(key, entry, strlen(key)) == 0\<close>; \<^verbatim>\<open>atoi\<close> of a text without a number is 0.\<close>

fun get_config_entry_int :: "config_entry list \<Rightarrow> string \<Rightarrow> int" where
  "get_config_entry_int [] entry = -1"
| "get_config_entry_int (c # cs) entry =
     (if take (length (cfg_key c)) entry = cfg_key c
      then sscanf_d (case cfg_value c of None \<Rightarrow> cfg_default c | Some v \<Rightarrow> v) 0
      else get_config_entry_int cs entry)"

text \<open>\<^verbatim>\<open>t[strlen(t)-1]\<close> of an empty text lies before the buffer.\<close>

definition chomp :: "string \<Rightarrow> string option" where
  "chomp s = (if s = [] then None else Some (if last s = CHR 0x0A then butlast s else s))"

section \<open>Error texts\<close>

definition DEFAULT_QUALITY :: int where "DEFAULT_QUALITY = 3"
definition DEFAULT_CRACKLIB :: int where "DEFAULT_CRACKLIB = 1"
definition MEMORY_MARGIN :: nat where "MEMORY_MARGIN = 50"
definition MEM_INIT_SZ :: nat where "MEM_INIT_SZ = 64"

definition quot :: string where "quot = [CHR 0x22]"

text \<open>The four formats, as the pieces around their arguments, with the length of the format text.\<close>

definition too_short_text :: "string \<Rightarrow> int \<Rightarrow> string" where
  "too_short_text dn n = ''Password for dn='' @ quot @ dn @ quot @ '' is too short ('' @ dec n @ ''/6)''"

definition quality_text :: "string \<Rightarrow> int \<Rightarrow> int \<Rightarrow> string" where
  "quality_text dn q mn = ''Password for dn='' @ quot @ dn @ quot
     @ '' does not pass required number of strength checks for the required character sets ('' @ dec q
     @ '' of '' @ dec mn @ '')''"

definition bad_password_text :: "string \<Rightarrow> string \<Rightarrow> string" where
  "bad_password_text dn r = ''Bad password for dn='' @ quot @ dn @ quot @ '' because '' @ r"

definition consec_text :: "string \<Rightarrow> string" where
  "consec_text dn = ''Too many consecutive characters in the same character class for dn='' @ quot @ dn @ quot"

definition PASSWORD_TOO_SHORT_SZ :: string where "PASSWORD_TOO_SHORT_SZ = ''Password for dn='' @ quot @ ''%s'' @ quot @ '' is too short (%d/6)''"
definition PASSWORD_QUALITY_SZ :: string where
  "PASSWORD_QUALITY_SZ = ''Password for dn='' @ quot @ ''%s'' @ quot
     @ '' does not pass required number of strength checks for the required character sets (%d of %d)''"
definition BAD_PASSWORD_SZ :: string where "BAD_PASSWORD_SZ = ''Bad password for dn='' @ quot @ ''%s'' @ quot @ '' because %s''"
definition CONSEC_FAIL_SZ :: string where
  "CONSEC_FAIL_SZ = ''Too many consecutive characters in the same character class for dn='' @ quot @ ''%s'' @ quot"

text \<open>The new length of the buffer.\<close>

definition realloc_error_message :: "nat \<Rightarrow> nat \<Rightarrow> nat" where
  "realloc_error_message curlen nextlen =
     (if curlen < nextlen + MEMORY_MARGIN then nextlen + MEMORY_MARGIN else curlen)"

definition sprintf_into :: "nat \<Rightarrow> string \<Rightarrow> string option" where
  "sprintf_into mem_len t = (if length t < mem_len then Some t else None)"

section \<open>The checks\<close>

definition char_class :: "char \<Rightarrow> string" where
  "char_class c = (if islower c then ''lower'' else if isupper c then ''upper'' else if is_digit c then ''digit''
     else if ispunct c then ''punct'' else ''unknown'')"

text \<open>The loop over consecutive characters of a class: \<^const>\<open>False\<close> when it gives up.\<close>

fun consec_loop :: "int \<Rightarrow> int \<Rightarrow> string \<Rightarrow> string \<Rightarrow> bool" where
  "consec_loop mx n prev [] = True"
| "consec_loop mx n prev (c # cs) =
     (if mx < n then False
      else if char_class c = prev then consec_loop mx (n + 1) prev cs
      else consec_loop mx (if prev \<noteq> ''unknown'' then 1 else n + 1) (char_class c) cs)"

record quality =
  min_lower :: int
  min_upper :: int
  min_digit :: int
  min_punct :: int
  nLower :: bool
  nUpper :: bool
  nDigit :: bool
  nPunct :: bool
  nQuality :: int

definition quality_init :: quality where
  "quality_init = \<lparr>min_lower = 1, min_upper = 1, min_digit = 1, min_punct = 0,
     nLower = False, nUpper = False, nDigit = False, nPunct = False, nQuality = 0\<rparr>"

definition quality_char :: "char \<Rightarrow> quality \<Rightarrow> quality" where
  "quality_char c q =
     (if islower c then
        (let q = q\<lparr>min_lower := min_lower q - 1\<rparr> in
         if \<not> nLower q \<and> min_lower q < 1 then q\<lparr>nLower := True, nQuality := nQuality q + 1\<rparr> else q)
      else if isupper c then
        (let q = q\<lparr>min_upper := min_upper q - 1\<rparr> in
         if \<not> nUpper q \<and> min_upper q < 1 then q\<lparr>nUpper := True, nQuality := nQuality q + 1\<rparr> else q)
      else if is_digit c then
        (let q = q\<lparr>min_digit := min_digit q - 1\<rparr> in
         if \<not> nDigit q \<and> min_digit q < 1 then q\<lparr>nDigit := True, nQuality := nQuality q + 1\<rparr> else q)
      else if ispunct c then
        (let q = q\<lparr>min_punct := min_punct q - 1\<rparr> in
         if \<not> nPunct q \<and> min_punct q < 1 then q\<lparr>nPunct := True, nQuality := nQuality q + 1\<rparr> else q)
      else q)"

record crack =
  dict_open :: "bool list"
  fascist_check :: "string \<Rightarrow> string option"

datatype verdict = LDAP_SUCCESS | EXIT_FAILURE | DICT_FAILURE

text \<open>Allocate, print, and leave by the label: the verdict and the text for the caller.\<close>

definition fail_with :: "verdict \<Rightarrow> nat \<Rightarrow> string \<Rightarrow> (verdict \<times> string) option" where
  "fail_with v nextlen t =
     map_option (\<lambda>s. (v, s)) (sprintf_into (realloc_error_message MEM_INIT_SZ nextlen) t)"

definition cracklib_check :: "crack \<Rightarrow> string \<Rightarrow> string \<Rightarrow> (verdict \<times> string) option" where
  "cracklib_check cr pw dn =
     (if 0 < DEFAULT_CRACKLIB \<and> list_all (\<lambda>b. b) (dict_open cr) then
        (case fascist_check cr pw of
           None \<Rightarrow> Some (LDAP_SUCCESS, '''')
         | Some r \<Rightarrow> fail_with DICT_FAILURE (length BAD_PASSWORD_SZ + length dn + length r) (bad_password_text dn r))
      else Some (LDAP_SUCCESS, ''''))"

definition check_password_with :: "int \<Rightarrow> crack \<Rightarrow> string \<Rightarrow> string \<Rightarrow> (verdict \<times> string) option" where
  "check_password_with max_consecutive cr pw dn =
     (if length pw < 6 then
        fail_with EXIT_FAILURE (length PASSWORD_TOO_SHORT_SZ + length dn + 1) (too_short_text dn (int (length pw)))
      else if max_consecutive \<noteq> 0 \<and> \<not> consec_loop max_consecutive 1 ''unknown'' pw then
        fail_with EXIT_FAILURE (length CONSEC_FAIL_SZ + length dn) (consec_text dn)
      else (let q = fold quality_char pw quality_init in
        if 0 < min_lower q \<or> 0 < min_upper q \<or> 0 < min_digit q \<or> 0 < min_punct q \<or> nQuality q < DEFAULT_QUALITY
        then fail_with EXIT_FAILURE (length PASSWORD_QUALITY_SZ + length dn + 2)
               (quality_text dn (nQuality q) DEFAULT_QUALITY)
        else cracklib_check cr pw dn))"

definition check_password :: "crack \<Rightarrow> string \<Rightarrow> string \<Rightarrow> (verdict \<times> string) option" where
  "check_password cr pw dn = check_password_with 0 cr pw dn"

section \<open>Lemmas\<close>

definition has :: "(char \<Rightarrow> bool) \<Rightarrow> string \<Rightarrow> bool" where
  "has P s \<longleftrightarrow> (\<exists>c \<in> set s. P c)"

lemma classes_disjoint:
  "islower c \<Longrightarrow> \<not> isupper c \<and> \<not> is_digit c" "isupper c \<Longrightarrow> \<not> is_digit c"
  by (auto simp: islower_def isupper_def is_digit_def)

text \<open>What the loop knows after the characters \<open>s\<close>.\<close>

definition quality_inv :: "string \<Rightarrow> quality \<Rightarrow> bool" where
  "quality_inv s q \<longleftrightarrow> (min_lower q < 1 \<longleftrightarrow> has islower s) \<and> (min_upper q < 1 \<longleftrightarrow> has isupper s)
     \<and> (min_digit q < 1 \<longleftrightarrow> has is_digit s) \<and> min_punct q \<le> 0
     \<and> (nLower q \<longleftrightarrow> has islower s) \<and> (nUpper q \<longleftrightarrow> has isupper s) \<and> (nDigit q \<longleftrightarrow> has is_digit s)
     \<and> nQuality q = of_bool (nLower q) + of_bool (nUpper q) + of_bool (nDigit q) + of_bool (nPunct q)
     \<and> min_lower q \<le> 1 \<and> min_upper q \<le> 1 \<and> min_digit q \<le> 1"

lemma quality_char_inv: "quality_inv s q \<Longrightarrow> quality_inv (s @ [c]) (quality_char c q)"
  using classes_disjoint [of c] by (auto simp: quality_inv_def quality_char_def has_def Let_def)

lemma quality_fold_inv: "quality_inv s (fold quality_char s quality_init)"
proof (induction s rule: rev_induct)
  case Nil
  show ?case by (simp add: quality_inv_def quality_init_def has_def)
next
  case (snoc c s)
  then show ?case using quality_char_inv [of s _ c] by simp
qed

lemma length_dec_small: "0 \<le> n \<Longrightarrow> n < 10 \<Longrightarrow> length (dec n) = 1"
  by (simp add: dec_def dec_nat.simps)

lemma quality_bounds: "quality_inv s q \<Longrightarrow> 0 \<le> nQuality q \<and> nQuality q \<le> 4"
  by (auto simp: quality_inv_def of_bool_def)

lemmas text_sizes = fail_with_def sprintf_into_def realloc_error_message_def MEM_INIT_SZ_def MEMORY_MARGIN_def
  too_short_text_def quality_text_def bad_password_text_def consec_text_def quot_def
  PASSWORD_TOO_SHORT_SZ_def PASSWORD_QUALITY_SZ_def BAD_PASSWORD_SZ_def CONSEC_FAIL_SZ_def

lemma fail_with_fits: "length t < nextlen + 50 \<Longrightarrow> fail_with v nextlen t = Some (v, t)"
  by (simp add: fail_with_def sprintf_into_def realloc_error_message_def MEMORY_MARGIN_def)

lemma cracklib_check_total:
  "\<exists>t. cracklib_check cr pw dn = Some (if list_all (\<lambda>b. b) (dict_open cr) \<and> fascist_check cr pw \<noteq> None
      then DICT_FAILURE else LDAP_SUCCESS, t)"
proof (cases "fascist_check cr pw")
  case (Some r)
  have "fail_with DICT_FAILURE (length BAD_PASSWORD_SZ + length dn + length r) (bad_password_text dn r)
      = Some (DICT_FAILURE, bad_password_text dn r)"
    by (rule fail_with_fits) (simp add: text_sizes)
  with Some show ?thesis by (simp add: cracklib_check_def DEFAULT_CRACKLIB_def)
qed (simp add: cracklib_check_def)


end
