(* ===== verification/Mysql.thy ===== *)
theory Mysql
  imports Clisrv
begin

text \<open>
  The MySQL client library as the server uses it.  \<^verbatim>\<open>libmysqlclient\<close> and the database server are
  not part of the repository: they are the parameter \<open>api\<close> of the server's operations (a record
  of the library's entry points over an opaque connection), and the locale \<open>mysql_server\<close> states
  what the code relies on.  A statement is the value of a datatype with one constructor per SQL
  format string of \<^verbatim>\<open>srvdb.c\<close>, holding the arguments of the \<^verbatim>\<open>sprintf\<close>; \<open>sql_exec\<close> is what SQL
  documents for it, over the three kinds of tables the program creates.  The law \<open>query_exec\<close> says
  that a statement either fails and changes nothing (any failure at any time: lost connection,
  full disk, \<^verbatim>\<open>1406\<close> data too long) or has its documented effect and result; \<open>mysql_up\<close> adds
  that it does not fail for reasons outside the statement.

  String literals are kept as the code writes them between quotes; \<open>lit\<close> of the dialect is the
  server's reading of a literal, \<open>str_eq\<close> and \<open>str_like\<close> are \<^verbatim>\<open>=\<close> and \<^verbatim>\<open>LIKE\<close> under the
  collation of the book tables, \<open>bin_eq\<close> is \<^verbatim>\<open>=\<close> under the binary collation of the account
  table.  Widths of \<^verbatim>\<open>VARCHAR(n)\<close> columns count characters and are enforced (strict mode, the
  default of MySQL 5.7, which the README asks for).  The last section gives a concrete engine with
  a script of faults, on which the locales are interpreted.
\<close>

section \<open>Tables\<close>

record book_row =
  r_shelfno :: int
  r_floorno :: int
  r_bookno :: int
  r_name :: string
  r_author :: string
  r_label :: string
  r_borrowed :: char
  r_on_reading :: char
  r_cleaned :: int
  r_encoding_time :: string

record shelf_row =
  h_shelfno :: int
  h_name :: string
  h_nfloors :: string
  h_floor_depth :: string
  h_cleaned :: int
  h_building_time :: string

record account_row =
  acc_name :: string
  acc_password :: string
  acc_type :: int

record database =
  books :: "string \<rightharpoonup> book_row list"
  shelves :: "string \<rightharpoonup> shelf_row list"
  accounts :: "account_row list option"

section \<open>Statements\<close>

text \<open>The arguments of the statements that write a whole book or shelf, escaped where the code
  escapes them.\<close>

record book_sql =
  q_shelfno :: int
  q_floorno :: int
  q_bookno :: int
  q_name :: string
  q_author :: string
  q_label :: string
  q_borrowed :: char
  q_on_reading :: char
  q_cleaned :: int
  q_encoding_time :: string

record shelf_sql =
  qs_shelfno :: int
  qs_name :: string
  qs_nfloors :: int
  qs_floor_depth :: string
  qs_cleaned :: int
  qs_building_time :: string

datatype name_cond = Name_like string | Name_eq string

datatype field_cond = Or_like string | And_like string | And_eq string

text \<open>The conditions of \<^verbatim>\<open>srvdb_book_find\<close>: the comparison symbol for \<^verbatim>\<open>shelfno\<close>, the shelf number
  and the lower bound of \<^verbatim>\<open>bookno\<close>, and for a keyword search the floor and the three fields.\<close>

datatype book_where =
    Where_unsorted char int int
  | Where_borrowed char int int
  | Where_on_reading char int int
  | Where_keyword char int int "int option" name_cond field_cond field_cond

datatype stmt =
    Create_accounts
  | Create_shelves string
  | Create_books string
  | Select_min_bookno string int
  | Select_max_bookno string
  | Update_book_reuse string book_sql
  | Insert_book string book_sql
  | Update_book string book_sql
  | Update_shelf_books_cleaned string int int
  | Update_book_cleaned string int int
  | Select_books bool string book_where int
  | Select_book_no bool string int
  | Select_min_shelfno string int
  | Select_max_shelfno string
  | Update_shelf_reuse string shelf_sql
  | Insert_shelf string shelf_sql
  | Update_shelf string shelf_sql
  | Update_shelf_cleaned string int int
  | Select_shelf bool string int int int
  | Select_shelves bool string int int int
  | Select_account_type string
  | Select_account_password string
  | Count_accounts
  | Count_account_name string
  | Insert_account string string int
  | Update_account_password string string

text \<open>A reply: an error number, a number of changed rows, or a result set with its number of
  columns, each cell as text or \<^verbatim>\<open>NULL\<close>.\<close>

datatype reply =
    Q_err int
  | Q_ok nat
  | Q_rows nat "string option list list"

record dialect =
  lit :: "string \<Rightarrow> string"
  str_eq :: "string \<Rightarrow> string \<Rightarrow> bool"
  str_like :: "string \<Rightarrow> string \<Rightarrow> bool"
  bin_eq :: "string \<Rightarrow> string \<Rightarrow> bool"

section \<open>The documented effect of a statement\<close>

definition utf8_len :: "string \<Rightarrow> nat" where
  "utf8_len s = length (filter (\<lambda>c. (of_char c :: nat) div 64 \<noteq> 2) s)"

definition fits :: "nat \<Rightarrow> string \<Rightarrow> bool" where
  "fits n s \<longleftrightarrow> utf8_len s \<le> n"

definition sym_cmp :: "char \<Rightarrow> int \<Rightarrow> int \<Rightarrow> bool" where
  "sym_cmp c a b \<longleftrightarrow> (if c = CHR ''>'' then b < a else a = b)"

definition char_num :: "char \<Rightarrow> int" where
  "char_num c = (if is_digit c then int (digit_val c) else 0)"

fun name_holds :: "dialect \<Rightarrow> name_cond \<Rightarrow> string \<Rightarrow> bool" where
  "name_holds dia (Name_like p) s = str_like dia (lit dia p) s"
| "name_holds dia (Name_eq p) s = str_eq dia (lit dia p) s"

fun field_holds :: "dialect \<Rightarrow> field_cond \<Rightarrow> string \<Rightarrow> bool" where
  "field_holds dia (Or_like p) s = str_like dia (lit dia p) s"
| "field_holds dia (And_like p) s = str_like dia (lit dia p) s"
| "field_holds dia (And_eq p) s = str_eq dia (lit dia p) s"

fun is_or :: "field_cond \<Rightarrow> bool" where
  "is_or (Or_like p) = True"
| "is_or (And_like p) = False"
| "is_or (And_eq p) = False"

text \<open>\<^verbatim>\<open>name ... author ... label ...\<close> without inner brackets: \<^verbatim>\<open>AND\<close> binds tighter than \<^verbatim>\<open>OR\<close>.\<close>

definition keyword_holds :: "dialect \<Rightarrow> name_cond \<Rightarrow> field_cond \<Rightarrow> field_cond \<Rightarrow> book_row \<Rightarrow> bool" where
  "keyword_holds dia n a l r =
     (let N = name_holds dia n (r_name r); A = field_holds dia a (r_author r);
          L = field_holds dia l (r_label r)
      in if is_or a then (if is_or l then N \<or> A \<or> L else N \<or> (A \<and> L))
         else (if is_or l then (N \<and> A) \<or> L else N \<and> A \<and> L))"

fun book_where_holds :: "dialect \<Rightarrow> book_where \<Rightarrow> book_row \<Rightarrow> bool" where
  "book_where_holds dia (Where_unsorted c s b) r \<longleftrightarrow>
     r_cleaned r = BOOK_UNSORTED \<and> sym_cmp c (r_shelfno r) s \<and> b < r_bookno r"
| "book_where_holds dia (Where_borrowed c s b) r \<longleftrightarrow>
     char_num (r_borrowed r) = 1 \<and> r_cleaned r = BOOK_AVL \<and> sym_cmp c (r_shelfno r) s \<and> b < r_bookno r"
| "book_where_holds dia (Where_on_reading c s b) r \<longleftrightarrow>
     char_num (r_on_reading r) = 1 \<and> r_cleaned r = BOOK_AVL \<and> sym_cmp c (r_shelfno r) s \<and> b < r_bookno r"
| "book_where_holds dia (Where_keyword c s b f n a l) r \<longleftrightarrow>
     sym_cmp c (r_shelfno r) s \<and> r_cleaned r = BOOK_AVL \<and> b < r_bookno r
     \<and> (case f of None \<Rightarrow> True | Some k \<Rightarrow> r_floorno r = k) \<and> keyword_holds dia n a l r"

definition book_cells :: "book_row \<Rightarrow> string option list" where
  "book_cells r = [Some (dec (r_shelfno r)), Some (dec (r_floorno r)), Some (dec (r_bookno r)),
     Some (r_name r), Some (r_author r), Some (r_label r), Some [r_borrowed r],
     Some [r_on_reading r], Some (dec (r_cleaned r)), Some (r_encoding_time r)]"

definition shelf_cells :: "shelf_row \<Rightarrow> string option list" where
  "shelf_cells h = [Some (dec (h_shelfno h)), Some (h_name h), Some (h_nfloors h),
     Some (h_floor_depth h), Some (dec (h_cleaned h)), Some (h_building_time h)]"

definition book_row_of :: "dialect \<Rightarrow> book_sql \<Rightarrow> book_row" where
  "book_row_of dia q = \<lparr>r_shelfno = q_shelfno q, r_floorno = q_floorno q, r_bookno = q_bookno q,
     r_name = lit dia (q_name q), r_author = lit dia (q_author q), r_label = lit dia (q_label q),
     r_borrowed = q_borrowed q, r_on_reading = q_on_reading q, r_cleaned = q_cleaned q,
     r_encoding_time = lit dia (q_encoding_time q)\<rparr>"

definition shelf_row_of :: "dialect \<Rightarrow> shelf_sql \<Rightarrow> shelf_row" where
  "shelf_row_of dia q = \<lparr>h_shelfno = qs_shelfno q, h_name = lit dia (qs_name q),
     h_nfloors = dec (qs_nfloors q), h_floor_depth = lit dia (qs_floor_depth q),
     h_cleaned = qs_cleaned q, h_building_time = lit dia (qs_building_time q)\<rparr>"

definition book_row_fits :: "book_row \<Rightarrow> bool" where
  "book_row_fits r \<longleftrightarrow> fits 200 (r_name r) \<and> fits 70 (r_author r) \<and> fits 200 (r_label r)
     \<and> fits 20 (r_encoding_time r)"

definition shelf_row_fits :: "shelf_row \<Rightarrow> bool" where
  "shelf_row_fits h \<longleftrightarrow> fits 200 (h_name h) \<and> fits 1 (h_nfloors h) \<and> fits 50 (h_floor_depth h)
     \<and> fits 20 (h_building_time h)"

definition update_where :: "('r \<Rightarrow> bool) \<Rightarrow> ('r \<Rightarrow> 'r) \<Rightarrow> 'r list \<Rightarrow> nat \<times> 'r list" where
  "update_where P f rows =
     (length (filter (\<lambda>r. P r \<and> f r \<noteq> r) rows), map (\<lambda>r. if P r then f r else r) rows)"

definition on_books :: "string \<Rightarrow> database \<Rightarrow> (book_row list \<Rightarrow> reply \<times> book_row list)
    \<Rightarrow> reply \<times> database" where
  "on_books t d f = (case books d t of None \<Rightarrow> (Q_err 1146, d)
     | Some rows \<Rightarrow> (case f rows of (r, rows') \<Rightarrow> (r, d\<lparr>books := (books d)(t \<mapsto> rows')\<rparr>)))"

definition on_shelves :: "string \<Rightarrow> database \<Rightarrow> (shelf_row list \<Rightarrow> reply \<times> shelf_row list)
    \<Rightarrow> reply \<times> database" where
  "on_shelves t d f = (case shelves d t of None \<Rightarrow> (Q_err 1146, d)
     | Some rows \<Rightarrow> (case f rows of (r, rows') \<Rightarrow> (r, d\<lparr>shelves := (shelves d)(t \<mapsto> rows')\<rparr>)))"

definition on_accounts :: "database \<Rightarrow> (account_row list \<Rightarrow> reply \<times> account_row list)
    \<Rightarrow> reply \<times> database" where
  "on_accounts d f = (case accounts d of None \<Rightarrow> (Q_err 1146, d)
     | Some rows \<Rightarrow> (case f rows of (r, rows') \<Rightarrow> (r, d\<lparr>accounts := Some rows'\<rparr>)))"

definition aggregate :: "(int list \<Rightarrow> int) \<Rightarrow> int list \<Rightarrow> reply" where
  "aggregate f ks = Q_rows 1 [[if ks = [] then None else Some (dec (f ks))]]"

definition sql_min :: "int list \<Rightarrow> int" where
  "sql_min ks = foldr min (tl ks) (hd ks)"

definition sql_max :: "int list \<Rightarrow> int" where
  "sql_max ks = foldr max (tl ks) (hd ks)"

definition updated :: "nat \<times> 'r list \<Rightarrow> reply \<times> 'r list" where
  "updated u = (Q_ok (fst u), snd u)"

definition write_book :: "dialect \<Rightarrow> book_sql \<Rightarrow> book_row list
    \<Rightarrow> (book_row \<Rightarrow> reply \<times> book_row list) \<Rightarrow> reply \<times> book_row list" where
  "write_book dia q rows f =
     (if \<not> book_row_fits (book_row_of dia q) then (Q_err 1406, rows)
      else f (book_row_of dia q))"

definition write_shelf :: "dialect \<Rightarrow> shelf_sql \<Rightarrow> shelf_row list
    \<Rightarrow> (shelf_row \<Rightarrow> reply \<times> shelf_row list) \<Rightarrow> reply \<times> shelf_row list" where
  "write_shelf dia q rows f =
     (if \<not> shelf_row_fits (shelf_row_of dia q) then (Q_err 1406, rows)
      else f (shelf_row_of dia q))"

definition book_result :: "bool \<Rightarrow> book_row list \<Rightarrow> reply" where
  "book_result star rows =
     (if star then Q_rows 10 (map book_cells rows)
      else Q_rows 1 (map (\<lambda>r. [Some (dec (r_bookno r))]) rows))"

definition shelf_result :: "bool \<Rightarrow> shelf_row list \<Rightarrow> reply" where
  "shelf_result star rows =
     (if star then Q_rows 6 (map shelf_cells rows)
      else Q_rows 1 (map (\<lambda>h. [Some (dec (h_shelfno h))]) rows))"

fun sql_exec :: "dialect \<Rightarrow> stmt \<Rightarrow> database \<Rightarrow> reply \<times> database" where
  "sql_exec dia Create_accounts d =
     (Q_ok 0, if accounts d = None then d\<lparr>accounts := Some []\<rparr> else d)"
| "sql_exec dia (Create_shelves t) d =
     (Q_ok 0, if shelves d t = None then d\<lparr>shelves := (shelves d)(t \<mapsto> [])\<rparr> else d)"
| "sql_exec dia (Create_books t) d =
     (Q_ok 0, if books d t = None then d\<lparr>books := (books d)(t \<mapsto> [])\<rparr> else d)"
| "sql_exec dia (Select_min_bookno t c) d = on_books t d (\<lambda>rows.
     (aggregate sql_min (map r_bookno (filter (\<lambda>r. r_cleaned r = c) rows)), rows))"
| "sql_exec dia (Select_max_bookno t) d = on_books t d (\<lambda>rows.
     (aggregate sql_max (map r_bookno rows), rows))"
| "sql_exec dia (Update_book_reuse t q) d = on_books t d (\<lambda>rows. write_book dia q rows (\<lambda>new.
     updated (update_where (\<lambda>r. r_bookno r = q_bookno q) (\<lambda>r. new) rows)))"
| "sql_exec dia (Insert_book t q) d = on_books t d (\<lambda>rows. write_book dia q rows (\<lambda>new.
     if q_bookno q \<in> set (map r_bookno rows) then (Q_err 1062, rows) else (Q_ok 1, rows @ [new])))"
| "sql_exec dia (Update_book t q) d = on_books t d (\<lambda>rows. write_book dia q rows (\<lambda>new.
     updated (update_where (\<lambda>r. r_bookno r = q_bookno q) (\<lambda>r. new) rows)))"
| "sql_exec dia (Update_shelf_books_cleaned t c s) d = on_books t d (\<lambda>rows.
     updated (update_where (\<lambda>r. r_shelfno r = s) (\<lambda>r. r\<lparr>r_cleaned := c\<rparr>) rows))"
| "sql_exec dia (Update_book_cleaned t c n) d = on_books t d (\<lambda>rows.
     updated (update_where (\<lambda>r. r_bookno r = n) (\<lambda>r. r\<lparr>r_cleaned := c\<rparr>) rows))"
| "sql_exec dia (Select_books star t w n) d = on_books t d (\<lambda>rows.
     (book_result star (take (nat n) (sort_key r_bookno (filter (book_where_holds dia w) rows))), rows))"
| "sql_exec dia (Select_book_no star t n) d = on_books t d (\<lambda>rows.
     (book_result star (filter (\<lambda>r. r_bookno r = n) rows), rows))"
| "sql_exec dia (Select_min_shelfno t c) d = on_shelves t d (\<lambda>rows.
     (aggregate sql_min (map h_shelfno (filter (\<lambda>h. h_cleaned h = c) rows)), rows))"
| "sql_exec dia (Select_max_shelfno t) d = on_shelves t d (\<lambda>rows.
     (aggregate sql_max (map h_shelfno rows), rows))"
| "sql_exec dia (Update_shelf_reuse t q) d = on_shelves t d (\<lambda>rows. write_shelf dia q rows (\<lambda>new.
     updated (update_where (\<lambda>h. h_shelfno h = qs_shelfno q) (\<lambda>h. new) rows)))"
| "sql_exec dia (Insert_shelf t q) d = on_shelves t d (\<lambda>rows. write_shelf dia q rows (\<lambda>new.
     if qs_shelfno q \<in> set (map h_shelfno rows) then (Q_err 1062, rows) else (Q_ok 1, rows @ [new])))"
| "sql_exec dia (Update_shelf t q) d = on_shelves t d (\<lambda>rows. write_shelf dia q rows (\<lambda>new.
     updated (update_where (\<lambda>h. h_shelfno h = qs_shelfno q)
       (\<lambda>h. new\<lparr>h_cleaned := h_cleaned h\<rparr>) rows)))"
| "sql_exec dia (Update_shelf_cleaned t c n) d = on_shelves t d (\<lambda>rows.
     updated (update_where (\<lambda>h. h_shelfno h = n) (\<lambda>h. h\<lparr>h_cleaned := c\<rparr>) rows))"
| "sql_exec dia (Select_shelf star t n c k) d = on_shelves t d (\<lambda>rows.
     (shelf_result star (take (nat k) (sort_key h_shelfno
        (filter (\<lambda>h. h_shelfno h = n \<and> h_cleaned h = c) rows))), rows))"
| "sql_exec dia (Select_shelves star t n c k) d = on_shelves t d (\<lambda>rows.
     (shelf_result star (take (nat k) (sort_key h_shelfno
        (filter (\<lambda>h. n < h_shelfno h \<and> h_cleaned h = c) rows))), rows))"
| "sql_exec dia (Select_account_type n) d = on_accounts d (\<lambda>rows.
     (Q_rows 1 (map (\<lambda>a. [Some (dec (acc_type a))])
        (filter (\<lambda>a. bin_eq dia (acc_name a) (lit dia n)) rows)), rows))"
| "sql_exec dia (Select_account_password n) d = on_accounts d (\<lambda>rows.
     (Q_rows 1 (map (\<lambda>a. [Some (acc_password a)])
        (filter (\<lambda>a. bin_eq dia (acc_name a) (lit dia n)) rows)), rows))"
| "sql_exec dia Count_accounts d = on_accounts d (\<lambda>rows.
     (Q_rows 1 [[Some (dec (int (length rows)))]], rows))"
| "sql_exec dia (Count_account_name n) d = on_accounts d (\<lambda>rows.
     (Q_rows 1 [[Some (dec (int (length
        (filter (\<lambda>a. bin_eq dia (acc_name a) (lit dia n)) rows))))]], rows))"
| "sql_exec dia (Insert_account n p ty) d = on_accounts d (\<lambda>rows.
     if \<not> fits 200 (lit dia n) \<or> \<not> fits 200 (lit dia p) then (Q_err 1406, rows)
     else (Q_ok 1, rows @ [\<lparr>acc_name = lit dia n, acc_password = lit dia p, acc_type = ty\<rparr>]))"
| "sql_exec dia (Update_account_password p n) d = on_accounts d (\<lambda>rows.
     if \<not> fits 200 (lit dia p) then (Q_err 1406, rows)
     else updated (update_where (\<lambda>a. bin_eq dia (acc_name a) (lit dia n))
       (\<lambda>a. a\<lparr>acc_password := lit dia p\<rparr>) rows))"

section \<open>Statements the interface speaks about\<close>

text \<open>The program writes its statements with \<^verbatim>\<open>sprintf\<close>.  What is known about the database
  is limited to statements in which the arguments stay where the format puts them: a table name is
  an identifier, a literal does not close its quotes, a \<^verbatim>\<open>%c\<close> flag is a digit.  Inserting key 0
  would ask for an automatic key, which the code never does.\<close>

definition ident :: "string \<Rightarrow> bool" where
  "ident s \<longleftrightarrow> s \<noteq> [] \<and> list_all (\<lambda>c. let n = (of_char c :: nat) in is_digit c \<or> 65 \<le> n \<and> n \<le> 90
     \<or> 97 \<le> n \<and> n \<le> 122 \<or> c = CHR ''_'' \<or> c = CHR ''$'' \<or> 128 \<le> n) s"

fun lit_ok :: "string \<Rightarrow> bool" where
  "lit_ok [] = True"
| "lit_ok [c] = (c \<noteq> CHR 0x5C \<and> c \<noteq> CHR 0x27)"
| "lit_ok (c # e # cs) = (if c = CHR 0x5C then lit_ok cs else c \<noteq> CHR 0x27 \<and> lit_ok (e # cs))"

definition book_sql_ok :: "book_sql \<Rightarrow> bool" where
  "book_sql_ok q \<longleftrightarrow> lit_ok (q_name q) \<and> lit_ok (q_author q) \<and> lit_ok (q_label q)
     \<and> lit_ok (q_encoding_time q) \<and> is_digit (q_borrowed q) \<and> is_digit (q_on_reading q)"

definition shelf_sql_ok :: "shelf_sql \<Rightarrow> bool" where
  "shelf_sql_ok q \<longleftrightarrow> lit_ok (qs_name q) \<and> lit_ok (qs_floor_depth q) \<and> lit_ok (qs_building_time q)"

fun name_lit :: "name_cond \<Rightarrow> string" where
  "name_lit (Name_like p) = p"
| "name_lit (Name_eq p) = p"

fun field_lit :: "field_cond \<Rightarrow> string" where
  "field_lit (Or_like p) = p"
| "field_lit (And_like p) = p"
| "field_lit (And_eq p) = p"

fun where_ok :: "book_where \<Rightarrow> bool" where
  "where_ok (Where_keyword c s b f n a l) \<longleftrightarrow>
     lit_ok (name_lit n) \<and> lit_ok (field_lit a) \<and> lit_ok (field_lit l)"
| "where_ok w \<longleftrightarrow> True"

fun stmt_in_scope :: "stmt \<Rightarrow> bool" where
  "stmt_in_scope Create_accounts \<longleftrightarrow> True"
| "stmt_in_scope (Create_shelves t) \<longleftrightarrow> ident t"
| "stmt_in_scope (Create_books t) \<longleftrightarrow> ident t"
| "stmt_in_scope (Select_min_bookno t c) \<longleftrightarrow> ident t"
| "stmt_in_scope (Select_max_bookno t) \<longleftrightarrow> ident t"
| "stmt_in_scope (Update_book_reuse t q) \<longleftrightarrow> ident t \<and> book_sql_ok q"
| "stmt_in_scope (Insert_book t q) \<longleftrightarrow> ident t \<and> book_sql_ok q \<and> 1 \<le> q_bookno q"
| "stmt_in_scope (Update_book t q) \<longleftrightarrow> ident t \<and> book_sql_ok q"
| "stmt_in_scope (Update_shelf_books_cleaned t c s) \<longleftrightarrow> ident t"
| "stmt_in_scope (Update_book_cleaned t c n) \<longleftrightarrow> ident t"
| "stmt_in_scope (Select_books star t w n) \<longleftrightarrow> ident t \<and> where_ok w"
| "stmt_in_scope (Select_book_no star t n) \<longleftrightarrow> ident t"
| "stmt_in_scope (Select_min_shelfno t c) \<longleftrightarrow> ident t"
| "stmt_in_scope (Select_max_shelfno t) \<longleftrightarrow> ident t"
| "stmt_in_scope (Update_shelf_reuse t q) \<longleftrightarrow> ident t \<and> shelf_sql_ok q"
| "stmt_in_scope (Insert_shelf t q) \<longleftrightarrow> ident t \<and> shelf_sql_ok q \<and> 1 \<le> qs_shelfno q"
| "stmt_in_scope (Update_shelf t q) \<longleftrightarrow> ident t \<and> shelf_sql_ok q"
| "stmt_in_scope (Update_shelf_cleaned t c n) \<longleftrightarrow> ident t"
| "stmt_in_scope (Select_shelf star t n c k) \<longleftrightarrow> ident t"
| "stmt_in_scope (Select_shelves star t n c k) \<longleftrightarrow> ident t"
| "stmt_in_scope (Select_account_type n) \<longleftrightarrow> lit_ok n"
| "stmt_in_scope (Select_account_password n) \<longleftrightarrow> lit_ok n"
| "stmt_in_scope Count_accounts \<longleftrightarrow> True"
| "stmt_in_scope (Count_account_name n) \<longleftrightarrow> lit_ok n"
| "stmt_in_scope (Insert_account n p ty) \<longleftrightarrow> lit_ok n \<and> lit_ok p"
| "stmt_in_scope (Update_account_password p n) \<longleftrightarrow> lit_ok n \<and> lit_ok p"

section \<open>The library interface\<close>

record 'db mysql_api =
  api_query :: "'db \<Rightarrow> stmt \<Rightarrow> reply \<times> 'db"
  api_errno :: "'db \<Rightarrow> int"
  api_escape :: "string \<Rightarrow> string"
  api_ping :: "'db \<Rightarrow> bool \<times> 'db"
  api_close :: "'db \<Rightarrow> 'db"
  api_init :: "'db \<Rightarrow> bool \<times> 'db"
  api_connect :: "'db \<Rightarrow> string \<Rightarrow> string \<Rightarrow> int \<Rightarrow> bool \<times> 'db"
  api_set_utf8 :: "'db \<Rightarrow> bool \<times> 'db"

fun is_err :: "reply \<Rightarrow> bool" where
  "is_err (Q_err e) = True"
| "is_err (Q_ok n) = False"
| "is_err (Q_rows n rows) = False"

definition plain_text :: "string \<Rightarrow> bool" where
  "plain_text s \<longleftrightarrow> CHR 0x27 \<notin> set s \<and> CHR 0x5C \<notin> set s"

locale mysql_server =
  fixes api :: "'db mysql_api"
    and dia :: dialect
    and db_of :: "'db \<Rightarrow> database"
  assumes query_exec: "stmt_in_scope st \<Longrightarrow> api_query api d st = (r, d') \<Longrightarrow>
        is_err r \<and> db_of d' = db_of d \<or> (r, db_of d') = sql_exec dia st (db_of d)"
    and query_errno: "api_query api d st = (r, d') \<Longrightarrow> \<not> is_err r \<Longrightarrow> api_errno api d' = 0"
    and lit_escape: "lit dia (api_escape api s) = s"
    and lit_like: "lit dia (''%'' @ api_escape api s @ ''%'') = ''%'' @ s @ ''%''"
    and lit_plain: "plain_text s \<Longrightarrow> lit dia s = s"
    and escape_ok: "lit_ok (api_escape api s)"
    and length_escape: "length (api_escape api s) \<le> 2 * length s"
    and like_any: "str_like dia ''%%'' s"
    and bin_eq_refl: "bin_eq dia s s"
    and bin_eq_sym: "bin_eq dia s t \<Longrightarrow> bin_eq dia t s"
    and bin_eq_trans: "bin_eq dia s t \<Longrightarrow> bin_eq dia t u \<Longrightarrow> bin_eq dia s u"
    and ping_data: "db_of (snd (api_ping api d)) = db_of d"
    and close_data: "db_of (api_close api d) = db_of d"
    and init_data: "db_of (snd (api_init api d)) = db_of d"
    and connect_data: "db_of (snd (api_connect api d h p n)) = db_of d"
    and set_utf8_data: "db_of (snd (api_set_utf8 api d)) = db_of d"

locale mysql_up = mysql_server +
  assumes query_up: "stmt_in_scope st \<Longrightarrow> api_query api d st = (r, d') \<Longrightarrow>
        (r, db_of d') = sql_exec dia st (db_of d)"

section \<open>Lemmas on the statements\<close>

declare sql_exec.simps [simp del]

lemma sql_min_Min: "ks \<noteq> [] \<Longrightarrow> sql_min ks = Min (set ks)"
proof -
  have "foldr min xs x = Min (insert x (set xs))" for xs :: "int list" and x
    by (induction xs) (auto simp: insert_commute min.left_commute)
  then show "ks \<noteq> [] \<Longrightarrow> sql_min ks = Min (set ks)"
    by (cases ks) (simp_all add: sql_min_def)
qed

lemma sql_max_Max: "ks \<noteq> [] \<Longrightarrow> sql_max ks = Max (set ks)"
proof -
  have "foldr max xs x = Max (insert x (set xs))" for xs :: "int list" and x
    by (induction xs) (auto simp: insert_commute max.left_commute)
  then show "ks \<noteq> [] \<Longrightarrow> sql_max ks = Max (set ks)"
    by (cases ks) (simp_all add: sql_max_def)
qed

lemma lit_ok_plain_Cons: "c \<noteq> CHR 0x5C \<Longrightarrow> c \<noteq> CHR 0x27 \<Longrightarrow> lit_ok (c # s) = lit_ok s"
  by (cases s) simp_all

lemma lit_ok_append: "lit_ok s \<Longrightarrow> lit_ok (s @ t) = lit_ok t"
proof (induction s rule: lit_ok.induct)
  case (2 c)
  then show ?case by (simp add: lit_ok_plain_Cons)
qed (auto split: if_splits)

lemma lit_ok_plain: "plain_text s \<Longrightarrow> lit_ok s"
  by (induction s) (auto simp: plain_text_def lit_ok_plain_Cons)

lemma ident_append: "ident s \<Longrightarrow> ident t \<Longrightarrow> ident (s @ t)"
  by (auto simp: ident_def)

lemma ident_nonempty: "ident s \<Longrightarrow> s \<noteq> []"
  by (simp add: ident_def)

lemma snd_update_where: "snd (update_where P f rows) = map (\<lambda>r. if P r then f r else r) rows"
  by (simp add: update_where_def)

lemma map_key_update_where:
  "(\<And>r. P r \<Longrightarrow> key (f r) = key r) \<Longrightarrow> map key (snd (update_where P f rows)) = map key rows"
  by (induction rows) (auto simp: update_where_def)

lemma update_where_one:
  assumes "distinct (map key rows)" and "r \<in> set rows" and "key r = k" and "f r \<noteq> r"
  shows "fst (update_where (\<lambda>x. key x = k) f rows) = 1"
proof -
  have "filter (\<lambda>x. key x = k \<and> f x \<noteq> x) rows = filter (\<lambda>x. key x = k) rows"
    using assms distinct_map_same [OF assms(1)] by (intro filter_cong) auto
  also have "\<dots> = [r]"
    using filter_single [OF assms(1,2)] assms(3) by simp
  finally show ?thesis by (simp add: update_where_def)
qed

section \<open>A concrete engine\<close>

text \<open>\<^verbatim>\<open>mysql_escape_string\<close> as documented, and the reading of the escapes it writes.\<close>

definition esc_char :: "char \<Rightarrow> string" where
  "esc_char c =
     (if c = NUL then [CHR 0x5C, CHR ''0'']
      else if c = CHR 0x0A then [CHR 0x5C, CHR ''n'']
      else if c = CHR 0x0D then [CHR 0x5C, CHR ''r'']
      else if c = CHR 0x1A then [CHR 0x5C, CHR ''Z'']
      else if c \<in> {CHR 0x5C, CHR 0x27, CHR 0x22} then [CHR 0x5C, c]
      else [c])"

definition ref_escape :: "string \<Rightarrow> string" where
  "ref_escape s = concat (map esc_char s)"

definition unesc_char :: "char \<Rightarrow> char" where
  "unesc_char c =
     (if c = CHR ''0'' then NUL else if c = CHR ''n'' then CHR 0x0A
      else if c = CHR ''r'' then CHR 0x0D else if c = CHR ''Z'' then CHR 0x1A else c)"

fun ref_lit :: "string \<Rightarrow> string" where
  "ref_lit [] = []"
| "ref_lit [c] = [c]"
| "ref_lit (c # e # cs) =
     (if c = CHR 0x5C then unesc_char e # ref_lit cs else c # ref_lit (e # cs))"

fun ref_like :: "string \<Rightarrow> string \<Rightarrow> bool" where
  "ref_like [] s \<longleftrightarrow> s = []"
| "ref_like (p # ps) [] \<longleftrightarrow> p = CHR ''%'' \<and> ref_like ps []"
| "ref_like (p # ps) (c # cs) \<longleftrightarrow>
     (if p = CHR ''%'' then ref_like ps (c # cs) \<or> ref_like (p # ps) cs
      else (p = CHR ''_'' \<or> p = c) \<and> ref_like ps cs)"

definition ref_dialect :: dialect where
  "ref_dialect = \<lparr>lit = ref_lit, str_eq = (=), str_like = ref_like, bin_eq = (=)\<rparr>"

record ref_db =
  rdb :: database
  faults :: "bool list"
  last_errno :: int

definition ref_query :: "ref_db \<Rightarrow> stmt \<Rightarrow> reply \<times> ref_db" where
  "ref_query d st =
     (if faults d \<noteq> [] \<and> hd (faults d)
      then (Q_err 2006, d\<lparr>faults := tl (faults d), last_errno := 2006\<rparr>)
      else (case sql_exec ref_dialect st (rdb d) of (r, d') \<Rightarrow>
        (r, d\<lparr>rdb := d', faults := tl (faults d),
              last_errno := (case r of Q_err e \<Rightarrow> e | _ \<Rightarrow> 0)\<rparr>)))"

definition ref_api :: "ref_db mysql_api" where
  "ref_api = \<lparr>api_query = ref_query, api_errno = last_errno, api_escape = ref_escape,
     api_ping = (\<lambda>d. (True, d\<lparr>last_errno := 0\<rparr>)), api_close = (\<lambda>d. d),
     api_init = (\<lambda>d. (True, d\<lparr>last_errno := 0\<rparr>)),
     api_connect = (\<lambda>d h p n. (True, d\<lparr>last_errno := 0\<rparr>)),
     api_set_utf8 = (\<lambda>d. (True, d))\<rparr>"

lemma ref_lit_esc_char: "ref_lit (esc_char c @ s) = c # ref_lit s"
  by (cases s) (auto simp: esc_char_def unesc_char_def)

lemma ref_lit_escape_append: "ref_lit (ref_escape s @ t) = s @ ref_lit t"
  by (induction s) (simp_all add: ref_escape_def ref_lit_esc_char)

lemma ref_lit_plain_Cons: "c \<noteq> CHR 0x5C \<Longrightarrow> ref_lit (c # s) = c # ref_lit s"
  by (cases s) simp_all

lemma ref_lit_plain: "CHR 0x5C \<notin> set s \<Longrightarrow> ref_lit s = s"
  by (induction s) (auto simp: ref_lit_plain_Cons)

lemma lit_ok_esc_char: "lit_ok (esc_char c)"
  by (auto simp: esc_char_def)

lemma lit_ok_ref_escape: "lit_ok (ref_escape s)"
  by (induction s) (simp_all add: ref_escape_def lit_ok_append lit_ok_esc_char)

lemma length_ref_escape: "length (ref_escape s) \<le> 2 * length s"
  by (induction s) (auto simp: ref_escape_def esc_char_def)

lemma ref_like_any: "ref_like ''%%'' s"
  by (induction s) auto

interpretation ref: mysql_server ref_api ref_dialect rdb
proof unfold_locales
  fix st d r d'
  assume "stmt_in_scope st" and "api_query ref_api d st = (r, d')"
  then show "is_err r \<and> rdb d' = rdb d \<or> (r, rdb d') = sql_exec ref_dialect st (rdb d)"
    by (auto simp: ref_api_def ref_query_def split: if_splits prod.splits)
next
  fix st d r d'
  assume "api_query ref_api d st = (r, d')" and "\<not> is_err r"
  then show "api_errno ref_api d' = 0"
    by (auto simp: ref_api_def ref_query_def split: if_splits prod.splits reply.splits)
next
  fix s
  show "lit ref_dialect (api_escape ref_api s) = s"
    using ref_lit_escape_append [of s "[]"] by (simp add: ref_dialect_def ref_api_def)
next
  fix s
  show "lit ref_dialect (''%'' @ api_escape ref_api s @ ''%'') = ''%'' @ s @ ''%''"
    by (simp add: ref_dialect_def ref_api_def ref_lit_plain_Cons ref_lit_escape_append)
qed (auto simp: ref_dialect_def ref_api_def ref_lit_plain plain_text_def length_ref_escape ref_like_any
    lit_ok_ref_escape)

text \<open>The same engine with no fault script.\<close>

definition ref_up_api :: "ref_db mysql_api" where
  "ref_up_api = ref_api\<lparr>api_query := (\<lambda>d. ref_query (d\<lparr>faults := []\<rparr>))\<rparr>"

interpretation up: mysql_up ref_up_api ref_dialect rdb
proof unfold_locales
  fix st d r d'
  assume "api_query ref_up_api d st = (r, d')"
  then show "is_err r \<and> rdb d' = rdb d \<or> (r, rdb d') = sql_exec ref_dialect st (rdb d)"
    and "(r, rdb d') = sql_exec ref_dialect st (rdb d)"
    by (auto simp: ref_up_api_def ref_query_def split: prod.splits)
next
  fix st d r d'
  assume "api_query ref_up_api d st = (r, d')" and "\<not> is_err r"
  then show "api_errno ref_up_api d' = 0"
    by (auto simp: ref_up_api_def ref_api_def ref_query_def split: prod.splits reply.splits)
next
  fix s
  show "lit ref_dialect (''%'' @ api_escape ref_up_api s @ ''%'') = ''%'' @ s @ ''%''"
    using ref.lit_like [of s] by (simp add: ref_up_api_def ref_api_def)
next
  fix s
  show "lit ref_dialect (api_escape ref_up_api s) = s"
    using ref.lit_escape [of s] by (simp add: ref_up_api_def ref_api_def)
qed (auto simp: ref_up_api_def ref_dialect_def ref_api_def ref_lit_plain plain_text_def
      length_ref_escape ref_like_any lit_ok_ref_escape)

end
