(* ===== verification/Srvdb_Conn.thy ===== *)
theory Srvdb_Conn
  imports Mysql
begin

text \<open>
  The connection part of \<^verbatim>\<open>bsdqserver/srvdb.c\<close>: the file's global variables as the record
  \<open>srv\<close> (connection, stored result set with its counters, remembered credentials), opening and
  closing, the reconnection policy after a failed statement, and \<^verbatim>\<open>get_simple_result\<close>.  The
  lemmas say that a statement changes the stored data only as documented and that the
  reconnection path never touches it.
\<close>

record 'db srv =
  my_connection :: "'db"
  res_ptr :: "string option list list option"
  res_fields :: int
  res_rows :: int
  info_flag :: bool
  my_port :: int
  my_hostname :: string
  my_password :: string

definition srvdb_init :: "'db mysql_api \<Rightarrow> 'db srv \<Rightarrow> bool \<times> 'db srv" where
  "srvdb_init api s =
     (case api_init api (my_connection s) of (ok, d) \<Rightarrow> (ok, s\<lparr>my_connection := d\<rparr>))"

definition srvdb_close :: "'db mysql_api \<Rightarrow> 'db srv \<Rightarrow> 'db srv" where
  "srvdb_close api s = s\<lparr>my_connection := api_close api (my_connection s)\<rparr>"

text \<open>The credentials are stored by the first call only; \<^verbatim>\<open>strncpy\<close> keeps 31 and
  \<^verbatim>\<open>MYSQL_PW_LEN\<close> bytes.  A failure to select utf8 is not an error.\<close>

definition srvdb_connect :: "'db mysql_api \<Rightarrow> string \<Rightarrow> string \<Rightarrow> int \<Rightarrow> 'db srv \<Rightarrow> bool \<times> 'db srv" where
  "srvdb_connect api hostname password port s =
     (let s1 = (if \<not> info_flag s then
                  s\<lparr>my_port := port, my_hostname := take 31 hostname,
                    my_password := take MYSQL_PW_LEN password, info_flag := True\<rparr> else s)
      in case api_connect api (my_connection s1) hostname password port of (ok, d) \<Rightarrow>
           if \<not> ok then (False, s1\<lparr>my_connection := d\<rparr>)
           else (True, s1\<lparr>my_connection := snd (api_set_utf8 api d)\<rparr>))"

definition mysql_reconnect :: "'db mysql_api \<Rightarrow> 'db srv \<Rightarrow> bool \<times> 'db srv" where
  "mysql_reconnect api s =
     (case srvdb_init api (srvdb_close api s) of (ok, s1) \<Rightarrow>
        if ok then srvdb_connect api (my_hostname s1) (my_password s1) (my_port s1) s1
        else (False, s1))"

definition mysql_check_connection :: "'db mysql_api \<Rightarrow> 'db srv \<Rightarrow> 'db srv" where
  "mysql_check_connection api s =
     (if api_errno api (my_connection s) = 2006 \<or> api_errno api (my_connection s) = 2003 then
        (case api_ping api (my_connection s) of (alive, d) \<Rightarrow>
           let s1 = s\<lparr>my_connection := d\<rparr> in
           if \<not> alive then snd (mysql_reconnect api s1) else s1)
      else s)"

text \<open>\<^verbatim>\<open>mysql_query(&my_connection, is)\<close>\<close>

definition mysql_query :: "'db mysql_api \<Rightarrow> 'db srv \<Rightarrow> stmt \<Rightarrow> reply \<times> 'db srv" where
  "mysql_query api s st =
     (case api_query api (my_connection s) st of (r, d) \<Rightarrow> (r, s\<lparr>my_connection := d\<rparr>))"

text \<open>The first cell of the first row, if there is one and it is not \<^verbatim>\<open>NULL\<close>.\<close>

fun get_simple_result :: "reply \<Rightarrow> string option" where
  "get_simple_result (Q_rows n ((Some c # cs) # rows)) = Some c"
| "get_simple_result _ = None"

definition srvdb_free_result :: "'db srv \<Rightarrow> 'db srv" where
  "srvdb_free_result s = s\<lparr>res_ptr := None, res_fields := 0, res_rows := 0\<rparr>"

text \<open>\<^verbatim>\<open>mysql_store_result\<close> with the bookkeeping both \<^verbatim>\<open>find\<close> functions do: \<^const>\<open>None\<close> when the
  statement produced no result set.\<close>

definition store_result :: "reply \<Rightarrow> 'db srv \<Rightarrow> (int \<times> 'db srv) option" where
  "store_result r s = (case r of
       Q_rows n rows \<Rightarrow> Some (int (length rows),
         s\<lparr>res_ptr := Some rows, res_rows := int (length rows), res_fields := int n\<rparr>)
     | _ \<Rightarrow> None)"

lemma res_of_srvdb_connect [simp]:
  "res_ptr (snd (srvdb_connect api h p n s)) = res_ptr s"
  "res_fields (snd (srvdb_connect api h p n s)) = res_fields s"
  "res_rows (snd (srvdb_connect api h p n s)) = res_rows s"
  by (simp_all add: srvdb_connect_def Let_def split: prod.splits)

lemma res_of_mysql_reconnect [simp]:
  "res_ptr (snd (mysql_reconnect api s)) = res_ptr s"
  "res_fields (snd (mysql_reconnect api s)) = res_fields s"
  "res_rows (snd (mysql_reconnect api s)) = res_rows s"
  by (auto simp: mysql_reconnect_def srvdb_init_def srvdb_close_def split: prod.splits)

lemma res_of_check_connection [simp]:
  "res_ptr (mysql_check_connection api s) = res_ptr s"
  "res_fields (mysql_check_connection api s) = res_fields s"
  "res_rows (mysql_check_connection api s) = res_rows s"
  by (simp_all add: mysql_check_connection_def Let_def split: prod.splits)

lemma res_of_mysql_query:
  "mysql_query api s st = (r, s') \<Longrightarrow>
     res_ptr s' = res_ptr s \<and> res_fields s' = res_fields s \<and> res_rows s' = res_rows s"
  by (auto simp: mysql_query_def split: prod.splits)

lemma info_of_srvdb_connect:
  "info_flag s \<Longrightarrow> my_hostname (snd (srvdb_connect api h p n s)) = my_hostname s
     \<and> my_password (snd (srvdb_connect api h p n s)) = my_password s
     \<and> my_port (snd (srvdb_connect api h p n s)) = my_port s
     \<and> info_flag (snd (srvdb_connect api h p n s))"
  by (simp add: srvdb_connect_def Let_def split: prod.splits)

text \<open>The tables behind the connection.\<close>

definition srv_data :: "('db \<Rightarrow> database) \<Rightarrow> 'db srv \<Rightarrow> database" where
  "srv_data db_of s = db_of (my_connection s)"

context mysql_server
begin

abbreviation data :: "'db srv \<Rightarrow> database" where
  "data s \<equiv> srv_data db_of s"

lemmas data_def = srv_data_def [of db_of]

lemma data_set_conn [simp]: "data (s\<lparr>my_connection := d\<rparr>) = db_of d"
  by (simp add: data_def)

lemma data_results [simp]:
  "data (s\<lparr>res_ptr := x\<rparr>) = data s" "data (s\<lparr>res_rows := n\<rparr>) = data s"
  "data (s\<lparr>res_fields := n\<rparr>) = data s"
  by (simp_all add: data_def)

lemma data_free_result [simp]: "data (srvdb_free_result s) = data s"
  by (simp add: srvdb_free_result_def)

lemma data_connect [simp]: "data (snd (srvdb_connect api h p n s)) = data s"
proof -
  obtain ok d where c: "api_connect api (my_connection s) h p n = (ok, d)"
    by (cases "api_connect api (my_connection s) h p n") auto
  then have "db_of d = db_of (my_connection s)"
    using connect_data [of "my_connection s" h p n] by simp
  with c show ?thesis
    by (simp add: srvdb_connect_def data_def set_utf8_data Let_def)
qed

lemma data_reconnect [simp]: "data (snd (mysql_reconnect api s)) = data s"
proof -
  obtain ok d where i: "api_init api (api_close api (my_connection s)) = (ok, d)"
    by (cases "api_init api (api_close api (my_connection s))") auto
  then have "db_of d = db_of (my_connection s)"
    using init_data [of "api_close api (my_connection s)"] by (simp add: close_data)
  with i show ?thesis
    by (simp add: mysql_reconnect_def srvdb_init_def srvdb_close_def) (simp add: data_def)
qed

lemma data_check_connection [simp]: "data (mysql_check_connection api s) = data s"
  using ping_data [of "my_connection s"]
  by (cases "api_ping api (my_connection s)")
     (simp add: mysql_check_connection_def data_def [symmetric] Let_def)

text \<open>What a statement does, as the handlers' proofs use it.\<close>

lemma query_cases [consumes 2]:
  assumes "stmt_in_scope st" and "mysql_query api s st = (r, s')"
  obtains (err) "is_err r" "data s' = data s"
    | (ran) "(r, data s') = sql_exec dia st (data s)"
  using assms query_exec [of st "my_connection s"]
  by (auto simp: mysql_query_def data_def split: prod.splits)

end

context mysql_up
begin

lemma query_runs:
  "mysql_query api s st = (r, s') \<Longrightarrow> stmt_in_scope st \<Longrightarrow> (r, data s') = sql_exec dia st (data s)"
  using query_up [of st "my_connection s"]
  by (auto simp: mysql_query_def data_def split: prod.splits)

end

end
