(* ===== verification/Numbered.thy ===== *)
theory Numbered
  imports Prelude
begin

text \<open>
  Tables whose rows carry a number, as the server keeps its books and its shelves: rows are never
  taken out but marked as deleted, a new entry takes over the smallest deleted number and only then
  the next unused one.  The locale \<open>numbered_table\<close> states what such a table is, over the row's key,
  its deletion mark and its value: \<open>row\<close> finds a row by number, \<open>live\<close> is the table's meaning (the
  entries that are not deleted, by number), \<open>gone\<close> the deleted numbers and \<open>ok\<close> the invariant that the
  numbers are 1, 2, ... without gaps and at most \<open>cap\<close>.  Its lemmas say how \<open>live\<close> changes when a row is
  overwritten or appended, and that the number the code picks is the smallest free one.
\<close>

text \<open>The smallest number an entry can get, read off the meaning of the table alone.\<close>

definition free_number :: "(int \<rightharpoonup> 'e) \<Rightarrow> int" where
  "free_number cat = int (LEAST k. 1 \<le> k \<and> int k \<notin> dom cat)"

lemma free_number_eq:
  assumes "1 \<le> n" and "n \<notin> dom cat" and "\<And>k. 1 \<le> k \<Longrightarrow> k < n \<Longrightarrow> k \<in> dom cat"
  shows "free_number cat = n"
proof -
  have "(LEAST k. 1 \<le> k \<and> int k \<notin> dom cat) = nat n"
  proof (rule Least_equality)
    show "1 \<le> nat n \<and> int (nat n) \<notin> dom cat" using assms(1,2) by auto
    fix y assume "1 \<le> y \<and> int y \<notin> dom cat"
    then have "\<not> int y < n" using assms(3) [of "int y"] by auto
    then show "nat n \<le> y" by simp
  qed
  with assms(1) show ?thesis by (simp add: free_number_def)
qed

locale numbered_table =
  fixes key :: "'r \<Rightarrow> int"
    and dead :: "'r \<Rightarrow> bool"
    and val :: "'r \<Rightarrow> 'v"
    and cap :: int
    and row :: "'r list \<Rightarrow> int \<Rightarrow> 'r option"
    and live :: "'r list \<Rightarrow> int \<rightharpoonup> 'v"
    and gone :: "'r list \<Rightarrow> int set"
    and ok :: "'r list \<Rightarrow> bool"
  assumes row_eq: "row rows n = find (\<lambda>r. key r = n) rows"
    and live_eq: "live rows n = (case row rows n of None \<Rightarrow> None
          | Some r \<Rightarrow> if dead r then None else Some (val r))"
    and gone_eq: "gone rows = key ` {r \<in> set rows. dead r}"
    and ok_keys: "ok rows \<Longrightarrow> distinct (map key rows) \<and> key ` set rows = {1..int (length rows)}
          \<and> int (length rows) \<le> cap"
begin

lemma row_map:
  assumes "\<And>r. P r \<Longrightarrow> key (f r) = key r"
  shows "row (map (\<lambda>r. if P r then f r else r) rows) n
    = map_option (\<lambda>r. if P r then f r else r) (row rows n)"
  using assms by (induction rows) (auto simp: row_eq)

lemma row_append: "row (rows @ [new]) n = (case row rows n of Some r \<Rightarrow> Some r
    | None \<Rightarrow> if key new = n then Some new else None)"
  by (induction rows) (auto simp: row_eq)

lemma row_SomeD: "row rows n = Some r \<Longrightarrow> r \<in> set rows \<and> key r = n"
  by (auto simp: row_eq find_Some_iff)

lemma row_None: "row rows n = None \<longleftrightarrow> n \<notin> key ` set rows"
  by (auto simp: row_eq find_None_iff)

lemma row_Some: "distinct (map key rows) \<Longrightarrow> r \<in> set rows \<Longrightarrow> row rows (key r) = Some r"
  using row_SomeD [of rows "key r"] row_None [of rows "key r"]
  by (cases "row rows (key r)") (auto dest: distinct_map_same)

lemma live_Some:
  "ok rows \<Longrightarrow> live rows n = Some v \<longleftrightarrow> (\<exists>r \<in> set rows. key r = n \<and> \<not> dead r \<and> v = val r)"
  by (auto simp: live_eq row_Some split: option.splits if_splits dest: row_SomeD ok_keys)

lemma dom_live_row: "ok rows \<Longrightarrow> n \<in> dom (live rows) \<longleftrightarrow> (\<exists>r \<in> set rows. key r = n \<and> \<not> dead r)"
  by (auto simp: dom_def live_Some)

lemma live_map:
  assumes "\<And>r. P r \<Longrightarrow> key (f r) = key r"
  shows "live (map (\<lambda>r. if P r then f r else r) rows) n = (case row rows n of None \<Rightarrow> None
    | Some r \<Rightarrow> let r' = (if P r then f r else r) in if dead r' then None else Some (val r'))"
  using row_map [of P f, OF assms] by (auto simp: live_eq Let_def split: option.splits)

lemma live_set_row:
  assumes "key new = n" and "row rows n \<noteq> None" and "\<not> dead new"
  shows "live (map (\<lambda>r. if key r = n then new else r) rows) = (live rows)(n \<mapsto> val new)"
  by (rule ext, subst live_map) (use assms in \<open>auto simp: live_eq Let_def split: option.splits dest: row_SomeD\<close>)

lemma live_append:
  assumes "key new \<notin> key ` set rows" and "\<not> dead new"
  shows "live (rows @ [new]) = (live rows)(key new \<mapsto> val new)"
  using assms row_None [of rows "key new"]
  by (auto simp: fun_eq_iff live_eq row_append split: option.splits)

lemma set_row_absent:
  "n \<notin> key ` set rows \<Longrightarrow> map (\<lambda>r. if key r = n then new else r) rows = rows"
  by (rule map_idI) auto

lemma keys_map:
  assumes "\<And>r. P r \<Longrightarrow> key (f r) = key r"
  shows "map key (map (\<lambda>r. if P r then f r else r) rows) = map key rows"
    and "key ` set (map (\<lambda>r. if P r then f r else r) rows) = key ` set rows"
proof -
  show "map key (map (\<lambda>r. if P r then f r else r) rows) = map key rows" using assms by simp
  then show "key ` set (map (\<lambda>r. if P r then f r else r) rows) = key ` set rows"
    by (metis list.set_map)
qed

lemma dom_live:
  assumes "ok rows"
  shows "dom (live rows) = {1..int (length rows)} - gone rows"
proof -
  have "n \<in> dom (live rows) \<longleftrightarrow> n \<in> key ` set rows - gone rows" for n
  proof (cases "row rows n")
    case None
    then have "live rows n = None" by (simp add: live_eq)
    with None show ?thesis by (auto simp: row_None)
  next
    case (Some r)
    then have r: "r \<in> set rows" "key r = n" by (auto dest: row_SomeD)
    have "n \<in> gone rows \<longleftrightarrow> dead r"
      using ok_keys [OF assms] r by (auto simp: gone_eq dest: distinct_map_same)
    moreover have "n \<in> dom (live rows) \<longleftrightarrow> \<not> dead r"
      using Some by (simp add: live_eq domIff)
    ultimately show ?thesis using r by auto
  qed
  then have "dom (live rows) = key ` set rows - gone rows" by blast
  with ok_keys [OF assms] show ?thesis by simp
qed

lemma finite_gone [simp]: "finite (gone rows)"
  by (simp add: gone_eq)

lemma key_bounds:
  assumes "ok rows" and "r \<in> set rows"
  shows "1 \<le> key r" and "key r \<le> int (length rows)"
proof -
  have "key r \<in> {1..int (length rows)}"
    using assms by (metis ok_keys imageI)
  then show "1 \<le> key r" and "key r \<le> int (length rows)" by simp_all
qed

lemma gone_le: "ok rows \<Longrightarrow> n \<in> gone rows \<Longrightarrow> n \<in> {1..int (length rows)}"
  using key_bounds by (auto simp: gone_eq)

lemma gone_live: "n \<in> gone rows \<Longrightarrow> ok rows \<Longrightarrow> n \<notin> dom (live rows)"
  by (simp add: dom_live)

lemma fresh_key: "ok rows \<Longrightarrow> int (length rows) + 1 \<notin> key ` set rows"
  using ok_keys by simp

lemma Max_key: "ok rows \<Longrightarrow> rows \<noteq> [] \<Longrightarrow> Max (key ` set rows) = int (length rows)"
proof -
  assume ok: "ok rows" and "rows \<noteq> []"
  then have "1 \<le> int (length rows)" by (cases rows) auto
  then have "Max {1..int (length rows)} = int (length rows)"
    by (intro Max_eqI) auto
  with ok_keys [OF ok] show ?thesis by metis
qed

lemma free_gone:
  assumes "ok rows" and "gone rows \<noteq> {}"
  shows "free_number (live rows) = Min (gone rows)"
proof (rule free_number_eq)
  have mem: "Min (gone rows) \<in> gone rows"
    using assms(2) finite_gone by (intro Min_in) auto
  from gone_le [OF assms(1) mem] show "1 \<le> Min (gone rows)" by simp
  from mem show "Min (gone rows) \<notin> dom (live rows)"
    by (simp add: dom_live [OF assms(1)])
  fix k assume "1 \<le> k" "k < Min (gone rows)"
  moreover from this have "k \<notin> gone rows"
    by (meson Min_le finite_gone leD)
  ultimately show "k \<in> dom (live rows)"
    using gone_le [OF assms(1) mem] by (simp add: dom_live [OF assms(1)])
qed

lemma free_next:
  assumes "ok rows" and "gone rows = {}"
  shows "free_number (live rows) = int (length rows) + 1"
  using assms by (intro free_number_eq) (auto simp: dom_live)

lemma free_le:
  assumes "ok rows"
  shows "free_number (live rows) \<le> cap \<longleftrightarrow> int (card (dom (live rows))) < cap"
proof (cases "gone rows = {}")
  case True
  have "free_number (live rows) = int (length rows) + 1" and "card (dom (live rows)) = length rows"
    using True by (simp_all add: free_next [OF assms] dom_live [OF assms])
  then show ?thesis by auto
next
  case False
  let ?D = "gone rows"
  from False have mem: "Min ?D \<in> ?D" using finite_gone by (intro Min_in) auto
  have "card ({1..int (length rows)} - ?D) < card {1..int (length rows)}"
  proof (rule psubset_card_mono)
    show "{1..int (length rows)} - ?D \<subset> {1..int (length rows)}"
      using mem gone_le [OF assms mem] by blast
  qed simp
  then have "card (dom (live rows)) < length rows"
    by (simp add: dom_live [OF assms])
  moreover have "int (length rows) \<le> cap" using ok_keys [OF assms] by simp
  moreover have "Min ?D \<le> int (length rows)" using gone_le [OF assms mem] by simp
  moreover have "free_number (live rows) = Min ?D" by (rule free_gone [OF assms False])
  ultimately show ?thesis by linarith
qed

end

end
