(* ===== verification/Srvdb_Book.thy ===== *)
theory Srvdb_Book
  imports Srvdb_Conn Numbered
begin

text \<open>
  The book operations of \<^verbatim>\<open>bsdqserver/srvdb.c\<close>: insert, delete, update, find, fetch and count.
  Each operation takes the library, the server's globals and the message, and returns what the C
  function returns (\<^const>\<open>True\<close> for 1), the message it leaves behind and the new globals.
  \<open>srvdb_book_find\<close> and \<open>srvdb_book_count\<close> return \<^const>\<open>None\<close> where the C code has undefined
  behaviour (an empty search field makes \<^verbatim>\<open>strlen(...)-1\<close> wrap around).

  The table's invariant is \<open>books_ok\<close> (distinct numbers in 1..10000 and a known state), its
  meaning the catalogue \<open>catalog\<close>: the books that are not deleted, by number, each with its state
  (on a shelf or unsorted) and its entry.  The lemmas of the locales give the effect of every
  operation on the catalogue.
\<close>

section \<open>Error texts\<close>

text \<open>The texts the server writes into \<^verbatim>\<open>error_text\<close>, in UTF-8.\<close>

definition err_book_limit :: string where
  "err_book_limit = utf8 [228, 184, 138, 230, 158, 182, 229, 164, 177, 232, 180, 165, 58, 229, 155,
     190, 228, 185, 166, 230, 149, 176, 233, 135, 143, 232, 190, 190, 229, 136, 176, 228, 184, 138,
     233, 153, 144]"

definition err_book_insert :: string where
  "err_book_insert = utf8 [228, 184, 138, 230, 158, 182, 229, 155, 190, 228, 185, 166, 229, 164,
     177, 232, 180, 165, 46, 46, 46]"

section \<open>Insertion\<close>

definition book_table :: "message_cs \<Rightarrow> string" where
  "book_table m = m_user m @ ''_books''"

definition book_args :: "'db mysql_api \<Rightarrow> book_entry \<Rightarrow> int \<Rightarrow> book_sql" where
  "book_args api b n = \<lparr>q_shelfno = code0 b, q_floorno = code1 b, q_bookno = n,
     q_name = api_escape api (b_name b), q_author = api_escape api (b_author b),
     q_label = api_escape api (b_label b), q_borrowed = borrowed b, q_on_reading = on_reading b,
     q_cleaned = BOOK_AVL, q_encoding_time = encoding_time b\<rparr>"

text \<open>First try: take over the smallest deleted number.  The first component is the number when
  the function returns here, the second is \<^verbatim>\<open>bookno_used\<close> otherwise.\<close>

definition book_insert_reuse :: "'db mysql_api \<Rightarrow> message_cs \<Rightarrow> 'db srv \<Rightarrow> int option \<times> int \<times> 'db srv" where
  "book_insert_reuse api m s =
     (case mysql_query api s (Select_min_bookno (book_table m) BOOK_DEL) of (r, s1) \<Rightarrow>
        if is_err r then (None, 0, mysql_check_connection api s1)
        else (case get_simple_result r of
            None \<Rightarrow> (None, 0, s1)
          | Some t \<Rightarrow>
              if t = '''' then (None, 0, s1)
              else (let n = sscanf_d t 0 in
                case mysql_query api s1 (Update_book_reuse (book_table m) (book_args api (book_of m) n))
                of (r2, s2) \<Rightarrow>
                  if is_err r2 then (None, n, mysql_check_connection api s2)
                  else if r2 = Q_ok 1 then (Some n, n, s2)
                  else (None, n, s2))))"

text \<open>Second try: one more than the largest number, unless that reached the limit.\<close>

definition book_insert_number :: "'db mysql_api \<Rightarrow> int \<Rightarrow> message_cs \<Rightarrow> 'db srv
    \<Rightarrow> (message_cs \<times> 'db srv) + (int \<times> message_cs \<times> 'db srv)" where
  "book_insert_number api used m s =
     (case mysql_query api s (Select_max_bookno (book_table m)) of (r, s1) \<Rightarrow>
        if is_err r then Inl (m, mysql_check_connection api s1)
        else (case get_simple_result r of
            None \<Rightarrow> Inr (1, set_book ((book_of m)\<lparr>code2 := 1\<rparr>) m, s1)
          | Some t \<Rightarrow>
              if t = '''' then Inr (used, m, s1)
              else (let n = sscanf_d t used in
                if MAX_BOOK_NUM \<le> n then Inl (m\<lparr>m_error_text := err_book_limit\<rparr>, s1)
                else Inr (n + 1, set_book ((book_of m)\<lparr>code2 := n + 1\<rparr>) m, s1))))"

definition srvdb_book_insert :: "'db mysql_api \<Rightarrow> 'db srv \<Rightarrow> message_cs \<Rightarrow> bool \<times> message_cs \<times> 'db srv" where
  "srvdb_book_insert api s m =
     (if m_user m = '''' then (False, m, s)
      else case book_insert_reuse api m s of
        (Some n, _, s1) \<Rightarrow> (True, set_book ((book_of m)\<lparr>code2 := n\<rparr>) m, s1)
      | (None, used, s1) \<Rightarrow>
          (case book_insert_number api used m s1 of
             Inl (m2, s2) \<Rightarrow> (False, m2, s2)
           | Inr (n, m2, s2) \<Rightarrow>
               (case mysql_query api s2 (Insert_book (book_table m) (book_args api (book_of m) n))
                of (r, s3) \<Rightarrow>
                  if \<not> is_err r then (True, m2, s3)
                  else (False, m2\<lparr>m_error_text := err_book_insert\<rparr>, mysql_check_connection api s3))))"

section \<open>Deletion and update\<close>

definition book_delete_stmt :: "message_cs \<Rightarrow> stmt" where
  "book_delete_stmt m =
     (if code2 (book_of m) = NON_SENSE_INT \<and> code0 (book_of m) \<noteq> NON_SENSE_INT
      then Update_shelf_books_cleaned (book_table m) BOOK_DEL (code0 (book_of m))
      else Update_book_cleaned (book_table m) BOOK_DEL (code2 (book_of m)))"

definition srvdb_book_delete :: "'db mysql_api \<Rightarrow> 'db srv \<Rightarrow> message_cs \<Rightarrow> bool \<times> message_cs \<times> 'db srv" where
  "srvdb_book_delete api s m =
     (if m_user m = '''' then (False, m, s)
      else case mysql_query api s (book_delete_stmt m) of (r, s1) \<Rightarrow>
        if \<not> is_err r then (True, m, s1) else (False, m, mysql_check_connection api s1))"

definition book_update_stmt :: "'db mysql_api \<Rightarrow> message_cs \<Rightarrow> stmt" where
  "book_update_stmt api m =
     (if code2 (book_of m) = NON_SENSE_INT \<and> code0 (book_of m) \<noteq> NON_SENSE_INT
      then Update_shelf_books_cleaned (book_table m) BOOK_UNSORTED (code0 (book_of m))
      else Update_book (book_table m) (book_args api (book_of m) (code2 (book_of m))))"

definition srvdb_book_update :: "'db mysql_api \<Rightarrow> 'db srv \<Rightarrow> message_cs \<Rightarrow> bool \<times> message_cs \<times> 'db srv" where
  "srvdb_book_update api s m =
     (if m_user m = '''' then (False, m, s)
      else case mysql_query api s (book_update_stmt api m) of (r, s1) \<Rightarrow>
        if \<not> is_err r then (True, m, s1) else (False, m, mysql_check_connection api s1))"

section \<open>Searching\<close>

definition like_text :: "'db mysql_api \<Rightarrow> string \<Rightarrow> string" where
  "like_text api s = ''%'' @ api_escape api s @ ''%''"

definition name_cond_of :: "'db mysql_api \<Rightarrow> string \<Rightarrow> name_cond option" where
  "name_cond_of api s =
     (if hd s \<in> {CHR ''0'', CHR ''-'', CHR ''+''} then Some (Name_like (like_text api (tl s)))
      else if hd s = CHR ''='' then Some (Name_eq (api_escape api (tl s)))
      else None)"

definition field_cond_of :: "'db mysql_api \<Rightarrow> string \<Rightarrow> field_cond option" where
  "field_cond_of api s =
     (if hd s = CHR ''-'' then Some (Or_like (like_text api (tl s)))
      else if hd s \<in> {CHR ''0'', CHR ''+''} then Some (And_like (like_text api (tl s)))
      else if hd s = CHR ''='' then Some (And_eq (api_escape api (tl s)))
      else None)"

text \<open>What \<^verbatim>\<open>srvdb_book_find\<close> prepares: a statement with the flag that frees the result at once,
  a refused search format, or undefined behaviour on an empty field.\<close>

datatype find_plan = Find_undefined | Find_format_error | Find_stmt stmt bool

definition keyword_plan :: "'db mysql_api \<Rightarrow> book_entry \<Rightarrow> (name_cond \<Rightarrow> field_cond \<Rightarrow> field_cond \<Rightarrow> find_plan)
    \<Rightarrow> find_plan" where
  "keyword_plan api b k =
     (if b_name b = '''' then Find_undefined
      else case name_cond_of api (b_name b) of None \<Rightarrow> Find_format_error
      | Some n \<Rightarrow>
          if b_author b = '''' then Find_undefined
          else (case field_cond_of api (b_author b) of None \<Rightarrow> Find_format_error
          | Some a \<Rightarrow>
              if b_label b = '''' then Find_undefined
              else (case field_cond_of api (b_label b) of None \<Rightarrow> Find_format_error
              | Some l \<Rightarrow> k n a l)))"

definition book_find_plan :: "'db mysql_api \<Rightarrow> message_cs \<Rightarrow> find_plan" where
  "book_find_plan api m =
     (let b = book_of m; t = book_table m; shelfno = code0 b;
          symbol = (if shelfno = NON_SENSE_INT then CHR ''>'' else CHR ''='');
          count_only = (code2 b = BREAK_LIMIT_INT);
          start = (if count_only then NON_SENSE_INT else code2 b);
          limit = (if count_only then MAX_BOOK_NUM else DEFAULT_FINDS);
          select = (\<lambda>w. Find_stmt (Select_books (\<not> count_only) t w limit) count_only)
      in if borrowed b = FLAG_FIND_UNSORTED \<and> on_reading b = FLAG_FIND_UNSORTED
         then select (Where_unsorted symbol shelfno start)
         else if borrowed b = FLAG_BORROWED then select (Where_borrowed symbol shelfno start)
         else if on_reading b = FLAG_ON_READING then select (Where_on_reading symbol shelfno start)
         else if start \<noteq> NON_SENSE_INT \<and> start < 0
         then Find_stmt (Select_book_no (\<not> count_only) t (- start)) count_only
         else keyword_plan api b (\<lambda>n a l. select (Where_keyword symbol shelfno start
                (if code1 b \<noteq> NON_SENSE_INT \<and> shelfno \<noteq> NON_SENSE_INT then Some (code1 b) else None)
                n a l)))"

text \<open>The result of the call, \<^verbatim>\<open>*num_rows\<close> (0 where it is not written) and the globals.\<close>

definition srvdb_book_find :: "'db mysql_api \<Rightarrow> 'db srv \<Rightarrow> message_cs \<Rightarrow> (bool \<times> int \<times> 'db srv) option" where
  "srvdb_book_find api s m =
     (if m_user m = '''' then Some (False, 0, s)
      else case book_find_plan api m of
        Find_undefined \<Rightarrow> None
      | Find_format_error \<Rightarrow> Some (False, 0, s)
      | Find_stmt st autofree \<Rightarrow>
          (case mysql_query api s st of (r, s1) \<Rightarrow>
             if is_err r then Some (False, 0, mysql_check_connection api s1)
             else (case store_result r s1 of
                 None \<Rightarrow> Some (False, 0, s1\<lparr>res_ptr := None\<rparr>)
               | Some (n, s2) \<Rightarrow> Some (True, n, if autofree then srvdb_free_result s2 else s2))))"

text \<open>One row of the stored result.  \<open>FETCH_RESULT_UB\<close> stands for reading past the row's cells
  or through a \<^verbatim>\<open>NULL\<close> cell.\<close>

datatype fetch_result =
    FETCH_RESULT_ERR | FETCH_RESULT_CONT | FETCH_RESULT_END_MORE | FETCH_RESULT_END | FETCH_RESULT_UB

fun book_of_cells :: "string option list \<Rightarrow> book_entry \<Rightarrow> book_entry option" where
  "book_of_cells [Some a, Some b, Some c, Some n, Some w, Some l, Some f, Some g, _, Some t] e =
     Some \<lparr>code0 = sscanf_d a (code0 e), code1 = sscanf_d b (code1 e), code2 = sscanf_d c (code2 e),
       b_name = n, b_author = w, b_label = l,
       borrowed = (if f = [] then borrowed e else hd f),
       on_reading = (if g = [] then on_reading e else hd g), encoding_time = t\<rparr>"
| "book_of_cells _ e = None"

definition srvdb_book_fetch_result :: "'db mysql_api \<Rightarrow> 'db srv \<Rightarrow> message_cs
    \<Rightarrow> fetch_result \<times> message_cs \<times> 'db srv" where
  "srvdb_book_fetch_result api s m =
     (case res_ptr s of
        None \<Rightarrow> (FETCH_RESULT_END, m, s)
      | Some rows \<Rightarrow>
          (let s1 = s\<lparr>res_ptr := Some (tl rows)\<rparr> in
           if api_errno api (my_connection s) \<noteq> 0 then (FETCH_RESULT_ERR, m, srvdb_free_result s1)
           else (case rows of
               [] \<Rightarrow> if res_rows s = DEFAULT_FINDS then (FETCH_RESULT_END_MORE, m, s1)
                     else (FETCH_RESULT_END, m, srvdb_free_result s1)
             | row # _ \<Rightarrow>
                 (case book_of_cells row (book_of m) of
                    None \<Rightarrow> (FETCH_RESULT_UB, m, s1)
                  | Some b \<Rightarrow>
                      if res_fields s \<noteq> 10 then (FETCH_RESULT_ERR, set_book b m, srvdb_free_result s1)
                      else (FETCH_RESULT_CONT, set_book b m, s1)))))"

section \<open>Counting\<close>

definition put_book_count :: "book_count \<Rightarrow> message_cs \<Rightarrow> message_cs" where
  "put_book_count bc m = m\<lparr>m_extra_info :=
     [books_all bc, books_on_reading bc, books_borrowed bc, books_unsorted bc]
       @ drop 4 (m_extra_info m)\<rparr>"

text \<open>One \<^verbatim>\<open>srvdb_book_find\<close> of the counting function, with the early return when it fails.\<close>

definition count_step :: "'db mysql_api \<Rightarrow> 'db srv \<Rightarrow> message_cs
    \<Rightarrow> (int \<Rightarrow> 'db srv \<Rightarrow> (bool \<times> message_cs \<times> 'db srv) option)
    \<Rightarrow> (bool \<times> message_cs \<times> 'db srv) option" where
  "count_step api s m k =
     (case srvdb_book_find api s m of
        None \<Rightarrow> None
      | Some (ok, n, s1) \<Rightarrow> if ok then k n s1 else Some (False, m, s1))"

text \<open>The request as the function rewrites it for its four searches.\<close>

definition count_reading_msg :: "message_cs \<Rightarrow> message_cs" where
  "count_reading_msg m = set_book ((book_of m)\<lparr>code2 := BREAK_LIMIT_INT, on_reading := FLAG_ON_READING\<rparr>) m"

definition count_lent_msg :: "message_cs \<Rightarrow> message_cs" where
  "count_lent_msg m = set_book ((book_of m)\<lparr>on_reading := NUL, borrowed := FLAG_BORROWED\<rparr>) m"

definition count_unsorted_msg :: "message_cs \<Rightarrow> message_cs" where
  "count_unsorted_msg m = set_book ((book_of m)\<lparr>borrowed := FLAG_FIND_UNSORTED,
     on_reading := FLAG_FIND_UNSORTED\<rparr>) m"

definition count_avl_msg :: "message_cs \<Rightarrow> message_cs" where
  "count_avl_msg m = set_book ((book_of m)\<lparr>borrowed := NUL, on_reading := NUL, b_name := ''0'',
     b_author := ''0'', b_label := ''0''\<rparr>) m"

definition srvdb_book_count :: "'db mysql_api \<Rightarrow> 'db srv \<Rightarrow> message_cs
    \<Rightarrow> (bool \<times> message_cs \<times> 'db srv) option" where
  "srvdb_book_count api s m =
     (let m1 = count_reading_msg m; m2 = count_lent_msg m1; m3 = count_unsorted_msg m2;
          m4 = count_avl_msg m3
      in count_step api s m1 (\<lambda>reading s1.
         count_step api s1 m2 (\<lambda>lent s2.
         count_step api s2 m3 (\<lambda>unsorted s3.
         count_step api s3 m4 (\<lambda>avl s4.
           Some (True, put_book_count \<lparr>books_all = avl + unsorted, books_on_reading = reading,
                   books_borrowed = lent, books_unsorted = unsorted\<rparr> m4, s4))))))"

section \<open>The catalogue\<close>

definition book_entry_of :: "book_row \<Rightarrow> book_entry" where
  "book_entry_of r = \<lparr>code0 = r_shelfno r, code1 = r_floorno r, code2 = r_bookno r,
     b_name = r_name r, b_author = r_author r, b_label = r_label r, borrowed = r_borrowed r,
     on_reading = r_on_reading r, encoding_time = r_encoding_time r\<rparr>"

definition row_no :: "book_row list \<Rightarrow> int \<Rightarrow> book_row option" where
  "row_no rows n = find (\<lambda>r. r_bookno r = n) rows"

definition catalog :: "book_row list \<Rightarrow> int \<rightharpoonup> int \<times> book_entry" where
  "catalog rows n = (case row_no rows n of None \<Rightarrow> None
     | Some r \<Rightarrow> if r_cleaned r = BOOK_DEL then None else Some (r_cleaned r, book_entry_of r))"

definition books_ok :: "book_row list \<Rightarrow> bool" where
  "books_ok rows \<longleftrightarrow> distinct (map r_bookno rows) \<and> r_bookno ` set rows = {1..int (length rows)}
     \<and> int (length rows) \<le> MAX_BOOK_NUM
     \<and> (\<forall>r \<in> set rows. r_cleaned r \<in> {BOOK_AVL, BOOK_DEL, BOOK_UNSORTED})"

definition deleted_numbers :: "book_row list \<Rightarrow> int set" where
  "deleted_numbers rows = r_bookno ` {r \<in> set rows. r_cleaned r = BOOK_DEL}"

definition with_books :: "database \<Rightarrow> string \<Rightarrow> book_row list \<Rightarrow> database" where
  "with_books d t rows = d\<lparr>books := (books d)(t \<mapsto> rows)\<rparr>"

lemma books_with_books [simp]: "books (with_books d t rows) = (books d)(t \<mapsto> rows)"
  by (simp add: with_books_def)

lemma with_books_same: "books d t = Some rows \<Longrightarrow> with_books d t rows = d"
  by (cases d) (simp add: with_books_def fun_upd_idem)

lemma on_books_Some:
  "books d t = Some rows \<Longrightarrow> on_books t d f = (fst (f rows), with_books d t (snd (f rows)))"
  by (simp add: on_books_def with_books_def split: prod.splits)

interpretation bk: numbered_table r_bookno "\<lambda>r. r_cleaned r = BOOK_DEL" "\<lambda>r. (r_cleaned r, book_entry_of r)"
    MAX_BOOK_NUM row_no catalog deleted_numbers books_ok
  by unfold_locales (simp_all add: row_no_def catalog_def deleted_numbers_def books_ok_def)

lemma catalog_Some:
  "books_ok rows \<Longrightarrow> catalog rows n = Some (c, e) \<longleftrightarrow>
     (\<exists>r \<in> set rows. r_bookno r = n \<and> r_cleaned r = c \<and> c \<noteq> BOOK_DEL \<and> e = book_entry_of r)"
  by (auto simp: bk.live_Some)

lemma books_ok_map:
  assumes "books_ok rows" and "\<And>r. P r \<Longrightarrow> r_bookno (f r) = r_bookno r"
    and "\<And>r. P r \<Longrightarrow> r_cleaned (f r) \<in> {BOOK_AVL, BOOK_DEL, BOOK_UNSORTED}"
  shows "books_ok (map (\<lambda>r. if P r then f r else r) rows)"
proof -
  have "\<forall>r \<in> set (map (\<lambda>r. if P r then f r else r) rows). r_cleaned r \<in> {BOOK_AVL, BOOK_DEL, BOOK_UNSORTED}"
    using assms(1,3) unfolding books_ok_def by auto
  with bk.keys_map [of P f rows] assms(1,2) show ?thesis
    unfolding books_ok_def by (simp only: length_map simp_thms)
qed

lemma books_ok_append:
  assumes "books_ok rows" and "r_bookno new = int (length rows) + 1" and "r_bookno new \<le> MAX_BOOK_NUM"
    and "r_cleaned new \<in> {BOOK_AVL, BOOK_DEL, BOOK_UNSORTED}"
  shows "books_ok (rows @ [new])"
  using assms by (auto simp: books_ok_def)

lemma free_number_le:
  "books_ok rows \<Longrightarrow> free_number (catalog rows) \<le> MAX_BOOK_NUM \<longleftrightarrow> card (dom (catalog rows)) < 10000"
  using bk.free_le [of rows] by (simp add: limits)

section \<open>Requests\<close>

text \<open>What the code takes for granted of a request, since it pastes these parts into the statement
  as they are: the user's name is an identifier, the flags are digits and the time has no quotes.\<close>

definition book_req_ok :: "message_cs \<Rightarrow> bool" where
  "book_req_ok m \<longleftrightarrow> ident (m_user m) \<and> is_digit (borrowed (book_of m))
     \<and> is_digit (on_reading (book_of m)) \<and> plain_text (encoding_time (book_of m))"

lemma ident_book_table: "ident (m_user m) \<Longrightarrow> ident (book_table m)"
  by (auto simp: book_table_def ident_def is_digit_def)

lemma book_req_okD:
  assumes "book_req_ok m"
  shows "m_user m \<noteq> []" and "ident (m_user m)" and "ident (book_table m)"
    and "plain_text (encoding_time (book_of m))"
  using assms ident_book_table [of m] by (auto simp: book_req_ok_def ident_nonempty)

section \<open>Insertion: proofs\<close>

lemma sql_min_bookno:
  assumes "books d t = Some rows"
  shows "sql_exec dia (Select_min_bookno t BOOK_DEL) d
    = (Q_rows 1 [[if deleted_numbers rows = {} then None
                  else Some (dec (Min (deleted_numbers rows)))]], d)"
proof -
  let ?ks = "map r_bookno (filter (\<lambda>r. r_cleaned r = BOOK_DEL) rows)"
  have ks: "set ?ks = deleted_numbers rows"
    by (auto simp: deleted_numbers_def)
  then have "?ks = [] \<longleftrightarrow> deleted_numbers rows = {}"
    by (metis set_empty)
  moreover have "?ks \<noteq> [] \<Longrightarrow> sql_min ?ks = Min (deleted_numbers rows)"
    using ks sql_min_Min [of ?ks] by simp
  ultimately show ?thesis
    using assms by (simp add: sql_exec.simps on_books_Some with_books_same aggregate_def)
qed

lemma sql_max_bookno:
  assumes "books d t = Some rows"
  shows "sql_exec dia (Select_max_bookno t) d
    = (Q_rows 1 [[if rows = [] then None else Some (dec (Max (r_bookno ` set rows)))]], d)"
  using assms sql_max_Max [of "map r_bookno rows"]
  by (simp add: sql_exec.simps on_books_Some with_books_same aggregate_def)

lemma book_row_of_args [simp]:
  "r_bookno (book_row_of dia (book_args api b n)) = n"
  "r_cleaned (book_row_of dia (book_args api b n)) = BOOK_AVL"
  by (simp_all add: book_row_of_def book_args_def)

lemma write_book_cases:
  assumes "write_book dia q rows f = (r, rows')"
  obtains (bad) "is_err r" "rows' = rows" | (good) "f (book_row_of dia q) = (r, rows')"
  using assms by (auto simp: write_book_def split: if_splits)

lemma deleted_row:
  assumes "n \<in> deleted_numbers rows"
  obtains r where "r \<in> set rows" "r_bookno r = n" "r_cleaned r = BOOK_DEL"
  using assms by (auto simp: deleted_numbers_def)

lemma book_reuse_affected:
  assumes "books_ok rows" and "n \<in> deleted_numbers rows"
    and "r_cleaned new = BOOK_AVL"
  shows "fst (update_where (\<lambda>r. r_bookno r = n) (\<lambda>r. new) rows) = 1"
proof -
  obtain r where "r \<in> set rows" "r_bookno r = n" "r_cleaned r = BOOK_DEL"
    using assms(2) by (rule deleted_row)
  moreover from this assms(3) have "new \<noteq> r" by (auto simp: book_states)
  ultimately show ?thesis
    using assms(1) by (intro update_where_one [where r = r]) (auto simp: books_ok_def)
qed

context mysql_server
begin

lemma book_row_of_args_entry:
  "plain_text (encoding_time b) \<Longrightarrow>
     book_entry_of (book_row_of dia (book_args api b n)) = b\<lparr>code2 := n\<rparr>"
  by (simp add: book_entry_of_def book_row_of_def book_args_def lit_escape lit_plain)

lemma book_args_ok: "book_req_ok m \<Longrightarrow> book_sql_ok (book_args api (book_of m) n)"
  by (simp add: book_req_ok_def book_sql_ok_def book_args_def escape_ok lit_ok_plain)

lemma book_insert_reuse_cases:
  assumes req: "book_req_ok m" and run: "book_insert_reuse api m s = (res, used, s1)"
    and rows: "books (data s) (book_table m) = Some rows" and ok: "books_ok rows"
  obtains (no) "res = None" "data s1 = data s"
    | (reused) n where "res = Some n" "n = Min (deleted_numbers rows)" "n \<in> deleted_numbers rows"
        "data s1 = with_books (data s) (book_table m) (map (\<lambda>r. if r_bookno r = n
           then book_row_of dia (book_args api (book_of m) n) else r) rows)"
proof -
  let ?t = "book_table m"
  obtain r1 sa where q1: "mysql_query api s (Select_min_bookno ?t BOOK_DEL) = (r1, sa)"
    by (cases "mysql_query api s (Select_min_bookno ?t BOOK_DEL)") auto
  have "stmt_in_scope (Select_min_bookno ?t BOOK_DEL)" using req by (simp add: book_req_okD)
  from this q1 show thesis
  proof (cases rule: query_cases)
    case err
    with q1 run show thesis by (intro no) (auto simp: book_insert_reuse_def)
  next
    case ran
    note ran1 = ran
    show thesis
    proof (cases "deleted_numbers rows = {}")
      case True
      with ran1 q1 run show thesis
        by (intro no) (auto simp: book_insert_reuse_def sql_min_bookno [OF rows])
    next
      case False
      let ?n = "Min (deleted_numbers rows)" and ?q = "book_args api (book_of m) (Min (deleted_numbers rows))"
      have n: "?n \<in> deleted_numbers rows"
        using False by (intro Min_in) auto
      obtain r2 sb where q2: "mysql_query api sa (Update_book_reuse ?t ?q) = (r2, sb)"
        by (cases "mysql_query api sa (Update_book_reuse ?t ?q)") auto
      have d1: "data sa = data s"
        using ran1 by (simp add: sql_min_bookno [OF rows])
      have res: "(res, used, s1) = (if is_err r2 then (None, ?n, mysql_check_connection api sb)
          else if r2 = Q_ok 1 then (Some ?n, ?n, sb) else (None, ?n, sb))"
        using run q1 q2 ran1 False by (auto simp: book_insert_reuse_def sql_min_bookno [OF rows] Let_def)
      have "stmt_in_scope (Update_book_reuse ?t ?q)" using req by (simp add: book_req_okD book_args_ok)
      from this q2 show thesis
      proof (cases rule: query_cases)
        case err
        with res d1 show thesis by (intro no) auto
      next
        case ran
        let ?f = "\<lambda>new. updated (update_where (\<lambda>r. r_bookno r = ?n) (\<lambda>r. new) rows)"
        obtain rr rows' where w: "write_book dia ?q rows ?f = (rr, rows')"
          by (cases "write_book dia ?q rows ?f") auto
        have e: "r2 = rr" "data sb = with_books (data s) ?t rows'"
          using ran w rows by (simp_all add: sql_exec.simps d1 on_books_Some book_args_def)
        from w show thesis
        proof (cases rule: write_book_cases)
          case bad
          with e res rows show thesis by (intro no) (auto simp: with_books_same)
        next
          case good
          then have "rr = Q_ok 1"
            "rows' = map (\<lambda>r. if r_bookno r = ?n then book_row_of dia ?q else r) rows"
            using book_reuse_affected [OF ok n, of "book_row_of dia ?q"]
            by (auto simp: updated_def snd_update_where)
          with e res n show thesis by (intro reused [of ?n]) auto
        qed
      qed
    qed
  qed
qed

end

text \<open>What MySQL needs to store the entry as it is: texts no longer than the columns.\<close>

definition storable :: "book_entry \<Rightarrow> bool" where
  "storable b \<longleftrightarrow> fits 200 (b_name b) \<and> fits 70 (b_author b) \<and> fits 200 (b_label b)
     \<and> fits 20 (encoding_time b)"

context mysql_server
begin

lemma write_book_storable:
  "storable b \<Longrightarrow> plain_text (encoding_time b) \<Longrightarrow> write_book dia (book_args api b n) rows f = f (book_row_of dia (book_args api b n))"
  by (simp add: write_book_def book_row_fits_def storable_def book_row_of_def book_args_def
      lit_escape lit_plain)

lemma book_insert_number_cases:
  assumes req: "book_req_ok m" and run: "book_insert_number api used m s = res"
    and rows: "books (data s) (book_table m) = Some rows" and ok: "books_ok rows"
  obtains (stop) m' s' where "res = Inl (m', s')" "data s' = data s"
    | (number) n s' where "res = Inr (n, set_book ((book_of m)\<lparr>code2 := n\<rparr>) m, s')"
        "n = int (length rows) + 1" "n \<le> MAX_BOOK_NUM" "data s' = data s"
proof -
  let ?t = "book_table m"
  obtain r sa where q: "mysql_query api s (Select_max_bookno ?t) = (r, sa)"
    by (cases "mysql_query api s (Select_max_bookno ?t)") auto
  have "stmt_in_scope (Select_max_bookno ?t)" using req by (simp add: book_req_okD)
  from this q show thesis
  proof (cases rule: query_cases)
    case err
    with q run show thesis by (intro stop [of m "mysql_check_connection api sa"])
        (auto simp: book_insert_number_def)
  next
    case ran
    then have d: "data sa = data s"
      and r: "r = Q_rows 1 [[if rows = [] then None else Some (dec (int (length rows)))]]"
      using bk.Max_key [OF ok] by (simp_all add: sql_max_bookno [OF rows])
    show thesis
    proof (cases "MAX_BOOK_NUM \<le> int (length rows)")
      case True
      then have "rows \<noteq> []" by (auto simp: limits)
      with True q r run d show thesis
        by (intro stop [of "m\<lparr>m_error_text := err_book_limit\<rparr>" sa])
           (auto simp: book_insert_number_def Let_def)
    next
      case False
      with q r run d show thesis
        by (intro number [of "int (length rows) + 1" sa])
           (auto simp: book_insert_number_def Let_def)
    qed
  qed
qed

lemma insert_book_cases:
  assumes req: "book_req_ok m" and q: "mysql_query api s (Insert_book (book_table m) (book_args api (book_of m) n)) = (r, s')"
    and rows: "books (data s) (book_table m) = Some rows" and n: "1 \<le> n" "n \<notin> r_bookno ` set rows"
  obtains (bad) "is_err r" "data s' = data s"
    | (good) "r = Q_ok 1" "data s' = with_books (data s) (book_table m) (rows @ [book_row_of dia (book_args api (book_of m) n)])"
proof -
  have "stmt_in_scope (Insert_book (book_table m) (book_args api (book_of m) n))" 
    using n req by (simp add: book_req_okD book_args_ok) (simp add: book_args_def)
  from this q show thesis
  proof (cases rule: query_cases)
    case err
    with bad show thesis by blast
  next
    case ran
    let ?f = "\<lambda>new. (Q_ok 1, rows @ [new])"
    obtain rr rows' where w: "write_book dia (book_args api (book_of m) n) rows ?f = (rr, rows')"
      by (cases "write_book dia (book_args api (book_of m) n) rows ?f") auto
    have "q_bookno (book_args api (book_of m) n) = n" by (simp add: book_args_def)
    then have e: "r = rr" "data s' = with_books (data s) (book_table m) rows'"
      using ran w rows n by (simp_all add: sql_exec.simps on_books_Some)
    from w show thesis
    proof (cases rule: write_book_cases)
      case bad': bad
      with e rows show thesis by (intro bad) (auto simp: with_books_same)
    next
      case good': good
      with e show thesis by (intro good) auto
    qed
  qed
qed

text \<open>The effect of an insertion, whatever fails.\<close>

lemma book_insert_effect:
  assumes req: "book_req_ok m" and run: "srvdb_book_insert api s m = (ok, m', s')"
    and rows: "books (data s) (book_table m) = Some rows" and inv: "books_ok rows"
  obtains (failed) "\<not> ok" "data s' = data s"
    | (stored) n rows' where "ok" "m' = set_book ((book_of m)\<lparr>code2 := n\<rparr>) m"
        "n \<notin> dom (catalog rows)" "1 \<le> n" "n \<le> MAX_BOOK_NUM"
        "data s' = with_books (data s) (book_table m) rows'" "books_ok rows'"
        "catalog rows' = (catalog rows)(n \<mapsto> (BOOK_AVL, book_entry_of (book_row_of dia (book_args api (book_of m) n))))"
proof -
  have user_ne: "m_user m \<noteq> ''''" using req by (simp add: book_req_okD)
  obtain res used s1 where reuse: "book_insert_reuse api m s = (res, used, s1)"
    by (cases "book_insert_reuse api m s") auto
  from req reuse rows inv show thesis
  proof (cases rule: book_insert_reuse_cases)
    case (reused n)
    let ?new = "book_row_of dia (book_args api (book_of m) n)"
    let ?rows = "map (\<lambda>r. if r_bookno r = n then ?new else r) rows"
    from reused(3) have "row_no rows n \<noteq> None"
      by (auto simp: bk.row_None deleted_numbers_def)
    then have cat: "catalog ?rows = (catalog rows)(n \<mapsto> (BOOK_AVL, book_entry_of (book_row_of dia (book_args api (book_of m) n))))"
      using bk.live_set_row [of ?new n rows] by (simp add: book_states)
    have "books_ok ?rows" using inv by (intro books_ok_map) auto
    moreover have "int (length rows) \<le> MAX_BOOK_NUM" using inv by (simp only: books_ok_def)
    ultimately show thesis
      using stored [of n ?rows] run reuse reused user_ne cat bk.gone_live [OF reused(3) inv]
        bk.gone_le [OF inv reused(3)]
      by (auto simp: srvdb_book_insert_def)
  next
    case no
    have rows1: "books (data s1) (book_table m) = Some rows" using no rows by simp
    obtain res2 where num: "book_insert_number api used m s1 = res2" by blast
    from req num rows1 inv show thesis
    proof (cases rule: book_insert_number_cases)
      case (stop m2 s2)
      with run reuse num no user_ne failed show thesis by (auto simp: srvdb_book_insert_def)
    next
      case (number n s2)
      let ?new = "book_row_of dia (book_args api (book_of m) n)"
      obtain r s3 where q: "mysql_query api s2 (Insert_book (book_table m)
          (book_args api (book_of m) n)) = (r, s3)"
        by (cases "mysql_query api s2 (Insert_book (book_table m) (book_args api (book_of m) n))") auto
      have fresh: "n \<notin> r_bookno ` set rows" and pos: "1 \<le> n"
        using number(2) bk.fresh_key [OF inv] by auto
      have rows2: "books (data s2) (book_table m) = Some rows" using no number rows by simp
      have out: "(ok, m', s') = (if \<not> is_err r then (True, set_book ((book_of m)\<lparr>code2 := n\<rparr>) m, s3)
          else (False, (set_book ((book_of m)\<lparr>code2 := n\<rparr>) m)\<lparr>m_error_text := err_book_insert\<rparr>,
            mysql_check_connection api s3))"
        using run reuse num no number q user_ne by (auto simp: srvdb_book_insert_def)
      from req q rows2 pos fresh show thesis
      proof (cases rule: insert_book_cases)
        case bad
        with out no number failed show thesis by auto
      next
        case good
        have "books_ok (rows @ [?new])"
          using inv number by (intro books_ok_append) auto
        moreover have "catalog (rows @ [?new]) = (catalog rows)(n \<mapsto> (BOOK_AVL, book_entry_of (book_row_of dia (book_args api (book_of m) n))))"
          using bk.live_append [of ?new rows] fresh by (simp add: book_states)
        moreover have "n \<notin> dom (catalog rows)"
          using number(2) by (simp add: bk.dom_live [OF inv])
        ultimately show thesis
          using stored [of n "rows @ [?new]"] out good number no pos by auto
      qed
    qed
  qed
qed

end

context mysql_up
begin

lemma reuse_up_none:
  assumes req: "book_req_ok m" and rows: "books (data s) (book_table m) = Some rows" and "deleted_numbers rows = {}"
  shows "\<exists>s1. book_insert_reuse api m s = (None, 0, s1) \<and> data s1 = data s"
proof -
  obtain r s1 where q: "mysql_query api s (Select_min_bookno (book_table m) BOOK_DEL) = (r, s1)"
    by (cases "mysql_query api s (Select_min_bookno (book_table m) BOOK_DEL)") auto
  from query_runs [OF q] assms(3) req have "r = Q_rows 1 [[None]]" "data s1 = data s"
    by (simp_all add: sql_min_bookno [OF rows] book_req_okD)
  with q show ?thesis by (simp add: book_insert_reuse_def)
qed

lemma reuse_up_some:
  assumes req: "book_req_ok m" and rows: "books (data s) (book_table m) = Some rows" and inv: "books_ok rows"
    and del: "deleted_numbers rows \<noteq> {}" and st: "storable (book_of m)"
  shows "\<exists>used s1. book_insert_reuse api m s = (Some (Min (deleted_numbers rows)), used, s1)"
proof -
  let ?n = "Min (deleted_numbers rows)"
  let ?q = "book_args api (book_of m) ?n"
  obtain r s1 where q: "mysql_query api s (Select_min_bookno (book_table m) BOOK_DEL) = (r, s1)"
    by (cases "mysql_query api s (Select_min_bookno (book_table m) BOOK_DEL)") auto
  from query_runs [OF q] del req have r: "r = Q_rows 1 [[Some (dec ?n)]]" and d: "data s1 = data s"
    by (simp_all add: sql_min_bookno [OF rows] book_req_okD)
  obtain r2 s2 where q2: "mysql_query api s1 (Update_book_reuse (book_table m) ?q) = (r2, s2)"
    by (cases "mysql_query api s1 (Update_book_reuse (book_table m) ?q)") auto
  have "q_bookno ?q = ?n" by (simp add: book_args_def)
  moreover have "fst (update_where (\<lambda>r. r_bookno r = ?n) (\<lambda>r. book_row_of dia ?q) rows) = 1"
    using inv del by (intro book_reuse_affected) auto
  ultimately have "r2 = Q_ok 1"
    using query_runs [OF q2] rows st req
    by (simp add: sql_exec.simps d on_books_Some write_book_storable updated_def book_req_okD book_args_ok)
  with q r q2 show ?thesis by (simp add: book_insert_reuse_def Let_def)
qed

lemma book_insert_up:
  assumes req: "book_req_ok m" and run: "srvdb_book_insert api s m = (ok, m', s')"
    and rows: "books (data s) (book_table m) = Some rows" and inv: "books_ok rows"
    and st: "storable (book_of m)"
  shows "ok \<longleftrightarrow> free_number (catalog rows) \<le> MAX_BOOK_NUM"
    and "ok \<Longrightarrow> code2 (book_of m') = free_number (catalog rows)"
    and "\<not> ok \<Longrightarrow> m_error_text m' = err_book_limit"
proof -
  have user: "m_user m \<noteq> ''''" using req by (simp add: book_req_okD)
  have len: "int (length rows) \<le> MAX_BOOK_NUM" using inv by (simp only: books_ok_def)
  have "(ok \<longleftrightarrow> free_number (catalog rows) \<le> MAX_BOOK_NUM)
      \<and> (ok \<longrightarrow> code2 (book_of m') = free_number (catalog rows))
      \<and> (\<not> ok \<longrightarrow> m_error_text m' = err_book_limit)"
  proof (cases "deleted_numbers rows = {}")
    case False
    then obtain used s1 where
      re: "book_insert_reuse api m s = (Some (Min (deleted_numbers rows)), used, s1)"
      using reuse_up_some [OF req rows inv _ st] by blast
    have "Min (deleted_numbers rows) \<in> deleted_numbers rows" using False by (intro Min_in) auto
    from bk.gone_le [OF inv this] len run re user show ?thesis
      by (auto simp: srvdb_book_insert_def bk.free_gone [OF inv False])
  next
    case True
    then obtain s1 where re: "book_insert_reuse api m s = (None, 0, s1)" and d1: "data s1 = data s"
      using reuse_up_none [OF req rows] by blast
    obtain r s2 where q: "mysql_query api s1 (Select_max_bookno (book_table m)) = (r, s2)"
      by (cases "mysql_query api s1 (Select_max_bookno (book_table m))") auto
    have r: "r = Q_rows 1 [[if rows = [] then None else Some (dec (int (length rows)))]]"
      and d2: "data s2 = data s"
      using query_runs [OF q] d1 rows req bk.Max_key [OF inv] by (simp_all add: sql_max_bookno book_req_okD)
    note free = bk.free_next [OF inv True]
    show ?thesis
    proof (cases "MAX_BOOK_NUM \<le> int (length rows)")
      case True
      moreover from this have "rows \<noteq> []" by (auto simp: limits)
      ultimately show ?thesis using run re q r user
        by (auto simp: srvdb_book_insert_def book_insert_number_def Let_def free)
    next
      case False
      let ?n = "int (length rows) + 1"
      let ?st = "Insert_book (book_table m) (book_args api (book_of m) ?n)"
      obtain r3 s3 where q3: "mysql_query api s2 ?st = (r3, s3)"
        by (cases "mysql_query api s2 ?st") auto
      have "q_bookno (book_args api (book_of m) ?n) = ?n" by (simp add: book_args_def)
      then have "r3 = Q_ok 1"
        using query_runs [OF q3] rows d2 st req bk.fresh_key [OF inv]
        by (simp add: sql_exec.simps on_books_Some write_book_storable image_iff book_req_okD book_args_ok)
      moreover have "book_insert_number api 0 m s1
          = Inr (?n, set_book ((book_of m)\<lparr>code2 := ?n\<rparr>) m, s2)"
        using False q r by (cases "rows = []") (simp_all add: book_insert_number_def Let_def)
      ultimately show ?thesis using False run re q3 user
        by (auto simp: srvdb_book_insert_def free)
    qed
  qed
  then show "ok \<longleftrightarrow> free_number (catalog rows) \<le> MAX_BOOK_NUM"
    and "ok \<Longrightarrow> code2 (book_of m') = free_number (catalog rows)"
    and "\<not> ok \<Longrightarrow> m_error_text m' = err_book_limit" by blast+
qed

end

section \<open>Deletion and update: proofs\<close>

text \<open>The catalogue without the books of a shelf, and with them taken off it.\<close>

definition drop_shelf :: "int \<Rightarrow> (int \<rightharpoonup> int \<times> book_entry) \<Rightarrow> int \<rightharpoonup> int \<times> book_entry" where
  "drop_shelf sh cat n = (case cat n of None \<Rightarrow> None
     | Some (c, e) \<Rightarrow> if code0 e = sh then None else Some (c, e))"

definition unsort_shelf :: "int \<Rightarrow> (int \<rightharpoonup> int \<times> book_entry) \<Rightarrow> int \<rightharpoonup> int \<times> book_entry" where
  "unsort_shelf sh cat n = (case cat n of None \<Rightarrow> None
     | Some (c, e) \<Rightarrow> Some (if code0 e = sh then BOOK_UNSORTED else c, e))"

definition whole_shelf :: "message_cs \<Rightarrow> bool" where
  "whole_shelf m \<longleftrightarrow> code2 (book_of m) = NON_SENSE_INT \<and> code0 (book_of m) \<noteq> NON_SENSE_INT"

lemma book_entry_of_cleaned [simp]: "book_entry_of (r\<lparr>r_cleaned := c\<rparr>) = book_entry_of r"
  by (simp add: book_entry_of_def)

lemma code_of_book_entry_of [simp]:
  "code0 (book_entry_of r) = r_shelfno r" "code2 (book_entry_of r) = r_bookno r"
  by (simp_all add: book_entry_of_def)

lemma catalog_delete_shelf:
  "catalog (map (\<lambda>r. if r_shelfno r = sh then r\<lparr>r_cleaned := BOOK_DEL\<rparr> else r) rows)
     = drop_shelf sh (catalog rows)"
  by (rule ext) (subst bk.live_map; auto simp: drop_shelf_def catalog_def Let_def split: option.splits)

lemma catalog_delete_one:
  "catalog (map (\<lambda>r. if r_bookno r = n then r\<lparr>r_cleaned := BOOK_DEL\<rparr> else r) rows)
     = (catalog rows)(n := None)"
  by (rule ext) (subst bk.live_map; auto simp: catalog_def Let_def split: option.splits dest: bk.row_SomeD)

lemma catalog_unsort_shelf:
  assumes "\<forall>r \<in> set rows. r_shelfno r = sh \<longrightarrow> r_cleaned r \<noteq> BOOK_DEL"
  shows "catalog (map (\<lambda>r. if r_shelfno r = sh then r\<lparr>r_cleaned := BOOK_UNSORTED\<rparr> else r) rows)
     = unsort_shelf sh (catalog rows)"
  by (rule ext, subst bk.live_map)
     (use assms in \<open>auto simp: unsort_shelf_def catalog_def Let_def book_states split: option.splits
        dest: bk.row_SomeD\<close>)

lemma books_ok_clean:
  "books_ok rows \<Longrightarrow> c \<in> {BOOK_AVL, BOOK_DEL, BOOK_UNSORTED} \<Longrightarrow>
     books_ok (map (\<lambda>r. if P r then r\<lparr>r_cleaned := c\<rparr> else r) rows)"
  by (intro books_ok_map) auto

context mysql_server
begin

lemma update_stmt_cases:
  assumes "mysql_query api s st = (r, s')" and "stmt_in_scope st"
    and "sql_exec dia st (data s) = (Q_ok k, d')"
  obtains (bad) "is_err r" "data s' = data s" | (good) "\<not> is_err r" "data s' = d'"
proof -
  from assms(2,1) show thesis
  proof (cases rule: query_cases)
    case err
    with bad show thesis by blast
  next
    case ran
    with assms(3) good show thesis by auto
  qed
qed

lemma book_delete_effect:
  assumes usr: "ident (m_user m)" and run: "srvdb_book_delete api s m = (ok, m', s')"
    and rows: "books (data s) (book_table m) = Some rows" and inv: "books_ok rows"
  obtains (failed) "\<not> ok" "data s' = data s"
    | (removed) rows' where "ok" "m' = m" "data s' = with_books (data s) (book_table m) rows'"
        "books_ok rows'"
        "catalog rows' = (if whole_shelf m then drop_shelf (code0 (book_of m)) (catalog rows)
           else (catalog rows)(code2 (book_of m) := None))"
proof (cases "m_user m = ''''")
  case True
  with run failed show thesis by (auto simp: srvdb_book_delete_def)
next
  case False
  let ?P = "\<lambda>r. if whole_shelf m then r_shelfno r = code0 (book_of m)
     else r_bookno r = code2 (book_of m)"
  let ?rows = "map (\<lambda>r. if ?P r then r\<lparr>r_cleaned := BOOK_DEL\<rparr> else r) rows"
  obtain r s1 where q: "mysql_query api s (book_delete_stmt m) = (r, s1)"
    by (cases "mysql_query api s (book_delete_stmt m)") auto
  have scope: "stmt_in_scope (book_delete_stmt m)"
    using usr by (simp add: book_delete_stmt_def ident_book_table)
  obtain k where ex: "sql_exec dia (book_delete_stmt m) (data s)
      = (Q_ok k, with_books (data s) (book_table m) ?rows)"
    by (cases "whole_shelf m")
       (auto simp: book_delete_stmt_def whole_shelf_def sql_exec.simps on_books_Some [OF rows]
          updated_def snd_update_where)
  have cat: "catalog ?rows = (if whole_shelf m then drop_shelf (code0 (book_of m)) (catalog rows)
      else (catalog rows)(code2 (book_of m) := None))"
    by (cases "whole_shelf m") (simp_all add: catalog_delete_shelf catalog_delete_one)
  from q scope ex show thesis
  proof (cases rule: update_stmt_cases)
    case bad
    with run q False failed show thesis by (auto simp: srvdb_book_delete_def)
  next
    case good
    with run q False removed [of ?rows] cat books_ok_clean [OF inv, of BOOK_DEL ?P] show thesis
      by (auto simp: srvdb_book_delete_def)
  qed
qed

lemma book_update_one:
  assumes req: "book_req_ok m" and q: "mysql_query api s (Update_book (book_table m) (book_args api (book_of m) n)) = (r, s')"
    and rows: "books (data s) (book_table m) = Some rows" and inv: "books_ok rows"
  obtains (bad) "is_err r" "data s' = data s"
    | (good) rows' where "\<not> is_err r" "data s' = with_books (data s) (book_table m) rows'" "books_ok rows'"
        "catalog rows' = (if n \<in> {1..int (length rows)} then (catalog rows)(n \<mapsto> (BOOK_AVL, book_entry_of (book_row_of dia (book_args api (book_of m) n))))
           else catalog rows)"
proof -
  let ?new = "book_row_of dia (book_args api (book_of m) n)"
  let ?rows = "map (\<lambda>r. if r_bookno r = n then ?new else r) rows"
  let ?f = "\<lambda>new. updated (update_where (\<lambda>r. r_bookno r = n) (\<lambda>r. new) rows)"
  have "stmt_in_scope (Update_book (book_table m) (book_args api (book_of m) n))"
    using req by (simp add: book_req_okD book_args_ok)
  from this q show thesis
  proof (cases rule: query_cases)
    case err
    with bad show thesis by blast
  next
    case ran
    obtain rr rows' where w: "write_book dia (book_args api (book_of m) n) rows ?f = (rr, rows')"
      by (cases "write_book dia (book_args api (book_of m) n) rows ?f") auto
    have "q_bookno (book_args api (book_of m) n) = n" by (simp add: book_args_def)
    then have e: "r = rr" "data s' = with_books (data s) (book_table m) rows'"
      using ran w rows by (simp_all add: sql_exec.simps on_books_Some)
    from w show thesis
    proof (cases rule: write_book_cases)
      case bad': bad
      with e rows show thesis by (intro bad) (auto simp: with_books_same)
    next
      case good': good
      have mem: "n \<in> {1..int (length rows)} \<longleftrightarrow> n \<in> r_bookno ` set rows"
        using inv by (simp add: books_ok_def)
      have "catalog ?rows = (if n \<in> {1..int (length rows)} then (catalog rows)(n \<mapsto> (BOOK_AVL, book_entry_of (book_row_of dia (book_args api (book_of m) n))))
          else catalog rows)"
        using bk.live_set_row [of ?new n rows] bk.set_row_absent [of n rows ?new]
        unfolding mem by (simp add: bk.row_None book_states)
      moreover have "books_ok ?rows" using inv by (intro books_ok_map) auto
      ultimately show thesis
        using good [of ?rows] good' e by (auto simp: updated_def snd_update_where)
    qed
  qed
qed

lemma book_update_effect:
  assumes req: "book_req_ok m" and run: "srvdb_book_update api s m = (ok, m', s')"
    and rows: "books (data s) (book_table m) = Some rows" and inv: "books_ok rows"
  obtains (failed) "\<not> ok" "data s' = data s"
    | (shelf) "ok" "whole_shelf m" "data s' = with_books (data s) (book_table m)
        (map (\<lambda>r. if r_shelfno r = code0 (book_of m) then r\<lparr>r_cleaned := BOOK_UNSORTED\<rparr> else r) rows)"
    | (book) rows' where "ok" "\<not> whole_shelf m"
        "data s' = with_books (data s) (book_table m) rows'" "books_ok rows'"
        "catalog rows' = (if code2 (book_of m) \<in> {1..int (length rows)}
           then (catalog rows)(code2 (book_of m) \<mapsto> (BOOK_AVL, book_entry_of (book_row_of dia (book_args api (book_of m) (code2 (book_of m)))))) else catalog rows)"
proof -
  obtain r s1 where q: "mysql_query api s (book_update_stmt api m) = (r, s1)"
    by (cases "mysql_query api s (book_update_stmt api m)") auto
  consider "m_user m = ''''" | "m_user m \<noteq> ''''" "whole_shelf m"
    | "m_user m \<noteq> ''''" "\<not> whole_shelf m" by blast
  then show thesis
  proof cases
    case 1
    with run failed show thesis by (auto simp: srvdb_book_update_def)
  next
    case 2
    let ?st = "Update_shelf_books_cleaned (book_table m) BOOK_UNSORTED (code0 (book_of m))"
    let ?rows = "map (\<lambda>r. if r_shelfno r = code0 (book_of m)
      then r\<lparr>r_cleaned := BOOK_UNSORTED\<rparr> else r) rows"
    have st: "book_update_stmt api m = ?st" using 2 by (simp add: book_update_stmt_def whole_shelf_def)
    obtain k where ex: "sql_exec dia ?st (data s) = (Q_ok k, with_books (data s) (book_table m) ?rows)"
      by (auto simp: sql_exec.simps on_books_Some [OF rows] updated_def snd_update_where)
    have "mysql_query api s ?st = (r, s1)" and "stmt_in_scope ?st"
      using q st req by (simp_all add: book_req_okD)
    from this ex show thesis
    proof (cases rule: update_stmt_cases)
      case bad
      with run q 2 failed show thesis by (auto simp: srvdb_book_update_def)
    next
      case good
      with run q 2 shelf show thesis by (auto simp: srvdb_book_update_def)
    qed
  next
    case 3
    then have "mysql_query api s (Update_book (book_table m)
        (book_args api (book_of m) (code2 (book_of m)))) = (r, s1)"
      using q by (auto simp: book_update_stmt_def whole_shelf_def)
    from req this rows inv show thesis
    proof (cases rule: book_update_one)
      case bad
      with run q 3 failed show thesis by (auto simp: srvdb_book_update_def)
    next
      case (good rows')
      with run q 3 book [of rows'] show thesis by (auto simp: srvdb_book_update_def)
    qed
  qed
qed

end

end
