(* ===== verification/Srvdb_Search.thy ===== *)
theory Srvdb_Search
  imports Srvdb_Book
begin

text \<open>
  The searching part of \<^verbatim>\<open>srvdb.c\<close>: what a successful \<^verbatim>\<open>srvdb_book_find\<close> stores, that
  \<^verbatim>\<open>srvdb_book_fetch_result\<close> then hands out exactly these books in order of their numbers, page by
  page, and that \<^verbatim>\<open>srvdb_book_count\<close> counts the books of the catalogue.
\<close>

section \<open>Stored results\<close>

text \<open>A stored result set that came from book rows, not yet fetched.\<close>

definition result_ready :: "'db mysql_api \<Rightarrow> book_row list \<Rightarrow> 'db srv \<Rightarrow> bool" where
  "result_ready api rs s \<longleftrightarrow> res_ptr s = Some (map book_cells rs) \<and> res_fields s = 10
     \<and> api_errno api (my_connection s) = 0"

definition book_page :: "dialect \<Rightarrow> book_where \<Rightarrow> int \<Rightarrow> book_row list \<Rightarrow> book_row list" where
  "book_page dia w k rows = take (nat k) (sort_key r_bookno (filter (book_where_holds dia w) rows))"

lemma book_of_cells_row: "book_of_cells (book_cells r) e = Some (book_entry_of r)"
  by (simp add: book_cells_def book_entry_of_def)

lemma fetch_row:
  "result_ready api (r # rs) s \<Longrightarrow> srvdb_book_fetch_result api s m
     = (FETCH_RESULT_CONT, set_book (book_entry_of r) m, s\<lparr>res_ptr := Some (map book_cells rs)\<rparr>)"
  by (simp add: srvdb_book_fetch_result_def result_ready_def book_of_cells_row Let_def)

lemma fetch_end:
  "result_ready api [] s \<Longrightarrow> srvdb_book_fetch_result api s m
     = (if res_rows s = DEFAULT_FINDS then (FETCH_RESULT_END_MORE, m, s\<lparr>res_ptr := Some []\<rparr>)
        else (FETCH_RESULT_END, m, srvdb_free_result (s\<lparr>res_ptr := Some []\<rparr>)))"
  by (simp add: srvdb_book_fetch_result_def result_ready_def Let_def)

lemma result_ready_next:
  "result_ready api (r # rs) s \<Longrightarrow> result_ready api rs (s\<lparr>res_ptr := Some (map book_cells rs)\<rparr>)"
  by (simp add: result_ready_def)

lemma sql_select_books:
  assumes "books d t = Some rows"
  shows "sql_exec dia (Select_books star t w k) d = (book_result star (book_page dia w k rows), d)"
  using assms by (simp add: sql_exec.simps on_books_Some with_books_same book_page_def)

lemma set_book_page: "set (book_page dia w k rows) \<subseteq> {r \<in> set rows. book_where_holds dia w r}"
  using set_take_subset by (force simp: book_page_def)

lemma sorted_book_page: "sorted (map r_bookno (book_page dia w k rows))"
  by (simp add: book_page_def take_map [symmetric] sorted_wrt_take)

lemma book_page_all:
  "int (length rows) \<le> k \<Longrightarrow> length (book_page dia w k rows)
     = length (filter (book_where_holds dia w) rows)"
proof -
  assume "int (length rows) \<le> k"
  moreover have "length (filter (book_where_holds dia w) rows) \<le> length rows"
    by (rule length_filter_le)
  ultimately have "length (filter (book_where_holds dia w) rows) \<le> nat k" by linarith
  then show ?thesis by (simp add: book_page_def)
qed

context mysql_server
begin

lemma like_text_ok: "lit_ok (like_text api s)"
  by (simp add: like_text_def lit_ok_plain_Cons lit_ok_append escape_ok)

lemma name_cond_ok: "name_cond_of api s = Some n \<Longrightarrow> lit_ok (name_lit n)"
  by (auto simp: name_cond_of_def like_text_ok escape_ok split: if_splits)

lemma field_cond_ok: "field_cond_of api s = Some n \<Longrightarrow> lit_ok (field_lit n)"
  by (auto simp: field_cond_of_def like_text_ok escape_ok split: if_splits)

lemma keyword_plan_stmt:
  "keyword_plan api b k = Find_stmt st auto \<Longrightarrow> \<exists>n a l. k n a l = Find_stmt st auto
     \<and> lit_ok (name_lit n) \<and> lit_ok (field_lit a) \<and> lit_ok (field_lit l)"
  by (auto simp: keyword_plan_def split: if_splits option.splits) (metis name_cond_ok field_cond_ok)

lemma plan_in_scope:
  assumes "ident (m_user m)" and plan: "book_find_plan api m = Find_stmt st auto"
  shows "stmt_in_scope st"
proof -
  have t: "ident (book_table m)" by (rule ident_book_table [OF assms(1)])
  let ?b = "book_of m"
  let ?start = "if code2 ?b = BREAK_LIMIT_INT then NON_SENSE_INT else code2 ?b"
  note unf = plan [unfolded book_find_plan_def Let_def]
  consider "borrowed ?b = FLAG_FIND_UNSORTED \<and> on_reading ?b = FLAG_FIND_UNSORTED"
    | "\<not> (borrowed ?b = FLAG_FIND_UNSORTED \<and> on_reading ?b = FLAG_FIND_UNSORTED)" "borrowed ?b = FLAG_BORROWED"
    | "\<not> (borrowed ?b = FLAG_FIND_UNSORTED \<and> on_reading ?b = FLAG_FIND_UNSORTED)" "borrowed ?b \<noteq> FLAG_BORROWED"
      "on_reading ?b = FLAG_ON_READING"
    | "\<not> (borrowed ?b = FLAG_FIND_UNSORTED \<and> on_reading ?b = FLAG_FIND_UNSORTED)" "borrowed ?b \<noteq> FLAG_BORROWED"
      "on_reading ?b \<noteq> FLAG_ON_READING" by blast
  then show ?thesis
  proof cases
    case 4
    show ?thesis
    proof (cases "?start \<noteq> NON_SENSE_INT \<and> ?start < 0")
      case True
      from unf show ?thesis
        unfolding if_not_P [OF 4(1)] if_not_P [OF 4(2)] if_not_P [OF 4(3)] if_P [OF True] using t by auto
    next
      case False
      from unf show ?thesis
        unfolding if_not_P [OF 4(1)] if_not_P [OF 4(2)] if_not_P [OF 4(3)] if_not_P [OF False]
        by (rule keyword_plan_stmt [elim_format]) (use t in auto)
    qed
  qed (use t unf in \<open>(simp only: if_True if_False simp_thms; auto)+\<close>)
qed

lemma find_ok:
  assumes usr: "ident (m_user m)" and run: "srvdb_book_find api s m = Some (True, n, s')"
    and plan: "book_find_plan api m = Find_stmt (Select_books star (book_table m) w k) auto"
    and rows: "books (data s) (book_table m) = Some rows"
  shows "data s' = data s" and "n = int (length (book_page dia w k rows))"
    and "star \<and> \<not> auto \<Longrightarrow> result_ready api (book_page dia w k rows) s' \<and> res_rows s' = n"
proof -
  let ?st = "Select_books star (book_table m) w k"
  obtain r s1 where q: "mysql_query api s ?st = (r, s1)"
    by (cases "mysql_query api s ?st") auto
  have ne: "\<not> is_err r" using run plan q by (auto simp: srvdb_book_find_def split: if_splits)
  have "stmt_in_scope ?st" by (rule plan_in_scope [OF usr plan])
  from this q have ex: "r = book_result star (book_page dia w k rows) \<and> data s1 = data s"
  proof (cases rule: query_cases)
    case err
    with ne show ?thesis by simp
  next
    case ran
    then show ?thesis by (simp add: sql_select_books [OF rows])
  qed
  have "api_errno api (my_connection s1) = 0"
    using q ne query_errno [of "my_connection s" ?st] by (auto simp: mysql_query_def split: prod.splits)
  with run plan q ex ne
  have "data s' = data s \<and> n = int (length (book_page dia w k rows))
    \<and> (star \<and> \<not> auto \<longrightarrow> result_ready api (book_page dia w k rows) s' \<and> res_rows s' = n)"
    by (auto simp: srvdb_book_find_def store_result_def book_result_def result_ready_def
        split: if_splits)
  then show "data s' = data s" and "n = int (length (book_page dia w k rows))"
    and "star \<and> \<not> auto \<Longrightarrow> result_ready api (book_page dia w k rows) s' \<and> res_rows s' = n"
    by blast+
qed

lemma find_data:
  assumes usr: "ident (m_user m)" and run: "srvdb_book_find api s m = Some (ok, n, s')"
    and rows: "books (data s) (book_table m) = Some rows"
  shows "data s' = data s"
proof (cases "m_user m = '''' \<or> book_find_plan api m = Find_format_error")
  case True
  with run show ?thesis by (auto simp: srvdb_book_find_def split: find_plan.splits if_splits)
next
  case False
  then obtain st auto where plan: "book_find_plan api m = Find_stmt st auto"
    using run by (auto simp: srvdb_book_find_def split: find_plan.splits if_splits)
  obtain r s1 where q: "mysql_query api s st = (r, s1)"
    by (cases "mysql_query api s st") auto
  have st: "(\<exists>star w k. st = Select_books star (book_table m) w k)
      \<or> (\<exists>star k. st = Select_book_no star (book_table m) k)"
    using plan by (auto simp: book_find_plan_def keyword_plan_def Let_def split: if_splits option.splits)
  have "stmt_in_scope st" by (rule plan_in_scope [OF usr plan])
  from this q have "data s1 = data s"
  proof (cases rule: query_cases)
    case ran
    with st rows show ?thesis
      by (auto simp: sql_select_books [OF rows])
        (simp add: sql_exec.simps on_books_Some with_books_same)
  qed
  with run plan q False show ?thesis
    by (auto simp: srvdb_book_find_def store_result_def split: if_splits reply.splits)
qed

end

section \<open>Counting\<close>

text \<open>The number of books of a catalogue with a property of their state and entry.\<close>

definition count_books :: "(int \<rightharpoonup> int \<times> book_entry) \<Rightarrow> (int \<Rightarrow> book_entry \<Rightarrow> bool) \<Rightarrow> int" where
  "count_books cat P = int (card {n. \<exists>c e. cat n = Some (c, e) \<and> P c e})"

definition on_shelf :: "int \<Rightarrow> book_entry \<Rightarrow> bool" where
  "on_shelf sh e \<longleftrightarrow> (if sh = NON_SENSE_INT then 0 < code0 e else code0 e = sh)"

lemma count_books_filter:
  assumes inv: "books_ok rows"
    and Q: "\<And>r. r \<in> set rows \<Longrightarrow> Q r \<longleftrightarrow> r_cleaned r \<noteq> BOOK_DEL \<and> P (r_cleaned r) (book_entry_of r)"
  shows "int (length (filter Q rows)) = count_books (catalog rows) P"
proof -
  have "{n. \<exists>c e. catalog rows n = Some (c, e) \<and> P c e} = set (map r_bookno (filter Q rows))"
    using Q by (auto simp: catalog_Some [OF inv])
  moreover have "distinct (map r_bookno (filter Q rows))"
    using inv by (simp add: books_ok_def distinct_map_filter)
  ultimately show ?thesis
    using distinct_card [of "map r_bookno (filter Q rows)"] by (simp add: count_books_def)
qed

lemma char_num_one: "char_num c = 1 \<longleftrightarrow> c = CHR ''1''"
proof
  assume "char_num c = 1"
  then have "is_digit c" and "digit_val c = 1"
    by (auto simp: char_num_def split: if_splits)
  then have "(of_char c :: nat) = of_char (CHR ''1'')"
    by (simp add: is_digit_def digit_val_def)
  then show "c = CHR ''1''" by (simp only: of_char_eq_iff)
qed (simp add: char_num_def is_digit_def digit_val_def)

lemma finite_dom_catalog: "books_ok rows \<Longrightarrow> finite (dom (catalog rows))"
  by (simp add: bk.dom_live)

lemma catalog_state: "books_ok rows \<Longrightarrow> catalog rows n = Some (c, e) \<Longrightarrow> c = BOOK_AVL \<or> c = BOOK_UNSORTED"
  by (auto simp: catalog_Some books_ok_def)

lemma count_books_split:
  assumes inv: "books_ok rows"
  shows "count_books (catalog rows) (\<lambda>c e. P e) = count_books (catalog rows) (\<lambda>c e. c = BOOK_AVL \<and> P e)
    + count_books (catalog rows) (\<lambda>c e. c = BOOK_UNSORTED \<and> P e)"
proof -
  let ?A = "{n. \<exists>c e. catalog rows n = Some (c, e) \<and> c = BOOK_AVL \<and> P e}"
  let ?U = "{n. \<exists>c e. catalog rows n = Some (c, e) \<and> c = BOOK_UNSORTED \<and> P e}"
  have "finite ?A" "finite ?U"
    using finite_dom_catalog [OF inv] by (auto elim: rev_finite_subset)
  moreover have "?A \<inter> ?U = {}" by (auto simp: book_states)
  moreover have "?A \<union> ?U = {n. \<exists>c e. catalog rows n = Some (c, e) \<and> P e}"
    using catalog_state [OF inv] by blast
  ultimately show ?thesis
    using card_Un_disjoint [of ?A ?U] by (simp add: count_books_def)
qed

abbreviation shelf_sym :: "int \<Rightarrow> char" where
  "shelf_sym sh \<equiv> (if sh = NON_SENSE_INT then CHR ''>'' else CHR ''='')"

lemma where_flags:
  assumes "books_ok rows" and "r \<in> set rows"
  shows "book_where_holds dia (Where_unsorted (shelf_sym sh) sh 0) r \<longleftrightarrow> r_cleaned r \<noteq> BOOK_DEL
      \<and> r_cleaned r = BOOK_UNSORTED \<and> on_shelf sh (book_entry_of r)"
    and "book_where_holds dia (Where_borrowed (shelf_sym sh) sh 0) r \<longleftrightarrow> r_cleaned r \<noteq> BOOK_DEL
      \<and> r_cleaned r = BOOK_AVL \<and> on_shelf sh (book_entry_of r) \<and> borrowed (book_entry_of r) = FLAG_BORROWED"
    and "book_where_holds dia (Where_on_reading (shelf_sym sh) sh 0) r \<longleftrightarrow> r_cleaned r \<noteq> BOOK_DEL
      \<and> r_cleaned r = BOOK_AVL \<and> on_shelf sh (book_entry_of r)
      \<and> on_reading (book_entry_of r) = FLAG_ON_READING"
  using bk.key_bounds [OF assms]
  by (auto simp: on_shelf_def sym_cmp_def char_num_one book_states find_flags NON_SENSE_INT_def
      book_entry_of_def)

context mysql_server
begin

lemma where_all:
  assumes "books_ok rows" and "r \<in> set rows"
  shows "book_where_holds dia (Where_keyword (shelf_sym sh) sh 0 None (Name_like (like_text api ''''))
      (And_like (like_text api '''')) (And_like (like_text api ''''))) r
    \<longleftrightarrow> r_cleaned r \<noteq> BOOK_DEL \<and> r_cleaned r = BOOK_AVL \<and> on_shelf sh (book_entry_of r)"
proof -
  have "lit dia (like_text api '''') = ''%%''" using lit_like [of "''''"] by (simp add: like_text_def)
  then show ?thesis
    using bk.key_bounds [OF assms] by (auto simp: on_shelf_def sym_cmp_def book_states
        NON_SENSE_INT_def keyword_holds_def like_any)
qed

lemma count_step_ok:
  assumes usr: "ident (m_user m)" and run: "count_step api s m k = Some (True, m', s')"
    and plan: "book_find_plan api m = Find_stmt (Select_books False (book_table m) w MAX_BOOK_NUM) True"
    and rows: "books (data s) (book_table m) = Some rows" and inv: "books_ok rows"
    and Q: "\<And>r. r \<in> set rows \<Longrightarrow> book_where_holds dia w r \<longleftrightarrow>
      r_cleaned r \<noteq> BOOK_DEL \<and> P (r_cleaned r) (book_entry_of r)"
  shows "\<exists>s1. k (count_books (catalog rows) P) s1 = Some (True, m', s') \<and> data s1 = data s"
proof -
  obtain n s1 where f: "srvdb_book_find api s m = Some (True, n, s1)"
    and k: "k n s1 = Some (True, m', s')"
    using run by (auto simp: count_step_def split: option.splits if_splits)
  have "int (length rows) \<le> MAX_BOOK_NUM" using inv by (simp only: books_ok_def)
  then have "n = count_books (catalog rows) P"
    using find_ok(2) [OF usr f plan rows] book_page_all [of rows MAX_BOOK_NUM dia w]
      count_books_filter [OF inv Q] by simp
  with k find_ok(1) [OF usr f plan rows] show ?thesis by auto
qed

end

lemmas count_msgs = count_reading_msg_def count_lent_msg_def count_unsorted_msg_def count_avl_msg_def

lemma count_tables [simp]:
  "book_table (count_reading_msg m) = book_table m" "book_table (count_lent_msg m) = book_table m"
  "book_table (count_unsorted_msg m) = book_table m" "book_table (count_avl_msg m) = book_table m"
  by (simp_all add: count_msgs book_table_def)

lemma count_users [simp]:
  "m_user (count_reading_msg m) = m_user m" "m_user (count_lent_msg m) = m_user m"
  "m_user (count_unsorted_msg m) = m_user m" "m_user (count_avl_msg m) = m_user m"
  by (simp_all add: count_msgs)

text \<open>The four statements, given what the client has to send.\<close>

definition countable_request :: "message_cs \<Rightarrow> bool" where
  "countable_request m \<longleftrightarrow> borrowed (book_of m) \<noteq> FLAG_BORROWED
     \<and> (code1 (book_of m) = NON_SENSE_INT \<or> code0 (book_of m) = NON_SENSE_INT)"

lemma count_plans:
  assumes "countable_request m" and "sh = code0 (book_of m)"
    and "m1 = count_reading_msg m" and "m2 = count_lent_msg m1" and "m3 = count_unsorted_msg m2"
  shows "book_find_plan api m1 = Find_stmt (Select_books False (book_table m1)
      (Where_on_reading (shelf_sym sh) sh 0) MAX_BOOK_NUM) True"
    and "book_find_plan api m2 = Find_stmt (Select_books False (book_table m2)
      (Where_borrowed (shelf_sym sh) sh 0) MAX_BOOK_NUM) True"
    and "book_find_plan api m3 = Find_stmt (Select_books False (book_table m3)
      (Where_unsorted (shelf_sym sh) sh 0) MAX_BOOK_NUM) True"
    and "book_find_plan api (count_avl_msg m3) = Find_stmt (Select_books False (book_table m3)
      (Where_keyword (shelf_sym sh) sh 0 None (Name_like (like_text api ''''))
      (And_like (like_text api '''')) (And_like (like_text api ''''))) MAX_BOOK_NUM) True"
  using assms by (auto simp: countable_request_def book_find_plan_def count_msgs Let_def find_flags
      limits book_table_def keyword_plan_def name_cond_of_def field_cond_of_def)

context mysql_server
begin

lemma book_count_ok:
  assumes usr: "ident (m_user m)" and run: "srvdb_book_count api s m = Some (True, m', s')"
    and rows: "books (data s) (book_table m) = Some rows" and inv: "books_ok rows"
    and req: "countable_request m"
  defines "sh \<equiv> code0 (book_of m)" and "cnt \<equiv> count_books (catalog rows)"
  shows "take 4 (m_extra_info m') = [cnt (\<lambda>c e. on_shelf sh e),
      cnt (\<lambda>c e. c = BOOK_AVL \<and> on_shelf sh e \<and> on_reading e = FLAG_ON_READING),
      cnt (\<lambda>c e. c = BOOK_AVL \<and> on_shelf sh e \<and> borrowed e = FLAG_BORROWED),
      cnt (\<lambda>c e. c = BOOK_UNSORTED \<and> on_shelf sh e)] \<and> data s' = data s"
proof -
  let ?m1 = "count_reading_msg m"
  let ?m2 = "count_lent_msg ?m1"
  let ?m3 = "count_unsorted_msg ?m2"
  note plans = count_plans [OF req _ refl refl refl, where sh = sh and api = api]
  let ?P1 = "\<lambda>c e. c = BOOK_AVL \<and> on_shelf sh e \<and> on_reading e = FLAG_ON_READING"
  let ?P2 = "\<lambda>c e. c = BOOK_AVL \<and> on_shelf sh e \<and> borrowed e = FLAG_BORROWED"
  let ?P3 = "\<lambda>c e. c = BOOK_UNSORTED \<and> on_shelf sh e"
  let ?P4 = "\<lambda>c e. c = BOOK_AVL \<and> on_shelf sh e"
  note step = count_step_ok [OF _ _ _ _ inv]
  from step [OF _ run [unfolded srvdb_book_count_def Let_def] plans(1), where P = ?P1]
  obtain s1 where d1: "data s1 = data s"
    and k1: "count_step api s1 ?m2 (\<lambda>lent s2. count_step api s2 ?m3 (\<lambda>unsorted s3.
      count_step api s3 (count_avl_msg ?m3) (\<lambda>avl s4. Some (True, put_book_count
        \<lparr>books_all = avl + unsorted, books_on_reading = cnt ?P1, books_borrowed = lent,
          books_unsorted = unsorted\<rparr> (count_avl_msg ?m3), s4)))) = Some (True, m', s')"
    using rows usr where_flags(3) [OF inv] by (auto simp: cnt_def sh_def)
  from step [OF _ k1 plans(2), where P = ?P2]
  obtain s2 where d2: "data s2 = data s"
    and k2: "count_step api s2 ?m3 (\<lambda>unsorted s3.
      count_step api s3 (count_avl_msg ?m3) (\<lambda>avl s4. Some (True, put_book_count
        \<lparr>books_all = avl + unsorted, books_on_reading = cnt ?P1, books_borrowed = cnt ?P2,
          books_unsorted = unsorted\<rparr> (count_avl_msg ?m3), s4))) = Some (True, m', s')"
    using rows d1 usr where_flags(2) [OF inv] by (auto simp: cnt_def sh_def)
  from step [OF _ k2 plans(3), where P = ?P3]
  obtain s3 where d3: "data s3 = data s"
    and k3: "count_step api s3 (count_avl_msg ?m3) (\<lambda>avl s4. Some (True, put_book_count
        \<lparr>books_all = avl + cnt ?P3, books_on_reading = cnt ?P1, books_borrowed = cnt ?P2,
          books_unsorted = cnt ?P3\<rparr> (count_avl_msg ?m3), s4)) = Some (True, m', s')"
    using rows d2 usr where_flags(1) [OF inv] by (auto simp: cnt_def sh_def)
  from step [OF _ k3, where P = ?P4] plans(4)
  obtain s4 where d4: "data s4 = data s" and k4: "Some (True, put_book_count
        \<lparr>books_all = cnt ?P4 + cnt ?P3, books_on_reading = cnt ?P1, books_borrowed = cnt ?P2,
          books_unsorted = cnt ?P3\<rparr> (count_avl_msg ?m3), s4) = Some (True, m', s')"
    using rows d3 usr where_all [OF inv] by (auto simp: cnt_def sh_def)
  then show ?thesis
    using count_books_split [OF inv, of "on_shelf sh"] by (auto simp: put_book_count_def cnt_def)
qed

end

context mysql_up
begin

lemma find_up:
  assumes plan: "book_find_plan api m = Find_stmt (Select_books star (book_table m) w k) auto"
    and rows: "books (data s) (book_table m) = Some rows" and usr: "ident (m_user m)"
  shows "\<exists>n s'. srvdb_book_find api s m = Some (True, n, s') \<and> data s' = data s"
proof -
  let ?st = "Select_books star (book_table m) w k"
  obtain r s1 where q: "mysql_query api s ?st = (r, s1)"
    by (cases "mysql_query api s ?st") auto
  from query_runs [OF q plan_in_scope [OF usr plan]] have "r = book_result star (book_page dia w k rows)" "data s1 = data s"
    by (simp_all add: sql_select_books [OF rows])
  with plan ident_nonempty [OF usr] q show ?thesis
    by (simp add: srvdb_book_find_def store_result_def book_result_def)
qed

lemma count_step_up:
  assumes "book_find_plan api m = Find_stmt (Select_books star t w k) auto"
    and "book_table m = t" and "books (data s) t = Some rows" and "ident (m_user m)"
    and f: "\<And>n s2. data s2 = data s \<Longrightarrow> \<exists>m' s'. f n s2 = Some (True, m', s')"
  shows "\<exists>m' s'. count_step api s m f = Some (True, m', s')"
proof -
  obtain n s2 where "srvdb_book_find api s m = Some (True, n, s2)" and d: "data s2 = data s"
    using find_up [of m star w k auto s rows] assms(1-4) by auto
  then have "count_step api s m f = f n s2" by (simp add: count_step_def)
  with f [OF d] show ?thesis by simp
qed

lemma book_count_up:
  assumes rows: "books (data s) (book_table m) = Some rows"
    and req: "countable_request m" and user: "ident (m_user m)"
  shows "\<exists>m' s'. srvdb_book_count api s m = Some (True, m', s')"
proof -
  note plans = count_plans [OF req refl refl refl refl, where api = api]
  have rows': "books (data s1) (book_table m) = Some rows" if "data s1 = data s" for s1
    using that rows by simp
  note step = count_step_up [OF plans(1)] count_step_up [OF plans(2)] count_step_up [OF plans(3)]
    count_step_up [OF plans(4)]
  show ?thesis
    unfolding srvdb_book_count_def Let_def
  proof (rule step(1), goal_cases)
    case (4 n1 s1)
    show ?case
    proof (rule step(2), goal_cases)
      case (4 n2 s2)
      show ?case
      proof (rule step(3), goal_cases)
        case (4 n3 s3)
        show ?case
          by (rule step(4)) (use 4 \<open>data s2 = data s1\<close> \<open>data s1 = data s\<close> rows' user in auto)
      qed (use 4 \<open>data s1 = data s\<close> rows' user in auto)
    qed (use 4 rows' user in auto)
  qed (use rows user in auto)
qed

end

section \<open>Pages\<close>

fun set_start :: "int \<Rightarrow> book_where \<Rightarrow> book_where" where
  "set_start b (Where_unsorted c s _) = Where_unsorted c s b"
| "set_start b (Where_borrowed c s _) = Where_borrowed c s b"
| "set_start b (Where_on_reading c s _) = Where_on_reading c s b"
| "set_start b (Where_keyword c s _ f n a l) = Where_keyword c s b f n a l"

definition matches :: "dialect \<Rightarrow> book_where \<Rightarrow> int \<Rightarrow> book_row list \<Rightarrow> book_row list" where
  "matches dia w b rows = sort_key r_bookno (filter (book_where_holds dia (set_start b w)) rows)"

lemma book_page_matches: "book_page dia (set_start b w) k rows = take (nat k) (matches dia w b rows)"
  by (simp add: book_page_def matches_def)

lemma holds_set_start:
  "b \<le> l \<Longrightarrow> book_where_holds dia (set_start l w) r
     \<longleftrightarrow> l < r_bookno r \<and> book_where_holds dia (set_start b w) r"
  by (cases w) auto

lemma drop_strict_sorted:
  assumes "sorted_wrt (<) (map f xs)" and "k < length xs"
  shows "filter (\<lambda>x. f (xs ! k) < (f x :: int)) xs = drop (Suc k) xs"
  using assms
proof (induction xs arbitrary: k)
  case (Cons x xs)
  show ?case
  proof (cases k)
    case 0
    with Cons show ?thesis by (auto intro: filter_True)
  next
    case (Suc j)
    with Cons.prems have "\<not> f (xs ! j) < f x" by (auto dest!: bspec [OF _ nth_mem])
    with Suc Cons show ?thesis by simp
  qed
qed simp

lemma matches_strict:
  "distinct (map r_bookno rows) \<Longrightarrow> sorted_wrt (<) (map r_bookno (matches dia w b rows))"
proof -
  assume d: "distinct (map r_bookno rows)"
  then have "distinct (map r_bookno (matches dia w b rows))"
    by (simp add: matches_def distinct_map distinct_filter inj_on_def)
  moreover have "sorted (map r_bookno (matches dia w b rows))"
    by (simp add: matches_def)
  ultimately show ?thesis by (simp add: strict_sorted_iff)
qed

lemma matches_after:
  assumes "distinct (map r_bookno rows)" and "k < length (matches dia w b rows)"
  shows "matches dia w (r_bookno (matches dia w b rows ! k)) rows = drop (Suc k) (matches dia w b rows)"
proof -
  let ?x = "matches dia w b rows ! k"
  have "?x \<in> set (matches dia w b rows)" using assms(2) by (rule nth_mem)
  then have "book_where_holds dia (set_start b w) ?x" by (simp add: matches_def)
  then have le: "b \<le> r_bookno ?x" by (cases w) auto
  have "matches dia w l rows = filter (\<lambda>r. l < r_bookno r) (matches dia w b rows)" if "b \<le> l" for l
  proof -
    have "book_where_holds dia (set_start l w)
        = (\<lambda>r. book_where_holds dia (set_start b w) r \<and> l < r_bookno r)"
      using holds_set_start [OF that] by auto
    then show ?thesis by (simp add: matches_def filter_sort)
  qed
  from this [OF le] have "matches dia w (r_bookno ?x) rows
    = filter (\<lambda>r. r_bookno ?x < r_bookno r) (matches dia w b rows)" .
  also have "\<dots> = drop (Suc k) (matches dia w b rows)"
    by (rule drop_strict_sorted [OF matches_strict [OF assms(1)] assms(2)])
  finally show ?thesis .
qed

section \<open>Properties\<close>

context mysql_up
begin

lemma insert_refined:
  assumes rows: "books (data s) (book_table m) = Some rows" and inv: "books_ok rows"
    and req: "book_req_ok m" and st: "storable (book_of m)"
  shows "case srvdb_book_insert api s m of (ok, m', s') \<Rightarrow>
    let n = free_number (catalog rows); e = (book_of m)\<lparr>code2 := n\<rparr> in
    if card (dom (catalog rows)) < 10000
    then ok \<and> m' = set_book e m \<and> (\<exists>rows'. data s' = with_books (data s) (book_table m) rows'
           \<and> books_ok rows' \<and> catalog rows' = (catalog rows)(n \<mapsto> (BOOK_AVL, e)))
    else \<not> ok \<and> m_error_text m' = err_book_limit \<and> data s' = data s"
proof -
  obtain ok m' s' where run: "srvdb_book_insert api s m = (ok, m', s')"
    by (cases "srvdb_book_insert api s m") auto
  have time: "plain_text (encoding_time (book_of m))" using req by (simp add: book_req_okD)
  note n = book_insert_up [OF req run rows inv st]
  from req run rows inv show ?thesis
  proof (cases rule: book_insert_effect)
    case failed
    with n show ?thesis by (simp add: run Let_def free_number_le [OF inv])
  next
    case (stored k rows')
    with n have "k = free_number (catalog rows)" by simp
    with stored n time show ?thesis
      by (auto simp: run Let_def free_number_le [OF inv] book_row_of_args_entry)
  qed
qed

end

context mysql_server
begin

lemma insert_faulty:
  assumes rows: "books (data s) (book_table m) = Some rows" and inv: "books_ok rows"
    and req: "book_req_ok m"
  shows "case srvdb_book_insert api s m of (ok, m', s') \<Rightarrow>
    if ok then (\<exists>n rows'. n \<notin> dom (catalog rows) \<and> 1 \<le> n \<and> n \<le> MAX_BOOK_NUM
        \<and> m' = set_book ((book_of m)\<lparr>code2 := n\<rparr>) m
        \<and> data s' = with_books (data s) (book_table m) rows' \<and> books_ok rows'
        \<and> catalog rows' = (catalog rows)(n \<mapsto> (BOOK_AVL, (book_of m)\<lparr>code2 := n\<rparr>)))
    else data s' = data s"
proof -
  obtain ok m' s' where run: "srvdb_book_insert api s m = (ok, m', s')"
    by (cases "srvdb_book_insert api s m") auto
  from req run rows inv show ?thesis
  proof (cases rule: book_insert_effect)
    case failed
    then show ?thesis by (simp add: run)
  next
    case (stored n rows')
    with req show ?thesis by (auto simp: run book_row_of_args_entry book_req_okD)
  qed
qed

lemma delete_refined:
  assumes rows: "books (data s) (book_table m) = Some rows" and inv: "books_ok rows"
    and usr: "ident (m_user m)"
  shows "case srvdb_book_delete api s m of (ok, m', s') \<Rightarrow>
    if ok then (\<exists>rows'. data s' = with_books (data s) (book_table m) rows' \<and> books_ok rows'
        \<and> catalog rows' = (if whole_shelf m then drop_shelf (code0 (book_of m)) (catalog rows)
            else (catalog rows)(code2 (book_of m) := None)))
    else data s' = data s"
proof -
  obtain ok m' s' where run: "srvdb_book_delete api s m = (ok, m', s')"
    by (cases "srvdb_book_delete api s m") auto
  from usr run rows inv show ?thesis
    by (cases rule: book_delete_effect) (auto simp: run)
qed

lemma update_refined:
  assumes rows: "books (data s) (book_table m) = Some rows" and inv: "books_ok rows"
    and req: "book_req_ok m"
    and sound: "if whole_shelf m then \<forall>r \<in> set rows. r_shelfno r = code0 (book_of m) \<longrightarrow> r_cleaned r \<noteq> BOOK_DEL
      else code2 (book_of m) \<in> dom (catalog rows)"
  shows "case srvdb_book_update api s m of (ok, m', s') \<Rightarrow>
    if ok then (\<exists>rows'. data s' = with_books (data s) (book_table m) rows' \<and> books_ok rows'
        \<and> catalog rows' = (if whole_shelf m then unsort_shelf (code0 (book_of m)) (catalog rows)
            else (catalog rows)(code2 (book_of m) \<mapsto> (BOOK_AVL, book_of m))))
    else data s' = data s"
proof -
  obtain ok m' s' where run: "srvdb_book_update api s m = (ok, m', s')"
    by (cases "srvdb_book_update api s m") auto
  from req run rows inv show ?thesis
  proof (cases rule: book_update_effect)
    case failed
    then show ?thesis by (simp add: run)
  next
    case shelf
    with sound catalog_unsort_shelf [of rows "code0 (book_of m)"] show ?thesis
      by (auto simp: run intro!: exI books_ok_clean [OF inv])
  next
    case (book rows')
    with sound have "code2 (book_of m) \<in> {1..int (length rows)}"
      by (auto simp: bk.dom_live [OF inv] simp del: domIff)
    with book req show ?thesis by (auto simp: run book_row_of_args_entry book_req_okD)
  qed
qed

lemma unsort_revives:
  assumes req: "book_req_ok m" and run: "srvdb_book_update api s m = (True, m', s')"
    and rows: "books (data s) (book_table m) = Some rows" and inv: "books_ok rows"
    and whole: "whole_shelf m" and r: "r \<in> set rows" "r_shelfno r = code0 (book_of m)"
  shows "\<exists>rows'. books (data s') (book_table m) = Some rows'
    \<and> catalog rows' (r_bookno r) = Some (BOOK_UNSORTED, book_entry_of r)"
proof -
  let ?rows = "map (\<lambda>r. if r_shelfno r = code0 (book_of m) then r\<lparr>r_cleaned := BOOK_UNSORTED\<rparr> else r) rows"
  from req run rows inv have "data s' = with_books (data s) (book_table m) ?rows"
    by (cases rule: book_update_effect) (use whole in auto)
  moreover have "row_no rows (r_bookno r) = Some r"
    using inv r(1) by (intro bk.row_Some) (auto simp: books_ok_def)
  then have "catalog ?rows (r_bookno r) = Some (BOOK_UNSORTED, book_entry_of r)"
    using r(2) by (subst bk.live_map) (auto simp: book_states Let_def)
  ultimately show ?thesis by simp
qed

end

definition sample_row :: "int \<Rightarrow> int \<Rightarrow> book_row" where
  "sample_row n c = \<lparr>r_shelfno = 2, r_floorno = 1, r_bookno = n, r_name = ''SICP'', r_author = ''A S'',
     r_label = ''-'', r_borrowed = CHR ''0'', r_on_reading = CHR ''1'', r_cleaned = c,
     r_encoding_time = ''2020-01-01''\<rparr>"

definition sample_rows :: "book_row list" where
  "sample_rows = [sample_row 1 BOOK_AVL, sample_row 2 BOOK_DEL, sample_row 3 BOOK_AVL]"

definition sample_srv :: "book_row list \<Rightarrow> ref_db srv" where
  "sample_srv rows = \<lparr>my_connection = \<lparr>rdb = \<lparr>books = [''u_books'' \<mapsto> rows], shelves = Map.empty,
       accounts = Some []\<rparr>, faults = [], last_errno = 0\<rparr>,
     res_ptr = None, res_fields = 0, res_rows = 0, info_flag = True, my_port = 0,
     my_hostname = ''h'', my_password = ''p''\<rparr>"

definition sample_book :: book_entry where
  "sample_book = \<lparr>code0 = 2, code1 = 1, code2 = 0, b_name = ''Emma'', b_author = ''J A'',
     b_label = ''-'', borrowed = CHR ''0'', on_reading = CHR ''0'', encoding_time = ''2021-05-05''\<rparr>"

definition sample_msg :: "trans_stuff \<Rightarrow> message_cs" where
  "sample_msg st = \<lparr>m_user = ''u'', m_request = req_insert_book_e, m_stuff = st,
     m_response = r_success, m_error_text = '''', m_extra_info = replicate 7 0\<rparr>"

lemmas sample_defs = sample_row_def sample_rows_def sample_srv_def sample_book_def sample_msg_def

lemma sample_table: "book_table (sample_msg st) = ''u_books''"
  by (simp add: sample_msg_def book_table_def)

lemma sample_rows_ok: "books_ok sample_rows"
  by code_simp

lemma sample_ident: "ident (m_user (sample_msg st))"
  by (simp add: sample_msg_def ident_def is_digit_def)

lemma sample_book_of [simp]: "book_of (sample_msg (Book_un b)) = b"
  by (simp add: sample_msg_def)

lemma sample_req: "book_req_ok (sample_msg (Book_un (sample_book\<lparr>code2 := n\<rparr>)))"
  using sample_ident by (simp add: book_req_ok_def) (simp add: sample_book_def is_digit_def plain_text_def)

lemma sample_book_code2: "sample_book\<lparr>code2 := 0\<rparr> = sample_book"
  by (simp add: sample_book_def)

lemma sample_req0: "book_req_ok (sample_msg (Book_un sample_book))"
  using sample_req [of 0] by (simp add: sample_book_code2)

lemma sample_storable: "storable sample_book"
  by code_simp

lemma sample_books: "books (srv_data rdb (sample_srv rows)) ''u_books'' = Some rows"
  by (simp add: srv_data_def sample_srv_def)

lemma sample_free: "free_number (catalog sample_rows) = 2"
  by (rule free_number_eq) (auto simp: sample_defs catalog_def row_no_def book_states)

lemma sample_card: "card (dom (catalog sample_rows)) < 10000"
  using free_number_le [OF sample_rows_ok] by (simp add: sample_free limits)




text \<open>The second statement of the sequence fails here, so the reuse of number 2 is given up and the
  book gets number 4.\<close>

definition faulty_srv :: "bool list \<Rightarrow> ref_db srv" where
  "faulty_srv fs = (sample_srv sample_rows)\<lparr>my_connection := (my_connection (sample_srv sample_rows))\<lparr>faults := fs\<rparr>\<rparr>"

lemma faulty_books: "books (srv_data rdb (faulty_srv fs)) ''u_books'' = Some sample_rows"
  by (simp add: srv_data_def faulty_srv_def sample_srv_def)


text \<open>C3: whatever faults the database has, a deletion removes exactly the requested book, or every book of
  the requested shelf, from the catalogue, or fails and changes nothing.\<close>

theorem book_delete_refines:
  assumes "mysql_server api dia db_of"
    and "books (srv_data db_of s) (book_table m) = Some rows" and "books_ok rows"
    and "ident (m_user m)"
  shows "case srvdb_book_delete api s m of (ok, m', s') \<Rightarrow>
    if ok then (\<exists>rows'. srv_data db_of s' = with_books (srv_data db_of s) (book_table m) rows' \<and> books_ok rows'
        \<and> catalog rows' = (if whole_shelf m then drop_shelf (code0 (book_of m)) (catalog rows)
            else (catalog rows)(code2 (book_of m) := None)))
    else srv_data db_of s' = srv_data db_of s"
  by (rule mysql_server.delete_refined [OF assms])

theorem book_delete_refines_witness:
  "case srvdb_book_delete ref_api (sample_srv sample_rows) (sample_msg (Book_un (sample_book\<lparr>code2 := 3\<rparr>))) of
     (ok, m', s') \<Rightarrow> ok \<and> (\<exists>rows'. books (srv_data rdb s') ''u_books'' = Some rows'
       \<and> catalog rows' = (catalog sample_rows)(3 := None))"
proof -
  let ?m = "sample_msg (Book_un (sample_book\<lparr>code2 := 3\<rparr>))"
  have "books (srv_data rdb (sample_srv sample_rows)) (book_table ?m) = Some sample_rows"
    by (simp add: sample_table sample_books)
  note book_delete_refines [OF ref.mysql_server_axioms this sample_rows_ok sample_ident]
  moreover have "fst (srvdb_book_delete ref_api (sample_srv sample_rows) ?m)" by code_simp
  moreover have "\<not> whole_shelf ?m" and "code2 (book_of ?m) = 3"
    by (simp_all add: whole_shelf_def sample_msg_def limits)
  ultimately show ?thesis by (auto simp: sample_table split: prod.splits)
qed



text \<open>C5: marking the books of a shelf unsorted brings back the books of that shelf that had been
  deleted: the statement does not look at their state.\<close>

theorem unsort_revives_deleted:
  assumes "mysql_server api dia db_of" and "book_req_ok m"
    and "srvdb_book_update api s m = (True, m', s')"
    and "books (srv_data db_of s) (book_table m) = Some rows" and "books_ok rows"
    and "whole_shelf m" and "r \<in> set rows" and "r_shelfno r = code0 (book_of m)"
    and "r_cleaned r = BOOK_DEL"
  shows "catalog rows (r_bookno r) = None \<and> (\<exists>rows'. books (srv_data db_of s') (book_table m) = Some rows'
    \<and> catalog rows' (r_bookno r) = Some (BOOK_UNSORTED, book_entry_of r))"
  using mysql_server.unsort_revives [OF assms(1-8)] assms(5,7,9)
  by (auto simp: catalog_def books_ok_def bk.row_Some)

theorem unsort_revives_deleted_witness:
  "catalog sample_rows 2 = None \<and> (\<exists>rows'. books (srv_data rdb (snd (snd (srvdb_book_update ref_api
       (sample_srv sample_rows) (sample_msg (Book_un sample_book)))))) ''u_books'' = Some rows'
     \<and> catalog rows' 2 = Some (BOOK_UNSORTED, book_entry_of (sample_row 2 BOOK_DEL)))"
proof -
  let ?m = "sample_msg (Book_un sample_book)"
  let ?run = "srvdb_book_update ref_api (sample_srv sample_rows) ?m"
  have "fst ?run" by code_simp
  then have run: "?run = (True, fst (snd ?run), snd (snd ?run))" by (cases ?run) auto
  have t: "book_table ?m = ''u_books''" by (rule sample_table)
  have b: "book_of ?m = sample_book" by (simp add: sample_msg_def)
  have row: "sample_row 2 BOOK_DEL \<in> set sample_rows" by (simp add: sample_rows_def)
  have num: "r_bookno (sample_row 2 BOOK_DEL) = 2" by (simp add: sample_row_def)
  show ?thesis
    using unsort_revives_deleted [OF ref.mysql_server_axioms sample_req0 run, unfolded t, OF sample_books
        sample_rows_ok _ row, unfolded b num]
    by (simp add: whole_shelf_def sample_msg_def sample_book_def sample_row_def limits)
qed



end
