(* ===== verification/Srvdb_Shelf.thy ===== *)
theory Srvdb_Shelf
  imports Srvdb_Search
begin

text \<open>
  The shelf operations of \<^verbatim>\<open>bsdqserver/srvdb.c\<close>: build, remove, update, find, fetch and count.
  They follow the book operations; \<^const>\<open>None\<close> stands for undefined behaviour (a shelf with no floor or
  more than \<^verbatim>\<open>MAX_FLOORS\<close> makes the loop leave \<^verbatim>\<open>floor_depth_str\<close>, a result row that is too short makes
  the fetch read past it).  The meaning of a table is \<open>shelf_catalog\<close>: the shelves that stand, by
  number, each with its name, the depths of its floors and its building time.
\<close>

section \<open>Messages and texts\<close>

definition err_shelf_limit :: string where
  "err_shelf_limit = utf8 [230, 137, 147, 233, 128, 160, 229, 164, 177, 232, 180, 165, 58, 228, 185,
     166, 230, 158, 182, 232, 190, 190, 229, 136, 176, 228, 184, 138, 233, 153, 144]"

definition err_shelf_build :: string where
  "err_shelf_build = utf8 [230, 137, 147, 233, 128, 160, 228, 185, 166, 230, 158, 182, 229, 164, 177,
     232, 180, 165]"

definition shelf_table :: "message_cs \<Rightarrow> string" where
  "shelf_table m = m_user m @ ''_shelves''"

text \<open>\<^verbatim>\<open>floor_depth_str\<close>: one character \<^verbatim>\<open>ndepth[i] + '0'\<close> per floor (in \<^verbatim>\<open>char\<close> arithmetic), with
  commas between them; \<^verbatim>\<open>%s\<close> prints it up to the first 0.\<close>

definition depth_char :: "u8 \<Rightarrow> char" where
  "depth_char d = char_of (unat d + 48)"

definition char_depth :: "char \<Rightarrow> u8" where
  "char_depth c = word_of_int (int (of_char c) - 48)"

fun depth_text :: "u8 list \<Rightarrow> string" where
  "depth_text [] = []"
| "depth_text [d] = [depth_char d]"
| "depth_text (d # ds) = depth_char d # CHR '','' # depth_text ds"

definition floor_depth_str :: "shelf_entry \<Rightarrow> string option" where
  "floor_depth_str e =
     (let n = unat (nfloors e) in
      if n = 0 \<or> MAX_FLOORS < n then None
      else Some (takeWhile (\<lambda>c. c \<noteq> NUL) (depth_text (take n (ndepth e)))))"

definition shelf_args :: "'db mysql_api \<Rightarrow> shelf_entry \<Rightarrow> string \<Rightarrow> int \<Rightarrow> shelf_sql" where
  "shelf_args api e fd n = \<lparr>qs_shelfno = n, qs_name = api_escape api (s_name e),
     qs_nfloors = int (unat (nfloors e)), qs_floor_depth = fd, qs_cleaned = SHELF_AVL,
     qs_building_time = building_time e\<rparr>"

section \<open>Building\<close>

definition shelf_build_reuse :: "'db mysql_api \<Rightarrow> string \<Rightarrow> message_cs \<Rightarrow> 'db srv
    \<Rightarrow> int option \<times> int \<times> 'db srv" where
  "shelf_build_reuse api fd m s =
     (case mysql_query api s (Select_min_shelfno (shelf_table m) SHELF_DEL) of (r, s1) \<Rightarrow>
        if is_err r then (None, 0, mysql_check_connection api s1)
        else (case get_simple_result r of
            None \<Rightarrow> (None, 0, s1)
          | Some t \<Rightarrow>
              if t = '''' then (None, 0, s1)
              else (let n = sscanf_d t 0 in
                case mysql_query api s1 (Update_shelf_reuse (shelf_table m) (shelf_args api (shelf_of m) fd n))
                of (r2, s2) \<Rightarrow>
                  if is_err r2 then (None, n, mysql_check_connection api s2)
                  else if r2 = Q_ok 1 then (Some n, n, s2)
                  else (None, n, s2))))"

definition shelf_build_number :: "'db mysql_api \<Rightarrow> int \<Rightarrow> message_cs \<Rightarrow> 'db srv
    \<Rightarrow> (message_cs \<times> 'db srv) + (int \<times> message_cs \<times> 'db srv)" where
  "shelf_build_number api used m s =
     (case mysql_query api s (Select_max_shelfno (shelf_table m)) of (r, s1) \<Rightarrow>
        if is_err r then Inl (m, mysql_check_connection api s1)
        else (case get_simple_result r of
            None \<Rightarrow> Inr (1, set_shelf ((shelf_of m)\<lparr>s_code := 1\<rparr>) m, s1)
          | Some t \<Rightarrow>
              if t = '''' then Inr (used, m, s1)
              else (let n = sscanf_d t used in
                if MAX_SHELF_NUM \<le> n then Inl (m\<lparr>m_error_text := err_shelf_limit\<rparr>, s1)
                else Inr (n + 1, set_shelf ((shelf_of m)\<lparr>s_code := n + 1\<rparr>) m, s1))))"

definition srvdb_shelf_build :: "'db mysql_api \<Rightarrow> 'db srv \<Rightarrow> message_cs
    \<Rightarrow> (bool \<times> message_cs \<times> 'db srv) option" where
  "srvdb_shelf_build api s m =
     (if m_user m = '''' then Some (False, m, s)
      else case floor_depth_str (shelf_of m) of None \<Rightarrow> None | Some fd \<Rightarrow>
        Some (case shelf_build_reuse api fd m s of
          (Some n, _, s1) \<Rightarrow> (True, set_shelf ((shelf_of m)\<lparr>s_code := n\<rparr>) m, s1)
        | (None, used, s1) \<Rightarrow>
            (case shelf_build_number api used m s1 of
               Inl (m2, s2) \<Rightarrow> (False, m2, s2)
             | Inr (n, m2, s2) \<Rightarrow>
                 (case mysql_query api s2 (Insert_shelf (shelf_table m) (shelf_args api (shelf_of m) fd n))
                  of (r, s3) \<Rightarrow>
                    if \<not> is_err r then (True, m2, s3)
                    else (False, m2\<lparr>m_error_text := err_shelf_build\<rparr>, mysql_check_connection api s3)))))"

section \<open>Removal and update\<close>

text \<open>After the shelf is marked, the code formats the statement that would take its books off the
  shelf but does not run it.\<close>

definition srvdb_shelf_remove :: "'db mysql_api \<Rightarrow> 'db srv \<Rightarrow> message_cs \<Rightarrow> bool \<times> message_cs \<times> 'db srv" where
  "srvdb_shelf_remove api s m =
     (if m_user m = '''' then (False, m, s)
      else case mysql_query api s (Update_shelf_cleaned (shelf_table m) SHELF_DEL (s_code (shelf_of m)))
        of (r, s1) \<Rightarrow>
          if \<not> is_err r then (True, m, s1) else (False, m, mysql_check_connection api s1))"

definition srvdb_shelf_update :: "'db mysql_api \<Rightarrow> 'db srv \<Rightarrow> message_cs
    \<Rightarrow> (bool \<times> message_cs \<times> 'db srv) option" where
  "srvdb_shelf_update api s m =
     (if m_user m = '''' then Some (False, m, s)
      else case floor_depth_str (shelf_of m) of None \<Rightarrow> None | Some fd \<Rightarrow>
        Some (case mysql_query api s (Update_shelf (shelf_table m)
                (shelf_args api (shelf_of m) fd (s_code (shelf_of m)))) of (r, s1) \<Rightarrow>
          if \<not> is_err r then (True, m, s1) else (False, m, mysql_check_connection api s1)))"

section \<open>Searching and counting\<close>

definition shelf_find_stmt :: "message_cs \<Rightarrow> stmt" where
  "shelf_find_stmt m =
     (let count_only = (s_code (shelf_of m) = BREAK_LIMIT_INT);
          start = (if count_only then 0 else s_code (shelf_of m));
          limit = (if count_only then MAX_SHELF_NUM else DEFAULT_FINDS)
      in if start < 0 then Select_shelf (\<not> count_only) (shelf_table m) (- start) SHELF_AVL limit
         else Select_shelves (\<not> count_only) (shelf_table m) start SHELF_AVL limit)"

definition srvdb_shelf_find :: "'db mysql_api \<Rightarrow> 'db srv \<Rightarrow> message_cs \<Rightarrow> bool \<times> int \<times> 'db srv" where
  "srvdb_shelf_find api s m =
     (if m_user m = '''' then (False, 0, s)
      else case mysql_query api s (shelf_find_stmt m) of (r, s1) \<Rightarrow>
        if is_err r then (False, 0, mysql_check_connection api s1)
        else (case store_result r s1 of
            None \<Rightarrow> (False, 0, s1\<lparr>res_ptr := None\<rparr>)
          | Some (n, s2) \<Rightarrow> (True, n, s2)))"

text \<open>\<^verbatim>\<open>sqlrow[i][k]\<close>: the character, the terminating 0, or a read past the end.\<close>

definition c_char :: "string \<Rightarrow> nat \<Rightarrow> char option" where
  "c_char t k = (if k < length t then Some (t ! k) else if k = length t then Some NUL else None)"

text \<open>The loop that extracts \<^verbatim>\<open>ndepth[]\<close>.\<close>

fun fetch_depths :: "string \<Rightarrow> nat \<Rightarrow> nat \<Rightarrow> u8 list \<Rightarrow> u8 list option" where
  "fetch_depths t 0 j ds = Some ds"
| "fetch_depths t (Suc n) j ds =
     (if MAX_FLOORS \<le> j then None
      else case c_char t (2 * j) of None \<Rightarrow> None
        | Some c \<Rightarrow> fetch_depths t n (Suc j) (ds[j := char_depth c]))"

fun shelf_of_cells :: "string option list \<Rightarrow> shelf_entry \<Rightarrow> shelf_entry option" where
  "shelf_of_cells [Some a, Some n, Some f, Some d, _, Some t] e =
     (case c_char f 0 of None \<Rightarrow> None | Some c \<Rightarrow>
        (let k = char_depth c in
         case fetch_depths d (unat k) 0 (ndepth e) of None \<Rightarrow> None
         | Some ds \<Rightarrow> Some \<lparr>s_code = sscanf_d a (s_code e), s_name = n, nfloors = k, ndepth = ds,
             building_time = t\<rparr>))"
| "shelf_of_cells _ e = None"

definition srvdb_shelf_fetch_result :: "'db mysql_api \<Rightarrow> 'db srv \<Rightarrow> message_cs
    \<Rightarrow> fetch_result \<times> message_cs \<times> 'db srv" where
  "srvdb_shelf_fetch_result api s m =
     (case res_ptr s of
        None \<Rightarrow> (FETCH_RESULT_UB, m, s)
      | Some rows \<Rightarrow>
          (let s1 = s\<lparr>res_ptr := Some (tl rows)\<rparr> in
           if api_errno api (my_connection s) \<noteq> 0 then (FETCH_RESULT_ERR, m, srvdb_free_result s1)
           else (case rows of
               [] \<Rightarrow> if res_rows s = DEFAULT_FINDS then (FETCH_RESULT_END_MORE, m, s1)
                     else (FETCH_RESULT_END, m, srvdb_free_result s1)
             | row # _ \<Rightarrow>
                 (case shelf_of_cells row (shelf_of m) of
                    None \<Rightarrow> (FETCH_RESULT_UB, m, s1)
                  | Some e \<Rightarrow>
                      if res_fields s \<noteq> 6 then (FETCH_RESULT_ERR, set_shelf e m, srvdb_free_result s1)
                      else (FETCH_RESULT_CONT, set_shelf e m, s1)))))"

definition srvdb_shelf_count :: "'db mysql_api \<Rightarrow> 'db srv \<Rightarrow> message_cs \<Rightarrow> bool \<times> message_cs \<times> 'db srv" where
  "srvdb_shelf_count api s m =
     (let m1 = set_shelf ((shelf_of m)\<lparr>s_code := BREAK_LIMIT_INT\<rparr>) m
      in case srvdb_shelf_find api s m1 of (ok, n, s1) \<Rightarrow>
           if \<not> ok then (False, m1, s1)
           else (True, m1\<lparr>m_extra_info := n # drop 1 (m_extra_info m1)\<rparr>, srvdb_free_result s1))"

section \<open>The standing shelves\<close>

type_synonym shelf_info = "string \<times> u8 list \<times> string"

definition info_of_entry :: "shelf_entry \<Rightarrow> shelf_info" where
  "info_of_entry e = (s_name e, take (unat (nfloors e)) (ndepth e), building_time e)"

definition row_floors :: "shelf_row \<Rightarrow> nat" where
  "row_floors h = unat (char_depth (hd (h_nfloors h)))"

definition info_of_row :: "shelf_row \<Rightarrow> shelf_info" where
  "info_of_row h = (h_name h, map (\<lambda>j. char_depth (h_floor_depth h ! (2 * j))) [0..<row_floors h],
     h_building_time h)"

definition shelf_row_ok :: "shelf_row \<Rightarrow> bool" where
  "shelf_row_ok h \<longleftrightarrow> length (h_nfloors h) = 1 \<and> 1 \<le> row_floors h \<and> row_floors h \<le> MAX_FLOORS
     \<and> 2 * row_floors h - 1 \<le> length (h_floor_depth h) \<and> h_cleaned h \<in> {SHELF_AVL, SHELF_DEL}"

definition shelf_row_no :: "shelf_row list \<Rightarrow> int \<Rightarrow> shelf_row option" where
  "shelf_row_no rows n = find (\<lambda>h. h_shelfno h = n) rows"

definition shelf_catalog :: "shelf_row list \<Rightarrow> int \<rightharpoonup> shelf_info" where
  "shelf_catalog rows n = (case shelf_row_no rows n of None \<Rightarrow> None
     | Some h \<Rightarrow> if h_cleaned h = SHELF_DEL then None else Some (info_of_row h))"

definition removed_shelves :: "shelf_row list \<Rightarrow> int set" where
  "removed_shelves rows = h_shelfno ` {h \<in> set rows. h_cleaned h = SHELF_DEL}"

definition shelves_ok :: "shelf_row list \<Rightarrow> bool" where
  "shelves_ok rows \<longleftrightarrow> distinct (map h_shelfno rows) \<and> h_shelfno ` set rows = {1..int (length rows)}
     \<and> int (length rows) \<le> MAX_SHELF_NUM \<and> (\<forall>h \<in> set rows. shelf_row_ok h)"

definition with_shelves :: "database \<Rightarrow> string \<Rightarrow> shelf_row list \<Rightarrow> database" where
  "with_shelves d t rows = d\<lparr>shelves := (shelves d)(t \<mapsto> rows)\<rparr>"

lemma shelves_with_shelves [simp]:
  "shelves (with_shelves d t rows) = (shelves d)(t \<mapsto> rows)" "books (with_shelves d t rows) = books d"
  by (simp_all add: with_shelves_def)

lemma with_shelves_same: "shelves d t = Some rows \<Longrightarrow> with_shelves d t rows = d"
  by (cases d) (simp add: with_shelves_def fun_upd_idem)

lemma on_shelves_Some:
  "shelves d t = Some rows \<Longrightarrow> on_shelves t d f = (fst (f rows), with_shelves d t (snd (f rows)))"
  by (simp add: on_shelves_def with_shelves_def split: prod.splits)

interpretation sf: numbered_table h_shelfno "\<lambda>h. h_cleaned h = SHELF_DEL" info_of_row MAX_SHELF_NUM
    shelf_row_no shelf_catalog removed_shelves shelves_ok
  by unfold_locales (simp_all add: shelf_row_no_def shelf_catalog_def removed_shelves_def shelves_ok_def)

lemma shelves_ok_map:
  assumes "shelves_ok rows" and "\<And>h. P h \<Longrightarrow> h_shelfno (f h) = h_shelfno h"
    and "\<And>h. P h \<Longrightarrow> shelf_row_ok h \<Longrightarrow> shelf_row_ok (f h)"
  shows "shelves_ok (map (\<lambda>h. if P h then f h else h) rows)"
proof -
  have "\<forall>h \<in> set (map (\<lambda>h. if P h then f h else h) rows). shelf_row_ok h"
    using assms(1,3) unfolding shelves_ok_def by auto
  with sf.keys_map [of P f rows] assms(1,2) show ?thesis
    unfolding shelves_ok_def by (simp only: length_map simp_thms)
qed

lemma shelves_ok_append:
  assumes "shelves_ok rows" and "h_shelfno new = int (length rows) + 1" and "h_shelfno new \<le> MAX_SHELF_NUM"
    and "shelf_row_ok new"
  shows "shelves_ok (rows @ [new])"
  using assms by (auto simp: shelves_ok_def)

section \<open>Depth texts\<close>

lemma char_depth_char [simp]: "char_depth (depth_char d) = d"
proof -
  have "(of_nat ((unat d + 48) mod 256) :: 8 word) = of_nat (unat d + 48)"
    by (rule word_of_nat_eq_iff [THEN iffD2]) (simp add: take_bit_eq_mod)
  then have "(of_nat (of_char (depth_char d)) :: 8 word) = d + 48"
    by (simp add: depth_char_def)
  then have "(word_of_int (int (of_char (depth_char d))) :: 8 word) = d + 48"
    by (simp only: of_int_of_nat_eq)
  then show ?thesis by (simp add: char_depth_def)
qed

lemma length_depth_text: "length (depth_text ds) = 2 * length ds - 1"
  by (induction ds rule: depth_text.induct) auto

lemma depth_text_nth: "j < length ds \<Longrightarrow> depth_text ds ! (2 * j) = depth_char (ds ! j)"
proof (induction ds arbitrary: j rule: depth_text.induct)
  case (3 d e ds)
  then show ?case by (cases j) auto
qed auto

lemma fetch_depths_eq:
  assumes "j + n \<le> MAX_FLOORS" and "length ds = MAX_FLOORS" and "2 * (j + n) \<le> Suc (length t)"
  shows "fetch_depths t n j ds
    = Some (take j ds @ map (\<lambda>i. char_depth (t ! (2 * i))) [j..<j + n] @ drop (j + n) ds)"
  using assms
proof (induction n arbitrary: j ds)
  case (Suc n)
  then have j: "2 * j < length t" "j < length ds" by auto
  then have "fetch_depths t (Suc n) j ds = fetch_depths t n (Suc j) (ds[j := char_depth (t ! (2 * j))])"
    using Suc.prems by (simp add: c_char_def)
  also have "\<dots> = Some (take (Suc j) (ds[j := char_depth (t ! (2 * j))])
      @ map (\<lambda>i. char_depth (t ! (2 * i))) [Suc j..<Suc j + n] @ drop (Suc j + n) (ds[j := char_depth (t ! (2 * j))]))"
    using Suc.prems by (intro Suc.IH) auto
  also have "\<dots> = Some (take j ds @ map (\<lambda>i. char_depth (t ! (2 * i))) [j..<j + Suc n] @ drop (j + Suc n) ds)"
  proof -
    have "[j..<j + Suc n] = j # [Suc j..<Suc j + n]" by (simp add: upt_conv_Cons)
    with j show ?thesis by (simp add: take_Suc_conv_app_nth del: upt_Suc)
  qed
  finally show ?case .
qed simp

section \<open>Requests\<close>

definition shelf_req_ok :: "message_cs \<Rightarrow> bool" where
  "shelf_req_ok m \<longleftrightarrow> ident (m_user m) \<and> plain_text (building_time (shelf_of m))
     \<and> 1 \<le> unat (nfloors (shelf_of m)) \<and> unat (nfloors (shelf_of m)) \<le> MAX_FLOORS
     \<and> length (ndepth (shelf_of m)) = MAX_FLOORS
     \<and> (\<forall>d \<in> set (take (unat (nfloors (shelf_of m))) (ndepth (shelf_of m))). unat d \<le> 9)"

definition floors_text :: "shelf_entry \<Rightarrow> string" where
  "floors_text e = depth_text (take (unat (nfloors e)) (ndepth e))"

lemma ident_shelf_table: "ident (m_user m) \<Longrightarrow> ident (shelf_table m)"
  by (auto simp: shelf_table_def ident_def is_digit_def)

lemma depth_char_digit: "unat d \<le> 9 \<Longrightarrow> is_digit (depth_char d)"
  by (simp add: depth_char_def is_digit_def)

lemma digit_plain: "is_digit c \<Longrightarrow> c \<noteq> NUL \<and> c \<noteq> CHR 0x27 \<and> c \<noteq> CHR 0x5C"
  by (auto simp: is_digit_def)

lemma depth_text_chars:
  "\<forall>d \<in> set ds. unat d \<le> 9 \<Longrightarrow> \<forall>c \<in> set (depth_text ds). is_digit c \<or> c = CHR '',''"
  by (induction ds rule: depth_text.induct) (auto simp: depth_char_digit)

lemma floor_depth_str_ok:
  assumes "shelf_req_ok m"
  shows "floor_depth_str (shelf_of m) = Some (floors_text (shelf_of m))"
    and "plain_text (floors_text (shelf_of m))"
proof -
  have c: "\<forall>c \<in> set (floors_text (shelf_of m)). is_digit c \<or> c = CHR '',''"
    using assms unfolding floors_text_def by (intro depth_text_chars) (simp add: shelf_req_ok_def)
  then show "plain_text (floors_text (shelf_of m))"
    by (auto simp: plain_text_def dest: digit_plain)
  have "takeWhile (\<lambda>c. c \<noteq> NUL) (floors_text (shelf_of m)) = floors_text (shelf_of m)"
    using c by (auto simp: takeWhile_eq_all_conv dest: digit_plain)
  with assms show "floor_depth_str (shelf_of m) = Some (floors_text (shelf_of m))"
    by (auto simp: floor_depth_str_def shelf_req_ok_def floors_text_def)
qed

lemma dec_one_char: "fits 1 (dec (int k)) \<Longrightarrow> k < 10"
proof -
  assume "fits 1 (dec (int k))"
  moreover have "utf8_len (dec (int k)) = length (dec (int k))"
    unfolding utf8_len_def by (rule arg_cong [where f = length], rule filter_True) 
      (auto simp: dec_def dest!: dec_nat_digits simp: is_digit_def)
  ultimately have "length (dec_nat k) \<le> 1" by (simp add: fits_def dec_def)
  then show "k < 10" by (cases "k < 10") (auto simp: dec_nat.simps [of k])
qed

lemma dec_digit: "k < 10 \<Longrightarrow> dec (int k) = [digit_char k]"
  by (simp add: dec_def dec_nat.simps [of k])

lemma dec_floors: "unat (w :: u8) < 10 \<Longrightarrow> dec (uint w) = [digit_char (unat w)]"
  using dec_digit [of "unat w"] by simp

lemma dec_floors_one: "fits 1 (dec (uint (w :: u8))) \<Longrightarrow> unat w < 10"
  using dec_one_char [of "unat w"] by simp

lemma char_depth_digit: "k < 10 \<Longrightarrow> char_depth (digit_char k) = of_nat k"
proof -
  assume "k < 10"
  then have "digit_char k = depth_char (of_nat k)"
    by (simp add: digit_char_def depth_char_def unat_of_nat add.commute)
  then show ?thesis by simp
qed

lemma shelf_row_of_args [simp]:
  "h_shelfno (shelf_row_of dia (shelf_args api e fd n)) = n"
  "h_cleaned (shelf_row_of dia (shelf_args api e fd n)) = SHELF_AVL"
  by (simp_all add: shelf_row_of_def shelf_args_def)

lemma write_shelf_cases:
  assumes "write_shelf dia q rows f = (r, rows')"
  obtains (bad) "is_err r" "rows' = rows"
    | (good) "shelf_row_fits (shelf_row_of dia q)" "f (shelf_row_of dia q) = (r, rows')"
  using assms by (auto simp: write_shelf_def split: if_splits)

context mysql_server
begin

abbreviation new_shelf :: "message_cs \<Rightarrow> int \<Rightarrow> shelf_row" where
  "new_shelf m n \<equiv> shelf_row_of dia (shelf_args api (shelf_of m) (floors_text (shelf_of m)) n)"

lemma shelf_args_ok:
  "shelf_req_ok m \<Longrightarrow> shelf_sql_ok (shelf_args api (shelf_of m) (floors_text (shelf_of m)) n)"
  using floor_depth_str_ok(2) [of m]
  by (simp add: shelf_sql_ok_def shelf_args_def escape_ok lit_ok_plain shelf_req_ok_def)

lemma new_shelf_fields:
  assumes "shelf_req_ok m"
  shows "h_nfloors (new_shelf m n) = dec (int (unat (nfloors (shelf_of m))))"
    and "h_floor_depth (new_shelf m n) = floors_text (shelf_of m)"
    and "h_name (new_shelf m n) = s_name (shelf_of m)"
    and "h_building_time (new_shelf m n) = building_time (shelf_of m)"
  using assms floor_depth_str_ok(2) [OF assms]
  by (simp_all add: shelf_row_of_def shelf_args_def lit_plain lit_escape shelf_req_ok_def)

lemma new_shelf_floors:
  assumes "shelf_req_ok m" and "unat (nfloors (shelf_of m)) < 10"
  shows "row_floors (new_shelf m n) = unat (nfloors (shelf_of m))"
  using assms by (simp add: row_floors_def new_shelf_fields dec_floors char_depth_digit)

lemma new_shelf_ok:
  assumes "shelf_req_ok m" and "unat (nfloors (shelf_of m)) < 10"
  shows "shelf_row_ok (new_shelf m n)" and "info_of_row (new_shelf m n) = info_of_entry (shelf_of m)"
proof -
  let ?e = "shelf_of m"
  have len: "length (take (unat (nfloors ?e)) (ndepth ?e)) = unat (nfloors ?e)"
    using assms(1) by (simp add: shelf_req_ok_def)
  show "shelf_row_ok (new_shelf m n)"
  proof -
    have "length (floors_text ?e) = 2 * unat (nfloors ?e) - 1"
      unfolding floors_text_def length_depth_text len by (rule refl)
    moreover have "1 \<le> unat (nfloors ?e)" "unat (nfloors ?e) \<le> MAX_FLOORS"
      using assms(1) by (simp_all add: shelf_req_ok_def)
    ultimately show ?thesis
      using assms by (simp add: shelf_row_ok_def new_shelf_floors new_shelf_fields dec_floors)
  qed
  have "map (\<lambda>j. char_depth (floors_text ?e ! (2 * j))) [0..<unat (nfloors ?e)]
      = take (unat (nfloors ?e)) (ndepth ?e)"
    using len by (intro nth_equalityI) (simp_all add: floors_text_def depth_text_nth)
  then show "info_of_row (new_shelf m n) = info_of_entry ?e"
    using assms by (simp add: info_of_row_def info_of_entry_def new_shelf_floors new_shelf_fields)
qed

lemma shelf_fits_floors:
  "shelf_req_ok m \<Longrightarrow> shelf_row_fits (new_shelf m n) \<Longrightarrow> unat (nfloors (shelf_of m)) < 10"
  using dec_floors_one by (simp add: shelf_row_fits_def new_shelf_fields)

end

lemma sql_min_shelfno:
  assumes "shelves d t = Some rows"
  shows "sql_exec dia (Select_min_shelfno t SHELF_DEL) d
    = (Q_rows 1 [[if removed_shelves rows = {} then None
                  else Some (dec (Min (removed_shelves rows)))]], d)"
proof -
  let ?ks = "map h_shelfno (filter (\<lambda>h. h_cleaned h = SHELF_DEL) rows)"
  have ks: "set ?ks = removed_shelves rows"
    by (auto simp: removed_shelves_def)
  then have "?ks = [] \<longleftrightarrow> removed_shelves rows = {}"
    by (metis set_empty)
  moreover have "?ks \<noteq> [] \<Longrightarrow> sql_min ?ks = Min (removed_shelves rows)"
    using ks sql_min_Min [of ?ks] by simp
  ultimately show ?thesis
    using assms by (simp add: sql_exec.simps on_shelves_Some with_shelves_same aggregate_def)
qed

lemma sql_max_shelfno:
  assumes "shelves d t = Some rows"
  shows "sql_exec dia (Select_max_shelfno t) d
    = (Q_rows 1 [[if rows = [] then None else Some (dec (Max (h_shelfno ` set rows)))]], d)"
  using assms sql_max_Max [of "map h_shelfno rows"]
  by (simp add: sql_exec.simps on_shelves_Some with_shelves_same aggregate_def)

lemma shelf_reuse_affected:
  assumes "shelves_ok rows" and "n \<in> removed_shelves rows" and "h_cleaned new = SHELF_AVL"
  shows "fst (update_where (\<lambda>h. h_shelfno h = n) (\<lambda>h. new) rows) = 1"
proof -
  obtain h where "h \<in> set rows" "h_shelfno h = n" "h_cleaned h = SHELF_DEL"
    using assms(2) by (auto simp: removed_shelves_def)
  moreover from this assms(3) have "new \<noteq> h" by (auto simp: book_states)
  ultimately show ?thesis
    using assms(1) by (intro update_where_one [where r = h]) (auto simp: shelves_ok_def)
qed

section \<open>Building: proofs\<close>

context mysql_server
begin

lemma shelf_build_reuse_cases:
  assumes req: "shelf_req_ok m"
    and run: "shelf_build_reuse api (floors_text (shelf_of m)) m s = (res, used, s1)"
    and rows: "shelves (data s) (shelf_table m) = Some rows" and ok: "shelves_ok rows"
  obtains (no) "res = None" "data s1 = data s"
    | (reused) n where "res = Some n" "n = Min (removed_shelves rows)" "n \<in> removed_shelves rows"
        "unat (nfloors (shelf_of m)) < 10"
        "data s1 = with_shelves (data s) (shelf_table m)
           (map (\<lambda>h. if h_shelfno h = n then new_shelf m n else h) rows)"
proof -
  let ?t = "shelf_table m"
  have t: "ident ?t" using req ident_shelf_table by (simp add: shelf_req_ok_def)
  obtain r1 sa where q1: "mysql_query api s (Select_min_shelfno ?t SHELF_DEL) = (r1, sa)"
    by (cases "mysql_query api s (Select_min_shelfno ?t SHELF_DEL)") auto
  have "stmt_in_scope (Select_min_shelfno ?t SHELF_DEL)" using t by simp
  from this q1 show thesis
  proof (cases rule: query_cases)
    case err
    with q1 run show thesis by (intro no) (auto simp: shelf_build_reuse_def)
  next
    case ran
    note ran1 = ran
    show thesis
    proof (cases "removed_shelves rows = {}")
      case True
      with ran1 q1 run show thesis
        by (intro no) (auto simp: shelf_build_reuse_def sql_min_shelfno [OF rows])
    next
      case False
      let ?n = "Min (removed_shelves rows)"
      let ?q = "shelf_args api (shelf_of m) (floors_text (shelf_of m)) ?n"
      have n: "?n \<in> removed_shelves rows"
        using False by (intro Min_in) auto
      obtain r2 sb where q2: "mysql_query api sa (Update_shelf_reuse ?t ?q) = (r2, sb)"
        by (cases "mysql_query api sa (Update_shelf_reuse ?t ?q)") auto
      have d1: "data sa = data s"
        using ran1 by (simp add: sql_min_shelfno [OF rows])
      have res: "(res, used, s1) = (if is_err r2 then (None, ?n, mysql_check_connection api sb)
          else if r2 = Q_ok 1 then (Some ?n, ?n, sb) else (None, ?n, sb))"
        using run q1 q2 ran1 False by (auto simp: shelf_build_reuse_def sql_min_shelfno [OF rows] Let_def)
      have "stmt_in_scope (Update_shelf_reuse ?t ?q)" using t req by (simp add: shelf_args_ok)
      from this q2 show thesis
      proof (cases rule: query_cases)
        case err
        with res d1 show thesis by (intro no) auto
      next
        case ran
        let ?f = "\<lambda>new. updated (update_where (\<lambda>h. h_shelfno h = ?n) (\<lambda>h. new) rows)"
        obtain rr rows' where w: "write_shelf dia ?q rows ?f = (rr, rows')"
          by (cases "write_shelf dia ?q rows ?f") auto
        have "qs_shelfno ?q = ?n" by (simp add: shelf_args_def)
        then have e: "r2 = rr" "data sb = with_shelves (data s) ?t rows'"
          using ran w rows by (simp_all add: sql_exec.simps d1 on_shelves_Some)
        from w show thesis
        proof (cases rule: write_shelf_cases)
          case bad
          with e res rows show thesis by (intro no) (auto simp: with_shelves_same)
        next
          case good
          then have "rr = Q_ok 1" "rows' = map (\<lambda>h. if h_shelfno h = ?n then new_shelf m ?n else h) rows"
            using shelf_reuse_affected [OF ok n, of "new_shelf m ?n"]
            by (auto simp: updated_def snd_update_where)
          with e res n shelf_fits_floors [OF req good(1)] show thesis by (intro reused [of ?n]) auto
        qed
      qed
    qed
  qed
qed

lemma shelf_build_number_cases:
  assumes req: "shelf_req_ok m" and run: "shelf_build_number api used m s = res"
    and rows: "shelves (data s) (shelf_table m) = Some rows" and ok: "shelves_ok rows"
  obtains (stop) m' s' where "res = Inl (m', s')" "data s' = data s"
    | (number) n s' where "res = Inr (n, set_shelf ((shelf_of m)\<lparr>s_code := n\<rparr>) m, s')"
        "n = int (length rows) + 1" "n \<le> MAX_SHELF_NUM" "data s' = data s"
proof -
  let ?t = "shelf_table m"
  obtain r sa where q: "mysql_query api s (Select_max_shelfno ?t) = (r, sa)"
    by (cases "mysql_query api s (Select_max_shelfno ?t)") auto
  have "stmt_in_scope (Select_max_shelfno ?t)"
    using req ident_shelf_table by (simp add: shelf_req_ok_def)
  from this q show thesis
  proof (cases rule: query_cases)
    case err
    with q run show thesis by (intro stop [of m "mysql_check_connection api sa"])
        (auto simp: shelf_build_number_def)
  next
    case ran
    then have d: "data sa = data s"
      and r: "r = Q_rows 1 [[if rows = [] then None else Some (dec (int (length rows)))]]"
      using sf.Max_key [OF ok] by (simp_all add: sql_max_shelfno [OF rows])
    show thesis
    proof (cases "MAX_SHELF_NUM \<le> int (length rows)")
      case True
      then have "rows \<noteq> []" by (auto simp: limits)
      with True q r run d show thesis
        by (intro stop [of "m\<lparr>m_error_text := err_shelf_limit\<rparr>" sa])
           (auto simp: shelf_build_number_def Let_def)
    next
      case False
      with q r run d show thesis
        by (intro number [of "int (length rows) + 1" sa])
           (auto simp: shelf_build_number_def Let_def)
    qed
  qed
qed

lemma insert_shelf_cases:
  assumes req: "shelf_req_ok m"
    and q: "mysql_query api s (Insert_shelf (shelf_table m)
        (shelf_args api (shelf_of m) (floors_text (shelf_of m)) n)) = (r, s')"
    and rows: "shelves (data s) (shelf_table m) = Some rows" and n: "1 \<le> n" "n \<notin> h_shelfno ` set rows"
  obtains (bad) "is_err r" "data s' = data s"
    | (good) "r = Q_ok 1" "unat (nfloors (shelf_of m)) < 10"
        "data s' = with_shelves (data s) (shelf_table m) (rows @ [new_shelf m n])"
proof -
  let ?q = "shelf_args api (shelf_of m) (floors_text (shelf_of m)) n"
  have num: "qs_shelfno ?q = n" by (simp add: shelf_args_def)
  have "stmt_in_scope (Insert_shelf (shelf_table m) ?q)"
    using n req ident_shelf_table by (simp add: shelf_args_ok num) (simp add: shelf_req_ok_def)
  from this q show thesis
  proof (cases rule: query_cases)
    case err
    with bad show thesis by blast
  next
    case ran
    let ?f = "\<lambda>new. (Q_ok 1, rows @ [new])"
    obtain rr rows' where w: "write_shelf dia ?q rows ?f = (rr, rows')"
      by (cases "write_shelf dia ?q rows ?f") auto
    have e: "r = rr" "data s' = with_shelves (data s) (shelf_table m) rows'"
      using ran w rows n num by (simp_all add: sql_exec.simps on_shelves_Some)
    from w show thesis
    proof (cases rule: write_shelf_cases)
      case bad': bad
      with e rows show thesis by (intro bad) (auto simp: with_shelves_same)
    next
      case good': good
      with e shelf_fits_floors [OF req good'(1)] show thesis by (intro good) auto
    qed
  qed
qed

lemma shelf_build_effect:
  assumes req: "shelf_req_ok m" and run: "srvdb_shelf_build api s m = Some (ok, m', s')"
    and rows: "shelves (data s) (shelf_table m) = Some rows" and inv: "shelves_ok rows"
  obtains (failed) "\<not> ok" "data s' = data s"
    | (built) n rows' where "ok" "m' = set_shelf ((shelf_of m)\<lparr>s_code := n\<rparr>) m"
        "n \<notin> dom (shelf_catalog rows)" "1 \<le> n" "n \<le> MAX_SHELF_NUM"
        "data s' = with_shelves (data s) (shelf_table m) rows'" "shelves_ok rows'"
        "shelf_catalog rows' = (shelf_catalog rows)(n \<mapsto> info_of_entry (shelf_of m))"
proof -
  let ?fd = "floors_text (shelf_of m)"
  have user: "m_user m \<noteq> ''''" using req by (simp add: shelf_req_ok_def ident_nonempty)
  note fd = floor_depth_str_ok(1) [OF req]
  obtain res used s1 where reuse: "shelf_build_reuse api ?fd m s = (res, used, s1)"
    by (cases "shelf_build_reuse api ?fd m s") auto
  from req reuse rows inv show thesis
  proof (cases rule: shelf_build_reuse_cases)
    case (reused n)
    let ?rows = "map (\<lambda>h. if h_shelfno h = n then new_shelf m n else h) rows"
    note new = new_shelf_ok [OF req reused(4)]
    from reused(3) have "shelf_row_no rows n \<noteq> None"
      by (auto simp: sf.row_None removed_shelves_def)
    then have "shelf_catalog ?rows = (shelf_catalog rows)(n \<mapsto> info_of_entry (shelf_of m))"
      using sf.live_set_row [of "new_shelf m n" n rows] new by (simp add: book_states)
    moreover have "shelves_ok ?rows" using inv new by (intro shelves_ok_map) auto
    moreover have "int (length rows) \<le> MAX_SHELF_NUM" using inv by (simp only: shelves_ok_def)
    ultimately show thesis
      using built [of n ?rows] run reuse reused user fd sf.gone_live [OF reused(3) inv]
        sf.gone_le [OF inv reused(3)]
      by (auto simp: srvdb_shelf_build_def)
  next
    case no
    have rows1: "shelves (data s1) (shelf_table m) = Some rows" using no rows by simp
    obtain res2 where num: "shelf_build_number api used m s1 = res2" by blast
    from req num rows1 inv show thesis
    proof (cases rule: shelf_build_number_cases)
      case (stop m2 s2)
      with run reuse num no user fd failed show thesis by (auto simp: srvdb_shelf_build_def)
    next
      case (number n s2)
      let ?st = "Insert_shelf (shelf_table m) (shelf_args api (shelf_of m) ?fd n)"
      obtain r s3 where q: "mysql_query api s2 ?st = (r, s3)"
        by (cases "mysql_query api s2 ?st") auto
      have fresh: "n \<notin> h_shelfno ` set rows" and pos: "1 \<le> n"
        using number(2) sf.fresh_key [OF inv] by auto
      have rows2: "shelves (data s2) (shelf_table m) = Some rows" using no number rows by simp
      have out: "(ok, m', s') = (if \<not> is_err r then (True, set_shelf ((shelf_of m)\<lparr>s_code := n\<rparr>) m, s3)
          else (False, (set_shelf ((shelf_of m)\<lparr>s_code := n\<rparr>) m)\<lparr>m_error_text := err_shelf_build\<rparr>,
            mysql_check_connection api s3))"
        using run reuse num no number q user fd by (auto simp: srvdb_shelf_build_def)
      from req q rows2 pos fresh show thesis
      proof (cases rule: insert_shelf_cases)
        case bad
        with out no number failed show thesis by auto
      next
        case good
        note new = new_shelf_ok [OF req good(2)]
        have "shelves_ok (rows @ [new_shelf m n])"
          using inv number new by (intro shelves_ok_append) auto
        moreover have "shelf_catalog (rows @ [new_shelf m n])
            = (shelf_catalog rows)(n \<mapsto> info_of_entry (shelf_of m))"
          using sf.live_append [of "new_shelf m n" rows] fresh new by (simp add: book_states)
        moreover have "n \<notin> dom (shelf_catalog rows)"
          using number(2) by (simp add: sf.dom_live [OF inv])
        ultimately show thesis
          using built [of n "rows @ [new_shelf m n]"] out good number no pos by auto
      qed
    qed
  qed
qed

end

section \<open>Building on a working database\<close>

definition shelf_storable :: "shelf_entry \<Rightarrow> bool" where
  "shelf_storable e \<longleftrightarrow> fits 200 (s_name e) \<and> fits 20 (building_time e) \<and> unat (nfloors e) < 10"

lemma fits_length: "length s \<le> n \<Longrightarrow> fits n s"
  unfolding fits_def utf8_len_def by (rule le_trans [OF length_filter_le])

lemma shelf_build_returns:
  assumes "shelf_req_ok m"
  obtains ok m' s' where "srvdb_shelf_build api s m = Some (ok, m', s')"
proof -
  have "srvdb_shelf_build api s m \<noteq> None"
    unfolding srvdb_shelf_build_def floor_depth_str_ok(1) [OF assms]
    by (simp only: option.case option.distinct split: if_split) simp
  with that show thesis by (metis option.exhaust prod_cases3)
qed

lemma floors_text_fits: "unat (nfloors e) < 10 \<Longrightarrow> fits 50 (floors_text e)"
  by (rule fits_length) (simp add: floors_text_def length_depth_text)

context mysql_server
begin

lemma write_shelf_storable:
  assumes "shelf_req_ok m" and "shelf_storable (shelf_of m)"
  shows "write_shelf dia (shelf_args api (shelf_of m) (floors_text (shelf_of m)) n) rows f = f (new_shelf m n)"
proof -
  have "fits 1 [digit_char k]" for k by (rule fits_length) simp
  with assms have "shelf_row_fits (new_shelf m n)"
    by (simp add: shelf_row_fits_def new_shelf_fields shelf_storable_def floors_text_fits dec_floors)
  then show ?thesis by (simp add: write_shelf_def)
qed

lemma write_shelf_wide:
  assumes "shelf_req_ok m" and "10 \<le> unat (nfloors (shelf_of m))"
  shows "write_shelf dia (shelf_args api (shelf_of m) (floors_text (shelf_of m)) n) rows f = (Q_err 1406, rows)"
  using assms shelf_fits_floors [OF assms(1), of n] by (auto simp: write_shelf_def)

lemma wide_shelf_fails:
  assumes req: "shelf_req_ok m" and wide: "10 \<le> unat (nfloors (shelf_of m))"
    and rows: "shelves (data s) (shelf_table m) = Some rows" and inv: "shelves_ok rows"
  shows "\<exists>m' s'. srvdb_shelf_build api s m = Some (False, m', s') \<and> data s' = data s"
proof -
  let ?fd = "floors_text (shelf_of m)"
  have user: "m_user m \<noteq> ''''" using req by (simp add: shelf_req_ok_def ident_nonempty)
  obtain ok m' s' where run: "srvdb_shelf_build api s m = Some (ok, m', s')"
    using req by (rule shelf_build_returns)
  from req run rows inv show ?thesis
  proof (cases rule: shelf_build_effect)
    case failed
    with run show ?thesis by auto
  next
    case (built n rows')
    obtain res used s1 where reuse: "shelf_build_reuse api ?fd m s = (res, used, s1)"
      by (cases "shelf_build_reuse api ?fd m s") auto
    from req reuse rows inv have no: "res = None" "data s1 = data s"
      by (cases rule: shelf_build_reuse_cases; use wide in simp)+
    then have rows1: "shelves (data s1) (shelf_table m) = Some rows" using rows by simp
    obtain res2 where num: "shelf_build_number api used m s1 = res2" by blast
    from req num rows1 inv show ?thesis
    proof (cases rule: shelf_build_number_cases)
      case (stop m2 s2)
      with built(1) run user floor_depth_str_ok(1) [OF req] reuse no num show ?thesis
        by (simp add: srvdb_shelf_build_def)
    next
      case (number k s2)
      let ?st = "Insert_shelf (shelf_table m) (shelf_args api (shelf_of m) ?fd k)"
      obtain r s3 where q: "mysql_query api s2 ?st = (r, s3)"
        by (cases "mysql_query api s2 ?st") auto
      have rows2: "shelves (data s2) (shelf_table m) = Some rows" using no number rows by simp
      have k: "1 \<le> k" "k \<notin> h_shelfno ` set rows"
        using number(2) sf.fresh_key [OF inv] by auto
      from req q rows2 k have "is_err r"
        by (cases rule: insert_shelf_cases) (use wide in auto)
      with built(1) run user floor_depth_str_ok(1) [OF req] reuse no num number q show ?thesis
        by (simp add: srvdb_shelf_build_def)
    qed
  qed
qed

end

context mysql_up
begin

lemma shelf_build_up:
  assumes req: "shelf_req_ok m" and st: "shelf_storable (shelf_of m)"
    and run: "srvdb_shelf_build api s m = Some (ok, m', s')"
    and rows: "shelves (data s) (shelf_table m) = Some rows" and inv: "shelves_ok rows"
  shows "(ok \<longleftrightarrow> free_number (shelf_catalog rows) \<le> MAX_SHELF_NUM)
    \<and> (ok \<longrightarrow> s_code (shelf_of m') = free_number (shelf_catalog rows))
    \<and> (\<not> ok \<longrightarrow> m_error_text m' = err_shelf_limit)"
proof -
  let ?fd = "floors_text (shelf_of m)" and ?t = "shelf_table m"
  have user: "m_user m \<noteq> ''''" and t: "ident ?t"
    using req ident_shelf_table by (simp_all add: shelf_req_ok_def ident_nonempty)
  note fd = floor_depth_str_ok(1) [OF req]
  have len: "int (length rows) \<le> MAX_SHELF_NUM" using inv by (simp only: shelves_ok_def)
  obtain r s1 where q: "mysql_query api s (Select_min_shelfno ?t SHELF_DEL) = (r, s1)"
    by (cases "mysql_query api s (Select_min_shelfno ?t SHELF_DEL)") auto
  from query_runs [OF q] t have r: "r = Q_rows 1 [[if removed_shelves rows = {} then None
      else Some (dec (Min (removed_shelves rows)))]]" and d: "data s1 = data s"
    by (simp_all add: sql_min_shelfno [OF rows])
  show ?thesis
  proof (cases "removed_shelves rows = {}")
    case False
    let ?n = "Min (removed_shelves rows)"
    let ?q = "shelf_args api (shelf_of m) ?fd ?n"
    have n: "?n \<in> removed_shelves rows" using False by (intro Min_in) auto
    obtain r2 s2 where q2: "mysql_query api s1 (Update_shelf_reuse ?t ?q) = (r2, s2)"
      by (cases "mysql_query api s1 (Update_shelf_reuse ?t ?q)") auto
    have num: "qs_shelfno ?q = ?n" by (simp add: shelf_args_def)
    have "r2 = Q_ok 1"
      using query_runs [OF q2] t req rows write_shelf_storable [OF req st]
        shelf_reuse_affected [OF inv n, of "new_shelf m ?n"]
      by (simp add: shelf_args_ok sql_exec.simps d on_shelves_Some updated_def num)
    with q r False q2 have "shelf_build_reuse api ?fd m s = (Some ?n, ?n, s2)"
      by (simp add: shelf_build_reuse_def Let_def)
    with sf.gone_le [OF inv n] len run user fd show ?thesis
      by (auto simp: srvdb_shelf_build_def sf.free_gone [OF inv False])
  next
    case True
    with q r have re: "shelf_build_reuse api ?fd m s = (None, 0, s1)"
      by (simp add: shelf_build_reuse_def)
    obtain r2 s2 where q2: "mysql_query api s1 (Select_max_shelfno ?t) = (r2, s2)"
      by (cases "mysql_query api s1 (Select_max_shelfno ?t)") auto
    have r2: "r2 = Q_rows 1 [[if rows = [] then None else Some (dec (int (length rows)))]]"
      and d2: "data s2 = data s"
      using query_runs [OF q2] d rows t sf.Max_key [OF inv] by (simp_all add: sql_max_shelfno)
    note free = sf.free_next [OF inv True]
    show ?thesis
    proof (cases "MAX_SHELF_NUM \<le> int (length rows)")
      case True
      moreover from this have "rows \<noteq> []" by (auto simp: limits)
      ultimately show ?thesis using run re q2 r2 user fd
        by (auto simp: srvdb_shelf_build_def shelf_build_number_def Let_def free)
    next
      case False
      let ?n = "int (length rows) + 1"
      let ?q = "shelf_args api (shelf_of m) ?fd ?n"
      obtain r3 s3 where q3: "mysql_query api s2 (Insert_shelf ?t ?q) = (r3, s3)"
        by (cases "mysql_query api s2 (Insert_shelf ?t ?q)") auto
      have num: "qs_shelfno ?q = ?n" by (simp add: shelf_args_def)
      have "r3 = Q_ok 1"
        using query_runs [OF q3] t req rows d2 write_shelf_storable [OF req st] sf.fresh_key [OF inv]
        by (simp add: shelf_args_ok sql_exec.simps on_shelves_Some num image_iff)
      moreover have "shelf_build_number api 0 m s1
          = Inr (?n, set_shelf ((shelf_of m)\<lparr>s_code := ?n\<rparr>) m, s2)"
        using False q2 r2 by (cases "rows = []") (simp_all add: shelf_build_number_def Let_def)
      ultimately show ?thesis using False run re q3 user fd
        by (auto simp: srvdb_shelf_build_def free)
    qed
  qed
qed

lemma build_refined:
  assumes req: "shelf_req_ok m" and st: "shelf_storable (shelf_of m)"
    and rows: "shelves (data s) (shelf_table m) = Some rows" and inv: "shelves_ok rows"
  shows "\<exists>ok m' s'. srvdb_shelf_build api s m = Some (ok, m', s') \<and>
    (let n = free_number (shelf_catalog rows) in
     if card (dom (shelf_catalog rows)) < 15
     then ok \<and> m' = set_shelf ((shelf_of m)\<lparr>s_code := n\<rparr>) m
       \<and> (\<exists>rows'. data s' = with_shelves (data s) (shelf_table m) rows' \<and> shelves_ok rows'
            \<and> shelf_catalog rows' = (shelf_catalog rows)(n \<mapsto> info_of_entry (shelf_of m)))
     else \<not> ok \<and> m_error_text m' = err_shelf_limit \<and> data s' = data s)"
proof -
  obtain ok m' s' where run: "srvdb_shelf_build api s m = Some (ok, m', s')"
    using req by (rule shelf_build_returns)
  have le: "free_number (shelf_catalog rows) \<le> MAX_SHELF_NUM \<longleftrightarrow> card (dom (shelf_catalog rows)) < 15"
    using sf.free_le [OF inv] by (simp add: limits)
  note up = shelf_build_up [OF req st run rows inv]
  from req run rows inv show ?thesis
  proof (cases rule: shelf_build_effect)
    case failed
    with up run show ?thesis by (auto simp: Let_def le intro!: exI [of _ False])
  next
    case (built n rows')
    with up have "n = free_number (shelf_catalog rows)" by simp
    with up run built show ?thesis by (auto simp: Let_def le)
  qed
qed

end

section \<open>Removal, search and count: proofs\<close>

definition shelf_result_ready :: "'db mysql_api \<Rightarrow> shelf_row list \<Rightarrow> 'db srv \<Rightarrow> bool" where
  "shelf_result_ready api hs s \<longleftrightarrow> res_ptr s = Some (map shelf_cells hs) \<and> res_fields s = 6
     \<and> api_errno api (my_connection s) = 0"

definition shelf_page :: "int \<Rightarrow> int \<Rightarrow> shelf_row list \<Rightarrow> shelf_row list" where
  "shelf_page n k rows = take (nat k) (sort_key h_shelfno (filter (\<lambda>h. n < h_shelfno h \<and> h_cleaned h = SHELF_AVL) rows))"

text \<open>The shelf a fetch of a row leaves in the message: floors the shelf does not have keep the depths
  the message had.\<close>

definition fetched_shelf :: "shelf_row \<Rightarrow> shelf_entry \<Rightarrow> shelf_entry" where
  "fetched_shelf h e = \<lparr>s_code = h_shelfno h, s_name = h_name h, nfloors = char_depth (hd (h_nfloors h)),
     ndepth = fst (snd (info_of_row h)) @ drop (row_floors h) (ndepth e), building_time = h_building_time h\<rparr>"

lemma fetched_shelf_info:
  "row_floors h \<le> MAX_FLOORS \<Longrightarrow> info_of_entry (fetched_shelf h e) = info_of_row h"
  by (simp add: info_of_entry_def fetched_shelf_def info_of_row_def row_floors_def)

lemma shelf_of_cells_row:
  assumes "shelf_row_ok h" and "length (ndepth e) = MAX_FLOORS"
  shows "shelf_of_cells (shelf_cells h) e = Some (fetched_shelf h e)"
proof -
  have n: "c_char (h_nfloors h) 0 = Some (hd (h_nfloors h))"
    using assms(1) by (cases "h_nfloors h") (auto simp: shelf_row_ok_def c_char_def)
  have "fetch_depths (h_floor_depth h) (row_floors h) 0 (ndepth e)
      = Some (fst (snd (info_of_row h)) @ drop (row_floors h) (ndepth e))"
    using assms fetch_depths_eq [of 0 "row_floors h" "ndepth e" "h_floor_depth h"]
    by (auto simp: shelf_row_ok_def info_of_row_def)
  with n show ?thesis
    by (simp add: shelf_cells_def fetched_shelf_def row_floors_def Let_def)
qed

lemma shelf_fetch_row:
  assumes "shelf_result_ready api (h # hs) s" and "shelf_row_ok h" and "length (ndepth (shelf_of m)) = MAX_FLOORS"
  shows "srvdb_shelf_fetch_result api s m
     = (FETCH_RESULT_CONT, set_shelf (fetched_shelf h (shelf_of m)) m, s\<lparr>res_ptr := Some (map shelf_cells hs)\<rparr>)"
  using assms by (simp add: srvdb_shelf_fetch_result_def shelf_result_ready_def shelf_of_cells_row Let_def)

lemma shelf_fetch_end:
  "shelf_result_ready api [] s \<Longrightarrow> srvdb_shelf_fetch_result api s m
     = (if res_rows s = DEFAULT_FINDS then (FETCH_RESULT_END_MORE, m, s\<lparr>res_ptr := Some []\<rparr>)
        else (FETCH_RESULT_END, m, srvdb_free_result (s\<lparr>res_ptr := Some []\<rparr>)))"
  by (simp add: srvdb_shelf_fetch_result_def shelf_result_ready_def Let_def)

lemma shelf_result_next:
  "shelf_result_ready api (h # hs) s \<Longrightarrow> shelf_result_ready api hs (s\<lparr>res_ptr := Some (map shelf_cells hs)\<rparr>)"
  by (simp add: shelf_result_ready_def)

lemma length_fetched_ndepth:
  "row_floors h \<le> MAX_FLOORS \<Longrightarrow> length (ndepth e) = MAX_FLOORS
     \<Longrightarrow> length (ndepth (fetched_shelf h e)) = MAX_FLOORS"
  by (simp add: fetched_shelf_def info_of_row_def)

lemma sql_select_shelves:
  assumes "shelves d t = Some rows"
  shows "sql_exec dia (Select_shelves star t n SHELF_AVL k) d = (shelf_result star (shelf_page n k rows), d)"
  using assms by (simp add: sql_exec.simps on_shelves_Some with_shelves_same shelf_page_def)

lemma shelf_page_count:
  assumes "shelves_ok rows"
  shows "length (shelf_page 0 MAX_SHELF_NUM rows) = card (dom (shelf_catalog rows))"
proof -
  let ?P = "\<lambda>h. 0 < h_shelfno h \<and> h_cleaned h = SHELF_AVL"
  have "length (filter ?P rows) \<le> length rows" by (rule length_filter_le)
  moreover have "int (length rows) \<le> MAX_SHELF_NUM" using assms by (simp only: shelves_ok_def)
  ultimately have "length (filter ?P rows) \<le> nat MAX_SHELF_NUM" by linarith
  then have len: "length (shelf_page 0 MAX_SHELF_NUM rows) = length (filter ?P rows)"
    by (simp add: shelf_page_def)
  have "n \<in> dom (shelf_catalog rows) \<longleftrightarrow> n \<in> set (map h_shelfno (filter ?P rows))" for n
  proof -
    have "h_cleaned h \<in> {SHELF_AVL, SHELF_DEL} \<and> 0 < h_shelfno h" if "h \<in> set rows" for h
      using assms that sf.key_bounds(1) [OF assms that] by (auto simp: shelves_ok_def shelf_row_ok_def)
    then show ?thesis unfolding sf.dom_live_row [OF assms] by (fastforce simp: book_states)
  qed
  then have "dom (shelf_catalog rows) = set (map h_shelfno (filter ?P rows))" by blast
  moreover have "distinct (map h_shelfno (filter ?P rows))"
    using assms by (simp add: shelves_ok_def distinct_map_filter)
  ultimately show ?thesis
    using len distinct_card [of "map h_shelfno (filter ?P rows)"] by simp
qed

context mysql_server
begin

lemma remove_refined:
  assumes usr: "ident (m_user m)"
    and rows: "shelves (data s) (shelf_table m) = Some rows" and inv: "shelves_ok rows"
  shows "case srvdb_shelf_remove api s m of (ok, m', s') \<Rightarrow>
    books (data s') = books (data s) \<and>
    (if ok then (\<exists>rows'. data s' = with_shelves (data s) (shelf_table m) rows' \<and> shelves_ok rows'
        \<and> shelf_catalog rows' = (shelf_catalog rows)(s_code (shelf_of m) := None))
     else data s' = data s)"
proof -
  let ?n = "s_code (shelf_of m)"
  let ?st = "Update_shelf_cleaned (shelf_table m) SHELF_DEL ?n"
  let ?rows = "map (\<lambda>h. if h_shelfno h = ?n then h\<lparr>h_cleaned := SHELF_DEL\<rparr> else h) rows"
  obtain r s1 where q: "mysql_query api s ?st = (r, s1)" by (cases "mysql_query api s ?st") auto
  obtain k where ex: "sql_exec dia ?st (data s) = (Q_ok k, with_shelves (data s) (shelf_table m) ?rows)"
    by (auto simp: sql_exec.simps on_shelves_Some [OF rows] updated_def snd_update_where)
  have scope: "stmt_in_scope ?st" using usr by (simp add: ident_shelf_table)
  have cat: "shelf_catalog ?rows = (shelf_catalog rows)(?n := None)"
    by (rule ext) (subst sf.live_map; auto simp: shelf_catalog_def Let_def split: option.splits dest: sf.row_SomeD)
  have ok: "shelves_ok ?rows"
    using inv by (intro shelves_ok_map) (auto simp: shelf_row_ok_def row_floors_def)
  have user: "m_user m \<noteq> ''''" using usr by (simp add: ident_nonempty)
  from q scope ex show ?thesis
  proof (cases rule: update_stmt_cases)
    case bad
    with q user show ?thesis by (simp add: srvdb_shelf_remove_def)
  next
    case good
    with q user cat ok show ?thesis by (auto simp: srvdb_shelf_remove_def)
  qed
qed

lemma shelf_find_effect:
  assumes usr: "ident (m_user m)" and run: "srvdb_shelf_find api s m = (ok, n, s')"
    and st: "shelf_find_stmt m = Select_shelves star (shelf_table m) b SHELF_AVL k"
    and rows: "shelves (data s) (shelf_table m) = Some rows"
  shows "data s' = data s \<and> (ok \<longrightarrow> n = int (length (shelf_page b k rows)) \<and>
    (star \<longrightarrow> shelf_result_ready api (shelf_page b k rows) s' \<and> res_rows s' = n))"
proof -
  let ?st = "Select_shelves star (shelf_table m) b SHELF_AVL k"
  obtain r s1 where q: "mysql_query api s ?st = (r, s1)" by (cases "mysql_query api s ?st") auto
  have user: "m_user m \<noteq> ''''" using usr by (simp add: ident_nonempty)
  have "stmt_in_scope ?st" using usr by (simp add: ident_shelf_table)
  from this q show ?thesis
  proof (cases rule: query_cases)
    case err
    with run q st user show ?thesis by (auto simp: srvdb_shelf_find_def)
  next
    case ran
    then have r: "r = shelf_result star (shelf_page b k rows)" and d: "data s1 = data s"
      by (simp_all add: sql_select_shelves [OF rows])
    then have "\<not> is_err r" by (simp add: shelf_result_def)
    then have "api_errno api (my_connection s1) = 0"
      using q query_errno [of "my_connection s" ?st] by (auto simp: mysql_query_def split: prod.splits)
    with r d run q st user show ?thesis
      by (auto simp: srvdb_shelf_find_def store_result_def shelf_result_def shelf_result_ready_def
          split: if_splits)
  qed
qed

lemma shelf_count_effect:
  assumes usr: "ident (m_user m)" and run: "srvdb_shelf_count api s m = (ok, m', s')"
    and rows: "shelves (data s) (shelf_table m) = Some rows" and inv: "shelves_ok rows"
  shows "data s' = data s \<and> (ok \<longrightarrow> hd (m_extra_info m') = int (card (dom (shelf_catalog rows))))"
proof -
  let ?m = "set_shelf ((shelf_of m)\<lparr>s_code := BREAK_LIMIT_INT\<rparr>) m"
  have t: "shelf_table ?m = shelf_table m" by (simp add: shelf_table_def)
  have st: "shelf_find_stmt ?m = Select_shelves False (shelf_table ?m) 0 SHELF_AVL MAX_SHELF_NUM"
    by (simp add: shelf_find_stmt_def)
  obtain ok1 n s1 where f: "srvdb_shelf_find api s ?m = (ok1, n, s1)"
    by (cases "srvdb_shelf_find api s ?m") auto
  have "data s1 = data s \<and> (ok1 \<longrightarrow> n = int (length (shelf_page 0 MAX_SHELF_NUM rows)))"
    using shelf_find_effect [OF _ f st] usr rows t by simp
  with run f show ?thesis
    by (auto simp: srvdb_shelf_count_def Let_def shelf_page_count [OF inv] split: if_splits)
qed

end

section \<open>Properties\<close>

definition sample_shelf :: shelf_entry where
  "sample_shelf = \<lparr>s_code = 0, s_name = ''Study'', nfloors = 2, ndepth = [3, 4] @ replicate 13 0,
     building_time = ''2020-02-02''\<rparr>"

definition sample_shelf_row :: "int \<Rightarrow> int \<Rightarrow> shelf_row" where
  "sample_shelf_row n c = \<lparr>h_shelfno = n, h_name = ''Hall'', h_nfloors = ''3'', h_floor_depth = ''1,2,1'',
     h_cleaned = c, h_building_time = ''2019-09-09''\<rparr>"

definition sample_shelf_rows :: "shelf_row list" where
  "sample_shelf_rows = [sample_shelf_row 1 SHELF_DEL, sample_shelf_row 2 SHELF_AVL]"

definition shelf_srv :: "ref_db srv" where
  "shelf_srv = (sample_srv sample_rows)\<lparr>my_connection := (my_connection (sample_srv sample_rows))
     \<lparr>rdb := (rdb (my_connection (sample_srv sample_rows)))\<lparr>shelves := [''u_shelves'' \<mapsto> sample_shelf_rows]\<rparr>\<rparr>\<rparr>"

lemma sample_shelf_table: "shelf_table (sample_msg st) = ''u_shelves''"
  by (simp add: sample_msg_def shelf_table_def)

lemma sample_shelf_of [simp]: "shelf_of (sample_msg (Shelf_un e)) = e"
  by (simp add: sample_msg_def)

lemma sample_shelves: "shelves (srv_data rdb shelf_srv) ''u_shelves'' = Some sample_shelf_rows"
  by (simp add: srv_data_def shelf_srv_def)

lemma sample_shelves_ok: "shelves_ok sample_shelf_rows"
  by code_simp

lemma sample_shelf_req: "shelf_req_ok (sample_msg (Shelf_un (sample_shelf\<lparr>s_code := n\<rparr>)))"
  using sample_ident by (simp add: shelf_req_ok_def) (simp add: sample_shelf_def plain_text_def limits)

lemma sample_shelf_storable: "shelf_storable sample_shelf"
  by code_simp

lemma sample_shelf_free: "free_number (shelf_catalog sample_shelf_rows) = 1"
  by (rule free_number_eq) (auto simp: sample_shelf_rows_def sample_shelf_row_def shelf_catalog_def
      shelf_row_no_def book_states)

lemma sample_shelf_card: "card (dom (shelf_catalog sample_shelf_rows)) < 15"
  using sf.free_le [OF sample_shelves_ok] by (simp add: sample_shelf_free limits)





text \<open>C9: a shelf with ten to fifteen floors, which the limit \<^verbatim>\<open>MAX_FLOORS\<close> allows, can never be
  built: its number of floors does not fit the one-character column.\<close>

theorem wide_shelf_never_built:
  assumes "mysql_server api dia db_of" and "shelf_req_ok m" and "10 \<le> unat (nfloors (shelf_of m))"
    and "shelves (srv_data db_of s) (shelf_table m) = Some rows" and "shelves_ok rows"
  shows "\<exists>m' s'. srvdb_shelf_build api s m = Some (False, m', s') \<and> srv_data db_of s' = srv_data db_of s"
  by (rule mysql_server.wide_shelf_fails [OF assms])

theorem wide_shelf_never_built_witness:
  "\<exists>m' s'. srvdb_shelf_build ref_api shelf_srv (sample_msg (Shelf_un (sample_shelf\<lparr>nfloors := 12,
      ndepth := replicate 15 1\<rparr>))) = Some (False, m', s') \<and> srv_data rdb s' = srv_data rdb shelf_srv"
proof -
  let ?m = "sample_msg (Shelf_un (sample_shelf\<lparr>nfloors := 12, ndepth := replicate 15 1\<rparr>))"
  have "shelf_req_ok ?m"
    using sample_ident by (simp add: shelf_req_ok_def) (simp add: sample_shelf_def plain_text_def limits)
  moreover have "10 \<le> unat (nfloors (shelf_of ?m))" by simp
  moreover have "shelves (srv_data rdb shelf_srv) (shelf_table ?m) = Some sample_shelf_rows"
    by (simp add: sample_shelf_table sample_shelves)
  ultimately show ?thesis
    using wide_shelf_never_built [OF ref.mysql_server_axioms] sample_shelves_ok by blast
qed

text \<open>C10: fetching the row that a shelf was stored in gives back its number, its name, its floors with
  their depths and its time; the code reads no character outside the row.\<close>

theorem shelf_store_fetch:
  assumes "mysql_server api dia db_of" and "shelf_req_ok m" and "unat (nfloors (shelf_of m)) < 10"
    and "length (ndepth e) = MAX_FLOORS"
  shows "\<exists>e'. shelf_of_cells (shelf_cells (shelf_row_of dia
        (shelf_args api (shelf_of m) (floors_text (shelf_of m)) n))) e = Some e'
    \<and> s_code e' = n \<and> info_of_entry e' = info_of_entry (shelf_of m)"
proof -
  let ?h = "shelf_row_of dia (shelf_args api (shelf_of m) (floors_text (shelf_of m)) n)"
  note ok = mysql_server.new_shelf_ok [OF assms(1-3), of n]
  then have "row_floors ?h \<le> MAX_FLOORS" by (simp add: shelf_row_ok_def)
  with ok shelf_of_cells_row [OF ok(1) assms(4)] fetched_shelf_info [of ?h e] show ?thesis
    by (simp add: fetched_shelf_def)
qed

theorem shelf_store_fetch_witness:
  "\<exists>e'. shelf_of_cells (shelf_cells (shelf_row_of ref_dialect
        (shelf_args ref_api sample_shelf (floors_text sample_shelf) 7))) sample_shelf = Some e'
    \<and> s_code e' = 7 \<and> info_of_entry e' = (''Study'', [3, 4], ''2020-02-02'')"
proof -
  have "shelf_req_ok (sample_msg (Shelf_un sample_shelf))"
    using sample_shelf_req [of 0] by (simp add: sample_shelf_def)
  from shelf_store_fetch [OF ref.mysql_server_axioms this, of sample_shelf 7] show ?thesis
    by (simp add: info_of_entry_def) (simp add: sample_shelf_def limits)
qed

end
