(* ===== verification/Ncgui_Input.thy ===== *)
theory Ncgui_Input
  imports Ncgui_Text Clishell Check_Password Srvdb_Shelf
begin

unbundle bit_operations_syntax

text \<open>
  The input routines of the user interface, \<^verbatim>\<open>bsdqclient/ncgui.c\<close>: moving through a list (\<^verbatim>\<open>get_choice\<close>,
  \<^verbatim>\<open>move_slider\<close>, \<^verbatim>\<open>scroll_pad\<close>), choosing the place of a book (\<^verbatim>\<open>select_newbook_floor\<close>) and the depths of a shelf
  (\<^verbatim>\<open>set_shelf_parameter\<close>).
  The keyboard is a list of key codes as \<^verbatim>\<open>getch\<close> delivers them; a function returns the keys it has left, and
  \<^const>\<open>None\<close> when it still waits for a key or has undefined behaviour.  What is drawn is left out, except
  for the row of a list that is highlighted.
\<close>

section \<open>Keys\<close>

definition KEY_DOWN :: int where "KEY_DOWN = 258"
definition KEY_UP :: int where "KEY_UP = 259"
definition KEY_LEFT :: int where "KEY_LEFT = 260"
definition KEY_RIGHT :: int where "KEY_RIGHT = 261"
definition KEY_BACKSPACE :: int where "KEY_BACKSPACE = 263"
definition KEY_ENTER :: int where "KEY_ENTER = 343"
definition NEWLINE :: int where "NEWLINE = 10"

lemmas key_codes = KEY_DOWN_def KEY_UP_def KEY_LEFT_def KEY_RIGHT_def KEY_BACKSPACE_def KEY_ENTER_def NEWLINE_def

section \<open>Moving through a list\<close>

datatype ui_page_type =
    page_nonsense_e | page_login_e | page_register_e | page_mainmenu_e | page_lookthrough_e
  | page_buildshelf_e | page_searchbook_e | page_bookinfo_e | page_newbook_e

record slider =
  current_row :: int
  last_row :: int
  max_row :: int

text \<open>The rows of the screen where \<^verbatim>\<open>move_slider\<close> erases and draws the mark.\<close>

definition move_slider :: "slider \<Rightarrow> int \<times> int" where
  "move_slider sld = (if max_row sld < last_row sld then max_row sld else last_row sld,
     if max_row sld < current_row sld then max_row sld else current_row sld)"

definition slider_up :: "int \<Rightarrow> slider \<Rightarrow> slider" where
  "slider_up logic_row sld = sld\<lparr>last_row := current_row sld,
     current_row := (if current_row sld = 0 then logic_row else current_row sld - 1)\<rparr>"

definition slider_down :: "int \<Rightarrow> slider \<Rightarrow> slider" where
  "slider_down logic_row sld = sld\<lparr>last_row := current_row sld,
     current_row := (if current_row sld = logic_row then 0 else current_row sld + 1)\<rparr>"

fun choice_loop :: "ui_page_type \<Rightarrow> int \<Rightarrow> slider \<Rightarrow> int list \<Rightarrow> (int \<times> slider \<times> int list) option" where
  "choice_loop ptype logic_row sld [] = None"
| "choice_loop ptype logic_row sld (key # ks) =
     (let sld' = (if key = KEY_UP then slider_up logic_row sld
                  else if key = KEY_DOWN then slider_down logic_row sld else sld) in
      if key \<in> {KEY_UP, KEY_DOWN, KEY_LEFT, KEY_RIGHT} \<and> ptype \<noteq> page_mainmenu_e then Some (key, sld', ks)
      else if key \<in> {KEY_ENTER, NEWLINE, KEY_BACKSPACE} then Some (key, sld', ks)
      else choice_loop ptype logic_row sld' ks)"

text \<open>The static \<^verbatim>\<open>current_page\<close> and the global \<^verbatim>\<open>global_pw_verified\<close>.\<close>

record gui =
  current_page :: ui_page_type
  global_pw_verified :: bool

definition get_choice :: "ui_page_type \<Rightarrow> slider option \<Rightarrow> int \<Rightarrow> int list \<Rightarrow> gui
    \<Rightarrow> (int \<times> slider option \<times> int list \<times> gui) option" where
  "get_choice ptype sld logic_row keys g =
     (let g' = (if current_page g \<noteq> ptype then g\<lparr>current_page := ptype, global_pw_verified := False\<rparr> else g) in
      case sld of
        None \<Rightarrow> (case keys of [] \<Rightarrow> None | key # ks \<Rightarrow> Some (key, None, ks, g'))
      | Some s \<Rightarrow> map_option (\<lambda>(key, s', ks). (key, Some s', ks, g')) (choice_loop ptype logic_row s keys))"

definition scroll_pad :: "slider \<Rightarrow> int \<Rightarrow> int \<Rightarrow> int" where
  "scroll_pad sld logic_row nline =
     (if max_row sld < current_row sld \<and> last_row sld = 0 then logic_row - max_row sld
      else if current_row sld = 0 then 0
      else if max_row sld < current_row sld \<and> last_row sld < current_row sld then nline + 1
      else if max_row sld \<le> current_row sld \<and> current_row sld < last_row sld then nline - 1
      else nline)"

definition PAD_BOXED_HIGHT :: int where "PAD_BOXED_HIGHT = 12"

text \<open>The slider of a list of \<open>n\<close> rows (\<^verbatim>\<open>pad_fill_shelves_info\<close>, \<^verbatim>\<open>display_bookinfo_page\<close>).\<close>

definition list_slider :: "int \<Rightarrow> slider" where
  "list_slider n = \<lparr>current_row = 0, last_row = 0,
     max_row = (if PAD_BOXED_HIGHT - 1 < n then PAD_BOXED_HIGHT - 1 else n - 1)\<rparr>"

text \<open>The states of a page that shows a list: its slider and \<^verbatim>\<open>first_line\<close>, after any keys.\<close>

inductive browsing :: "ui_page_type \<Rightarrow> int \<Rightarrow> slider \<Rightarrow> int \<Rightarrow> bool" for ptype n where
  browse_start: "browsing ptype n (list_slider n) 0"
| browse_key: "browsing ptype n sld first_line \<Longrightarrow> get_choice ptype (Some sld) (n - 1) keys g = Some (key, Some sld', ks, g')
    \<Longrightarrow> ptype \<noteq> page_mainmenu_e
    \<Longrightarrow> browsing ptype n sld' (if key = KEY_UP \<or> key = KEY_DOWN then scroll_pad sld' (n - 1) first_line else first_line)"

section \<open>The place of a book\<close>

text \<open>\<^verbatim>\<open>cur_floor\<close>, \<^verbatim>\<open>cur_depth\<close> and \<^verbatim>\<open>cur_cursor\<close>; a depth of a floor outside \<^verbatim>\<open>ndepth\<close> is undefined.\<close>

definition floors_of :: "shelf_entry \<Rightarrow> int" where
  "floors_of sh = int (unat (nfloors sh))"

definition depth_at :: "shelf_entry \<Rightarrow> int \<Rightarrow> int" where
  "depth_at sh fl = int (unat (ndepth sh ! nat (fl - 1)))"

definition floor_key :: "shelf_entry \<Rightarrow> int \<Rightarrow> int \<times> int \<times> bool \<Rightarrow> (int \<times> int \<times> bool) option" where
  "floor_key sh key = (\<lambda>(fl, de, cursor).
     if key = KEY_UP then
       if \<not> cursor then Some (if floors_of sh < fl + 1 then floors_of sh else fl + 1, de, cursor)
       else if fl < 1 \<or> int (length (ndepth sh)) < fl then None
       else Some (fl, if depth_at sh fl < de + 1 then depth_at sh fl else de + 1, cursor)
     else if key = KEY_DOWN then
       if \<not> cursor then Some (if fl - 1 < 1 then 1 else fl - 1, de, cursor)
       else Some (fl, if de - 1 < 1 then 1 else de - 1, cursor)
     else if key = KEY_LEFT \<or> key = KEY_RIGHT then Some (fl, 1, \<not> cursor)
     else Some (fl, de, cursor))"

fun floor_loop :: "shelf_entry \<Rightarrow> int list \<Rightarrow> int \<times> int \<times> bool \<Rightarrow> ((int \<times> int) \<times> int list) option" where
  "floor_loop sh [] st = None"
| "floor_loop sh (key # ks) st =
     (case floor_key sh key st of None \<Rightarrow> None
      | Some (fl, de, cursor) \<Rightarrow>
          if key = KEY_ENTER \<or> key = NEWLINE then Some ((fl, de), ks) else floor_loop sh ks (fl, de, cursor))"

definition select_newbook_floor :: "shelf_entry \<Rightarrow> int list \<Rightarrow> book_entry \<Rightarrow> (book_entry \<times> int list) option" where
  "select_newbook_floor sh keys b =
     map_option (\<lambda>((fl, de), ks). (b\<lparr>code1 := push_bit 4 fl OR de\<rparr>, ks)) (floor_loop sh keys (1, 1, False))"

text \<open>How \<^verbatim>\<open>show_newbook_info\<close> reads it.\<close>

definition shown_floor :: "book_entry \<Rightarrow> int \<times> int" where
  "shown_floor b = (drop_bit 4 (code1 b), code1 b AND 0x0F)"

section \<open>The depths of a shelf\<close>

text \<open>\<^verbatim>\<open>ncgui_display_buildshelf_page\<close> asks for the number of floors with the up and down keys;\<close>

fun floors_loop :: "int list \<Rightarrow> int \<Rightarrow> (int \<times> int list) option" where
  "floors_loop [] n = None"
| "floors_loop (key # ks) n =
     (if key = KEY_ENTER \<or> key = NEWLINE then Some (n, ks)
      else if key = KEY_UP then floors_loop ks (if int MAX_FLOORS < n + 1 then 1 else n + 1)
      else if key = KEY_DOWN then floors_loop ks (if n - 1 < 1 then int MAX_FLOORS else n - 1)
      else floors_loop ks n)"

text \<open>and \<^verbatim>\<open>set_shelf_parameter\<close> moves between the floors and changes the depth of the current one (an \<^verbatim>\<open>unsigned char\<close>).
  \<open>fl\<close> is \<^verbatim>\<open>curs_floor\<close>; what is visible of the drawing (\<^verbatim>\<open>start_hight\<close>) is left out.\<close>

definition less_depth :: "u8 \<Rightarrow> u8" where
  "less_depth d = (if d - 1 = 255 then 0 else d - 1)"

definition more_depth :: "u8 \<Rightarrow> u8" where
  "more_depth d = (if MAX_DEPTH < unat (d + 1) then of_nat MAX_DEPTH else d + 1)"

definition depth_key :: "int \<Rightarrow> int \<Rightarrow> int \<times> u8 list \<Rightarrow> int \<times> u8 list" where
  "depth_key n key = (\<lambda>(fl, ds).
     if key = KEY_DOWN then (if fl - 1 < 1 then 1 else fl - 1, ds)
     else if key = KEY_UP then (if n < fl + 1 then n else fl + 1, ds)
     else if key = KEY_LEFT then (fl, ds[nat (fl - 1) := less_depth (ds ! nat (fl - 1))])
     else if key = KEY_RIGHT then (fl, ds[nat (fl - 1) := more_depth (ds ! nat (fl - 1))])
     else (fl, ds))"

fun depth_loop :: "int \<Rightarrow> int list \<Rightarrow> int \<times> u8 list \<Rightarrow> (u8 list \<times> int list) option" where
  "depth_loop n [] st = None"
| "depth_loop n (key # ks) st =
     (if key = KEY_ENTER \<or> key = NEWLINE then Some (snd st, ks) else depth_loop n ks (depth_key n key st))"

definition set_shelf_parameter :: "int \<Rightarrow> u8 list \<Rightarrow> int list \<Rightarrow> (u8 list \<times> int list) option" where
  "set_shelf_parameter n ds keys = depth_loop n keys (1, ds)"

section \<open>Properties of the lists\<close>

definition list_ok :: "int \<Rightarrow> slider \<Rightarrow> int \<Rightarrow> bool" where
  "list_ok n sld first_line \<longleftrightarrow> max_row sld = max_row (list_slider n) \<and> 0 \<le> current_row sld \<and> current_row sld \<le> n - 1
     \<and> first_line = max 0 (current_row sld - max_row sld)"

lemma choice_loop_page:
  "ptype \<noteq> page_mainmenu_e \<Longrightarrow> choice_loop ptype l sld keys = Some (key, sld', ks) \<Longrightarrow>
     key = KEY_UP \<and> sld' = slider_up l sld \<or> key = KEY_DOWN \<and> sld' = slider_down l sld
     \<or> key \<noteq> KEY_UP \<and> key \<noteq> KEY_DOWN \<and> sld' = sld"
  by (induction keys) (auto simp: Let_def key_codes split: if_splits)

lemma list_ok_up: "list_ok n sld fl \<Longrightarrow> list_ok n (slider_up (n - 1) sld) (scroll_pad (slider_up (n - 1) sld) (n - 1) fl)"
  by (auto simp: list_ok_def slider_up_def scroll_pad_def list_slider_def PAD_BOXED_HIGHT_def split: if_splits)

lemma list_ok_down: "list_ok n sld fl \<Longrightarrow> list_ok n (slider_down (n - 1) sld) (scroll_pad (slider_down (n - 1) sld) (n - 1) fl)"
  by (auto simp: list_ok_def slider_down_def scroll_pad_def list_slider_def PAD_BOXED_HIGHT_def split: if_splits)

lemma browsing_ok: "browsing ptype n sld fl \<Longrightarrow> 1 \<le> n \<Longrightarrow> list_ok n sld fl"
proof (induction rule: browsing.induct)
  case browse_start
  then show ?case by (simp add: list_ok_def list_slider_def PAD_BOXED_HIGHT_def)
next
  case (browse_key sld first_line keys g key sld' ks g')
  have "choice_loop ptype (n - 1) sld keys = Some (key, sld', ks)"
    using browse_key.hyps(2) by (auto simp: get_choice_def Let_def)
  from choice_loop_page [OF browse_key.hyps(3) this] show ?case
    using browse_key.IH [OF browse_key.prems] list_ok_up list_ok_down by auto
qed

text \<open>C32: whatever keys the user presses in a list of shelves or books, the highlighted line of the screen is the
  line of the selected row: the selected row exists, and the first visible line plus the row of the mark is
  its number; the window never runs over the ends of the list.\<close>

theorem list_selection_visible:
  assumes "browsing ptype n sld first_line" and "1 \<le> n"
  shows "0 \<le> current_row sld \<and> current_row sld < n \<and> first_line + snd (move_slider sld) = current_row sld
    \<and> 0 \<le> first_line \<and> first_line + max_row sld < n"
  using browsing_ok [OF assms] assms(2)
  by (auto simp: list_ok_def move_slider_def list_slider_def PAD_BOXED_HIGHT_def max_def split: if_splits)

definition some_gui :: gui where
  "some_gui = \<lparr>current_page = page_mainmenu_e, global_pw_verified = True\<rparr>"

lemma sample_browsing: "browsing page_bookinfo_e 30 \<lparr>current_row = 29, last_row = 0, max_row = 11\<rparr> 18"
proof -
  have "get_choice page_bookinfo_e (Some (list_slider 30)) (30 - 1) [KEY_UP] some_gui
      = Some (KEY_UP, Some \<lparr>current_row = 29, last_row = 0, max_row = 11\<rparr>, [], some_gui\<lparr>current_page := page_bookinfo_e, global_pw_verified := False\<rparr>)"
    by (simp add: get_choice_def list_slider_def slider_up_def PAD_BOXED_HIGHT_def some_gui_def)
  from browse_key [OF browse_start this] show ?thesis by (simp add: scroll_pad_def)
qed

theorem list_selection_visible_witness:
  "18 + snd (move_slider \<lparr>current_row = 29, last_row = 0, max_row = 11\<rparr>) = 29"
  using list_selection_visible [OF sample_browsing] by simp

section \<open>Properties of shelf places\<close>

definition place_ok :: "shelf_entry \<Rightarrow> int \<Rightarrow> int \<Rightarrow> bool" where
  "place_ok sh fl de \<longleftrightarrow> 1 \<le> fl \<and> fl \<le> floors_of sh \<and> 0 \<le> de \<and> de \<le> max 1 (depth_at sh fl)"

lemma depth_at_nonneg [simp]: "0 \<le> depth_at sh fl"
  by (simp add: depth_at_def)

lemma floor_key_ok:
  assumes "1 \<le> floors_of sh" and "floors_of sh \<le> int (length (ndepth sh))"
    and "place_ok sh fl de" and "\<not> cursor \<longrightarrow> de = 1"
  shows "\<exists>fl' de' cursor'. floor_key sh key (fl, de, cursor) = Some (fl', de', cursor') \<and> place_ok sh fl' de' \<and> (\<not> cursor' \<longrightarrow> de' = 1)"
  using assms by (auto simp: floor_key_def place_ok_def max_def split: if_splits)

lemma floor_loop_ok:
  assumes "1 \<le> floors_of sh" and "floors_of sh \<le> int (length (ndepth sh))"
  shows "place_ok sh fl de \<Longrightarrow> \<not> cursor \<longrightarrow> de = 1 \<Longrightarrow> KEY_ENTER \<in> set keys \<or> NEWLINE \<in> set keys \<Longrightarrow>
    \<exists>fl' de' ks. floor_loop sh keys (fl, de, cursor) = Some ((fl', de'), ks) \<and> place_ok sh fl' de'"
proof (induction keys arbitrary: fl de cursor)
  case (Cons key ks)
  obtain fl' de' cursor' where k: "floor_key sh key (fl, de, cursor) = Some (fl', de', cursor')" "place_ok sh fl' de'" "\<not> cursor' \<longrightarrow> de' = 1"
    using floor_key_ok [OF assms Cons.prems(1,2)] by blast
  show ?case using k Cons.IH [OF k(2,3)] Cons.prems(3) by auto
qed simp

lemma place_code:
  fixes fl de :: int
  assumes "0 \<le> de" and "de < 16"
  shows "drop_bit 4 (push_bit 4 fl OR de) = fl" and "(push_bit 4 fl OR de) AND 0x0F = de"
proof -
  have "drop_bit 4 de = 0" using assms by (simp add: drop_bit_eq_div)
  then show "drop_bit 4 (push_bit 4 fl OR de) = fl" by (simp add: drop_bit_or drop_bit_push_bit)
  have m: "(0x0F :: int) = mask 4" by (simp add: mask_eq_exp_minus_1)
  have "take_bit 4 de = de" using assms by (simp add: take_bit_eq_mod)
  then show "(push_bit 4 fl OR de) AND 0x0F = de" unfolding m take_bit_eq_mask [symmetric] by (simp add: take_bit_or take_bit_push_bit)
qed


definition two_floors :: shelf_entry where
  "two_floors = \<lparr>s_code = 1, s_name = ''Hall'', nfloors = 2, ndepth = [3, 0] @ replicate 13 0, building_time = ''''\<rparr>"


definition depths_ok :: "u8 list \<Rightarrow> bool" where
  "depths_ok ds \<longleftrightarrow> length ds = MAX_FLOORS \<and> (\<forall>d \<in> set ds. unat d \<le> MAX_DEPTH)"

lemma floors_loop_ok: "floors_loop keys n = Some (n', ks) \<Longrightarrow> 1 \<le> n \<Longrightarrow> n \<le> int MAX_FLOORS \<Longrightarrow> 1 \<le> n' \<and> n' \<le> int MAX_FLOORS"
  by (induction keys n rule: floors_loop.induct) (auto simp: MAX_FLOORS_def split: if_splits)

lemma depth_steps:
  assumes "unat d \<le> MAX_DEPTH"
  shows "unat (less_depth d) \<le> MAX_DEPTH" and "unat (more_depth d) \<le> MAX_DEPTH"
proof -
  have "unat (d - 1) \<le> unat d" if "d \<noteq> 0" using that by (simp add: unat_minus_one)
  then show "unat (less_depth d) \<le> MAX_DEPTH" using assms by (cases "d = 0") (auto simp: less_depth_def)
qed (auto simp: more_depth_def MAX_DEPTH_def)

lemma depth_key_ok:
  assumes "depths_ok ds" and "1 \<le> fl" and "fl \<le> n" and "n \<le> int MAX_FLOORS" and "depth_key n key (fl, ds) = (fl', ds')"
  shows "depths_ok ds' \<and> 1 \<le> fl' \<and> fl' \<le> n"
proof -
  have "nat (fl - 1) < length ds" using assms by (auto simp: depths_ok_def)
  then have d: "unat (ds ! nat (fl - 1)) \<le> MAX_DEPTH" using assms(1) by (simp add: depths_ok_def)
  have upd: "depths_ok (ds[i := x])" if "unat x \<le> MAX_DEPTH" for i x
    using assms(1) that set_update_subset_insert [of ds i x] by (auto simp: depths_ok_def)
  show ?thesis
    using assms upd [OF depth_steps(1) [OF d]] upd [OF depth_steps(2) [OF d]]
    by (auto simp: depth_key_def split: if_splits)
qed

lemma depth_loop_ok:
  "depth_loop n keys (fl, ds) = Some (ds', ks) \<Longrightarrow> depths_ok ds \<Longrightarrow> 1 \<le> fl \<Longrightarrow> fl \<le> n \<Longrightarrow> n \<le> int MAX_FLOORS \<Longrightarrow> depths_ok ds'"
proof (induction keys arbitrary: fl ds)
  case (Cons key keys)
  obtain fl1 ds1 where k: "depth_key n key (fl, ds) = (fl1, ds1)" by (cases "depth_key n key (fl, ds)")
  show ?case using Cons.IH [of fl1 ds1] depth_key_ok [OF Cons.prems(2-5) k] Cons.prems(1,2,5) k by (auto split: if_splits)
qed simp

text \<open>C34: the floors and depths a user can enter for a new shelf are always within the limits: one to fifteen
  floors, each of a depth of at most five rows, also at the ends of the ranges and however often the
  depths are edited again; so the server can print the depths of every floor.\<close>

theorem built_shelf_in_range:
  assumes "floors_loop keys 1 = Some (n, ks)" and "depths_ok ds" and "set_shelf_parameter n ds keys' = Some (ds', ks')"
    and "e' = e\<lparr>nfloors := of_int n, ndepth := ds'\<rparr>"
  shows "depths_ok ds' \<and> int (unat (nfloors e')) = n \<and> floor_depth_str e' \<noteq> None \<and> (\<forall>d \<in> set (ndepth e'). unat d \<le> 9)"
proof -
  have n: "1 \<le> n" "n \<le> int MAX_FLOORS" using floors_loop_ok [OF assms(1)] by (simp_all add: MAX_FLOORS_def)
  have ds: "depths_ok ds'" using depth_loop_ok [of n keys' 1 ds ds' ks'] assms(2,3) n by (simp add: set_shelf_parameter_def)
  have u: "uint (word_of_int n :: u8) = n" using n by (simp add: uint_word_of_int MAX_FLOORS_def)
  then have "unat (nfloors e') = nat n" by (simp add: assms(4) unat_eq_nat_uint)
  then show ?thesis using ds n assms(4) by (auto simp: floor_depth_str_def Let_def depths_ok_def MAX_DEPTH_def)
qed

theorem built_shelf_in_range_witness:
  "\<exists>ds'. set_shelf_parameter 15 (replicate 15 0) [KEY_LEFT, KEY_UP, KEY_RIGHT, KEY_ENTER] = Some (ds', [])
     \<and> depths_ok ds'"
proof -
  have f: "floors_loop [KEY_DOWN, KEY_ENTER] 1 = Some (15, [])" by (simp add: key_codes MAX_FLOORS_def)
  have p: "set_shelf_parameter 15 (replicate 15 0) [KEY_LEFT, KEY_UP, KEY_RIGHT, KEY_ENTER]
      = Some ((replicate 15 0)[1 := 1], [])" (is "_ = Some (?ds, _)")
    by code_simp
  have "depths_ok (replicate 15 0)" by (simp add: depths_ok_def MAX_FLOORS_def)
  from built_shelf_in_range [OF f this p refl, of two_floors] show ?thesis using p by blast
qed

end
