(* ===== verification/Ncgui_Login.thy ===== *)
theory Ncgui_Login
  imports Ncgui_Input
begin

text \<open>
  Logging in and registering at the terminal, \<^verbatim>\<open>bsdqclient/ncgui.c\<close>: \<^verbatim>\<open>get_login_input\<close> edits a name or a password
  in its buffer, the two pages are loops over the user's choices.  A page state holds the local variables of
  the page; the keyboard is a list of key codes, the answers of the operating system to the n-th attempt to
  connect are \<open>sts n\<close>.  \<^const>\<open>None\<close>: the page waits for a key, or undefined behaviour.
\<close>

section \<open>Typing a name or a password\<close>

datatype ui_login_option = lg_option_name | lg_option_password | lg_option_login | lg_option_register

definition MIN_PW_LEN :: nat where "MIN_PW_LEN = 6"
definition DEFAULT_INPUT_LEN :: nat where "DEFAULT_INPUT_LEN = 20"

definition check_login_input_char :: "bytes \<Rightarrow> int \<Rightarrow> ui_login_option \<Rightarrow> bool" where
  "check_login_input_char input_str ch opt =
     (case opt of
        lg_option_name \<Rightarrow> 0x30 \<le> ch \<and> ch \<le> 0x39 \<or> 0x41 \<le> ch \<and> ch \<le> 0x5A \<or> 0x61 \<le> ch \<and> ch \<le> 0x7A
          \<or> ch = 0x5F \<and> CHR ''_'' \<notin> set (cstr input_str)
      | lg_option_password \<Rightarrow> 0x21 \<le> ch \<and> ch \<le> 0x7E
      | _ \<Rightarrow> False)"

fun login_loop :: "ui_login_option \<Rightarrow> int list \<Rightarrow> bytes \<Rightarrow> nat \<Rightarrow> (bool \<times> bytes \<times> int list) option" where
  "login_loop opt [] b i = None"
| "login_loop opt (ch # ks) b i =
     (if length b \<le> i then None
      else if ch < 128 then
        if ch = NEWLINE then
          if i < MIN_PW_LEN then Some (False, b[0 := NUL], ks) else Some (True, b[i := NUL], ks)
        else if check_login_input_char b ch opt \<and> i < DEFAULT_INPUT_LEN
        then login_loop opt ks (b[i := char_of (nat ch)]) (i + 1)
        else login_loop opt ks b i
      else if ch = KEY_BACKSPACE then login_loop opt ks (b[i - 1 := NUL]) (i - 1)
      else login_loop opt ks b i)"

definition get_login_input :: "ui_login_option \<Rightarrow> int list \<Rightarrow> bytes \<Rightarrow> (bool \<times> bytes \<times> int list) option" where
  "get_login_input opt keys input_str =
     (if NUL \<notin> set input_str then None else login_loop opt keys input_str (strlen input_str))"

text \<open>\<open>d\<close> is the first letter of \<^verbatim>\<open>option_default\<close>: \<^verbatim>\<open>Empty\<close> and \<^verbatim>\<open>Certain\<close> only show the prompt; otherwise one key is
  read (\<^verbatim>\<open>char first_char = getch()\<close>), and enter stands for the default.\<close>

definition get_confirm :: "char \<Rightarrow> int list \<Rightarrow> (bool \<times> int list) option" where
  "get_confirm d keys =
     (if d = CHR ''E'' \<or> d = CHR ''C'' then Some (True, keys)
      else case keys of [] \<Rightarrow> None
      | ch # ks \<Rightarrow> (let c = ch mod 256 in Some (c = 89 \<or> c = 121 \<or> c = 10 \<and> d = CHR ''Y'', ks)))"

definition check_password_strength :: "crack \<Rightarrow> string \<Rightarrow> verdict option" where
  "check_password_strength cr to_check = map_option fst (check_password cr to_check ''USER'')"

section \<open>The registration page\<close>

record ('w, 'd) reg_page =
  rp_name :: bytes
  rp_password :: bytes
  rp_temp_str :: bytes
  rp_slider :: slider
  rp_tries :: nat
  rp_gui :: gui
  rp_cli :: "('w, 'd) cli"

definition page_account :: "account_type \<Rightarrow> bytes \<Rightarrow> bytes \<Rightarrow> account_entry" where
  "page_account ty nm pw = \<lparr>a_type = ty, a_name = cstr nm, a_password = cstr pw\<rparr>"

text \<open>\<^verbatim>\<open>case reg_option_password\<close>: the buffers and the keys afterwards.\<close>

definition reg_password :: "crack \<Rightarrow> int list \<Rightarrow> ('w, 'd) reg_page \<Rightarrow> (('w, 'd) reg_page \<times> int list) option" where
  "reg_password cr keys p =
     (case get_login_input lg_option_password keys ((rp_password p)[0 := NUL]) of None \<Rightarrow> None
      | Some (ok, pw, ks) \<Rightarrow>
          (let p1 = p\<lparr>rp_password := pw\<rparr> in
           if \<not> ok then Some (p1, ks)
           else (case check_password_strength cr (cstr pw) of None \<Rightarrow> None
              | Some LDAP_SUCCESS \<Rightarrow>
                  (case get_login_input lg_option_password ks (rp_temp_str p1) of None \<Rightarrow> None
                   | Some (ok2, tmp, ks2) \<Rightarrow>
                       Some (p1\<lparr>rp_temp_str := (if ok2 \<and> cstr tmp \<noteq> cstr pw then tmp[0 := NUL] else tmp)\<rparr>, ks2))
              | Some _ \<Rightarrow> Some (p1, ks))))"

datatype 'a outcome = Leave 'a | Stay 'a

text \<open>One turn of the loop: \<open>Leave\<close> when the page returns.\<close>

definition reg_turn :: "('w, 'd, 'k) cenv \<Rightarrow> crack \<Rightarrow> (nat \<Rightarrow> 'd cli_start) \<Rightarrow> int list \<Rightarrow> ('w, 'd) reg_page
    \<Rightarrow> (('w, 'd) reg_page outcome \<times> int list) option" where
  "reg_turn E cr sts keys p =
     (case get_choice page_register_e (Some (rp_slider p)) 3 keys (rp_gui p) of
        None \<Rightarrow> None | Some (_, None, _, _) \<Rightarrow> None
      | Some (key, Some sld, ks, g) \<Rightarrow>
          (let p1 = p\<lparr>rp_slider := sld, rp_gui := g\<rparr> in
           if key \<noteq> KEY_ENTER \<and> key \<noteq> NEWLINE then Some (Stay p1, ks)
           else if current_row sld = 0 then
             map_option (\<lambda>(_, nm, ks1). (Stay (p1\<lparr>rp_name := nm\<rparr>), ks1)) (get_login_input lg_option_name ks (rp_name p1))
           else if current_row sld = 1 then map_option (\<lambda>(p2, ks1). (Stay p2, ks1)) (reg_password cr ks p1)
           else if current_row sld = 2 then
             if cstr (rp_name p1) = '''' \<or> cstr (rp_password p1) = '''' then Some (Stay p1, ks)
             else map_option (\<lambda>(ok, _, c).
                 let p2 = p1\<lparr>rp_cli := c, rp_tries := rp_tries p1 + 1\<rparr> in
                 if ok then (Leave p2, ks)
                 else (Stay (p2\<lparr>rp_slider := sld\<lparr>last_row := current_row sld, current_row := 0\<rparr>\<rparr>), ks))
               (client_start_register E (sts (rp_tries p1)) (page_account account_user_e (rp_name p1) (rp_password p1)) '''' (rp_cli p1))
           else if current_row sld = 3 then Some (Leave p1, ks)
           else Some (Stay p1, ks)))"

lemma choice_loop_shorter: "choice_loop ptype l sld keys = Some (key, sld', ks) \<Longrightarrow> length ks < length keys"
  by (induction keys arbitrary: sld) (fastforce simp: Let_def split: if_splits)+

lemma get_choice_shorter: "get_choice ptype (Some s) l keys g = Some (key, s', ks, g') \<Longrightarrow> length ks < length keys"
  by (auto simp: get_choice_def Let_def dest: choice_loop_shorter)

lemma login_loop_shorter: "login_loop opt keys b i = Some (ok, b', ks) \<Longrightarrow> length ks < length keys"
  by (induction keys arbitrary: b i) (fastforce split: if_splits)+

lemma login_input_shorter: "get_login_input opt keys b = Some (ok, b', ks) \<Longrightarrow> length ks < length keys"
  by (auto simp: get_login_input_def dest: login_loop_shorter split: if_splits)

lemma reg_password_shorter: "reg_password cr keys p = Some (p', ks) \<Longrightarrow> length ks < length keys"
  by (fastforce simp: reg_password_def Let_def dest: login_input_shorter split: option.splits prod.splits if_splits verdict.splits)

lemma reg_turn_shorter: "reg_turn E cr sts keys p = Some (r, ks) \<Longrightarrow> length ks < length keys"
  by (fastforce simp: reg_turn_def Let_def dest!: get_choice_shorter dest: login_input_shorter reg_password_shorter
      split: option.splits prod.splits if_splits)

function reg_loop :: "('w, 'd, 'k) cenv \<Rightarrow> crack \<Rightarrow> (nat \<Rightarrow> 'd cli_start) \<Rightarrow> int list \<Rightarrow> ('w, 'd) reg_page
    \<Rightarrow> (('w, 'd) reg_page \<times> int list) option" where
  "reg_loop E cr sts keys p =
     (case reg_turn E cr sts keys p of None \<Rightarrow> None
      | Some (Leave p', ks) \<Rightarrow> Some (p', ks)
      | Some (Stay p', ks) \<Rightarrow> reg_loop E cr sts ks p')"
  by pat_completeness auto
termination
  by (relation "measure (\<lambda>(E, cr, sts, keys, p). length keys)") (auto dest: reg_turn_shorter)

declare reg_loop.simps [simp del]

definition ACCOUNT_SZ :: nat where "ACCOUNT_SZ = BCRYPT_HASHSIZE + 1"

text \<open>\<open>junk\<close> is what \<^verbatim>\<open>temp_str\<close> holds before its first use.\<close>

definition ncgui_display_register_page :: "('w, 'd, 'k) cenv \<Rightarrow> crack \<Rightarrow> (nat \<Rightarrow> 'd cli_start) \<Rightarrow> bytes \<Rightarrow> gui
    \<Rightarrow> ('w, 'd) cli \<Rightarrow> int list \<Rightarrow> (('w, 'd) reg_page \<times> int list) option" where
  "ncgui_display_register_page E cr sts junk g c keys =
     reg_loop E cr sts keys \<lparr>rp_name = replicate ACCOUNT_SZ NUL, rp_password = replicate ACCOUNT_SZ NUL, rp_temp_str = junk,
       rp_slider = \<lparr>current_row = 0, last_row = 0, max_row = 3\<rparr>, rp_tries = 0, rp_gui = g, rp_cli = c\<rparr>"

section \<open>What can be typed\<close>

definition typed_char :: "ui_login_option \<Rightarrow> char \<Rightarrow> bool" where
  "typed_char opt c = (let n = (of_char c :: nat) in
     case opt of lg_option_name \<Rightarrow> is_digit c \<or> 65 \<le> n \<and> n \<le> 90 \<or> 97 \<le> n \<and> n \<le> 122 \<or> c = CHR ''_''
     | lg_option_password \<Rightarrow> 33 \<le> n \<and> n \<le> 126 | _ \<Rightarrow> False)"

text \<open>At most 20 characters of the permitted ones, in a name at most one underscore.\<close>

definition login_text :: "ui_login_option \<Rightarrow> string \<Rightarrow> bool" where
  "login_text opt s \<longleftrightarrow> length s \<le> DEFAULT_INPUT_LEN \<and> list_all (typed_char opt) s
     \<and> (opt = lg_option_name \<longrightarrow> length (filter (\<lambda>c. c = CHR ''_'') s) \<le> 1)"

lemma typed_not_NUL [simp]: "typed_char opt NUL = False"
  by (simp add: typed_char_def is_digit_def split: ui_login_option.split)

lemma login_text_NUL: "login_text opt s \<Longrightarrow> NUL \<notin> set s"
  by (auto simp: login_text_def list_all_iff)

lemma login_text_take: "login_text opt s \<Longrightarrow> login_text opt (take i s)"
  by (induction s rule: rev_induct) (auto simp: login_text_def take_Cons' list_all_iff dest: in_set_takeD)

lemma of_char_nat: "0 \<le> ch \<Longrightarrow> ch < 256 \<Longrightarrow> of_char (char_of (nat ch) :: char) = nat ch"
  by (simp add: of_char_of nat_less_iff)

lemma typed_key:
  assumes "check_login_input_char b ch opt"
  shows "typed_char opt (char_of (nat ch))" and "opt = lg_option_name \<Longrightarrow> char_of (nat ch) = CHR ''_'' \<Longrightarrow> CHR ''_'' \<notin> set (cstr b)"
proof -
  have r: "0 \<le> ch" "ch < 256" using assms by (auto simp: check_login_input_char_def split: ui_login_option.splits)
  note of_char = of_char_nat [OF r]
  have us: "char_of (nat ch) = CHR ''_'' \<longleftrightarrow> ch = 95"
  proof
    assume "char_of (nat ch) = CHR ''_''"
    then have "of_char (char_of (nat ch) :: char) = (of_char (CHR ''_'') :: nat)" by simp
    then show "ch = 95" using of_char r by simp
  next
    have "char_of (95 :: nat) = CHR ''_''" by code_simp
    then show "char_of (nat ch) = CHR ''_''" if "ch = 95" using that by simp
  qed
  show "typed_char opt (char_of (nat ch))"
    using assms r of_char us by (auto simp: check_login_input_char_def typed_char_def is_digit_def nat_le_iff le_nat_iff split: ui_login_option.splits)
  assume "opt = lg_option_name" "char_of (nat ch) = CHR ''_''"
  then show "CHR ''_'' \<notin> set (cstr b)" using assms us by (simp add: check_login_input_char_def)
qed

definition typing :: "ui_login_option \<Rightarrow> bytes \<Rightarrow> nat \<Rightarrow> bool" where
  "typing opt b i \<longleftrightarrow> length b = ACCOUNT_SZ \<and> i \<le> DEFAULT_INPUT_LEN \<and> login_text opt (take i b)"

lemma typing_bound: "typing opt b i \<Longrightarrow> i < length b"
  by (simp add: typing_def DEFAULT_INPUT_LEN_def ACCOUNT_SZ_def BCRYPT_HASHSIZE_def)

lemma cstr_update: "i < length b \<Longrightarrow> NUL \<notin> set (take i b) \<Longrightarrow> cstr (b[i := NUL]) = take i b"
  by (simp add: upd_conv_take_nth_drop)

lemma take_in_cstr:
  assumes "NUL \<notin> set (take i b)"
  shows "set (take i b) \<subseteq> set (cstr b)"
proof -
  have "cstr (take i b @ drop i b) = take i b @ cstr (drop i b)" unfolding cstr_def using assms by (intro takeWhile_append2) metis
  then show ?thesis by (metis Un_upper1 append_take_drop_id set_append)
qed

lemma typing_step:
  assumes "typing opt b i" and "check_login_input_char b ch opt" and "i < DEFAULT_INPUT_LEN"
  shows "typing opt (b[i := char_of (nat ch)]) (i + 1)"
proof -
  let ?c = "char_of (nat ch) :: char"
  have t: "take (Suc i) (b[i := ?c]) = take i b @ [?c]"
    using typing_bound [OF assms(1)] by (simp add: take_Suc_conv_app_nth)
  have nul: "NUL \<notin> set (take i b)" using assms(1) login_text_NUL by (auto simp: typing_def)
  have "filter (\<lambda>c. c = CHR ''_'') (take i b) = []" if "opt = lg_option_name" "?c = CHR ''_''"
    using typed_key(2) [OF assms(2) that] take_in_cstr [OF nul] by (auto simp: filter_empty_conv)
  then show ?thesis
    using assms(1,3) typed_key(1) [OF assms(2)] by (auto simp: typing_def login_text_def t)
qed

lemma typing_back: "typing opt b i \<Longrightarrow> typing opt (b[i - 1 := NUL]) (i - 1)"
  using login_text_take [of opt "take i b" "i - 1"] by (auto simp: typing_def min_def)

definition typed :: "ui_login_option \<Rightarrow> bool \<Rightarrow> bytes \<Rightarrow> bool" where
  "typed opt ok b \<longleftrightarrow> length b = ACCOUNT_SZ \<and> NUL \<in> set b \<and> login_text opt (cstr b)
     \<and> (if ok then MIN_PW_LEN \<le> length (cstr b) else cstr b = '''')"

lemma login_loop_typed:
  "typing opt b i \<Longrightarrow> NEWLINE \<in> set keys \<Longrightarrow> \<exists>ok b' ks. login_loop opt keys b i = Some (ok, b', ks) \<and> typed opt ok b'"
proof (induction keys arbitrary: b i)
  case (Cons ch keys)
  have i: "i < length b" using Cons.prems(1) by (rule typing_bound)
  have nul: "NUL \<notin> set (take i b)" using Cons.prems(1) login_text_NUL by (auto simp: typing_def)
  show ?case
  proof (cases "ch = NEWLINE")
    case True
    have "typed opt True (b[i := NUL])" if "MIN_PW_LEN \<le> i"
      using Cons.prems(1) i that cstr_update [OF i nul] set_update_memI [OF i, of NUL] by (simp add: typed_def typing_def)
    moreover have "typed opt False (b[0 := NUL])"
      using Cons.prems(1) i cstr_update [of 0 b] set_update_memI [of 0 b NUL] by (auto simp: typed_def typing_def login_text_def)
    ultimately show ?thesis using i True by (cases "i < MIN_PW_LEN") (auto simp: NEWLINE_def)
  next
    case False
    then have nl: "NEWLINE \<in> set keys" using Cons.prems(2) by simp
    show ?thesis
      using Cons.IH [OF Cons.prems(1) nl] Cons.IH [OF typing_back [OF Cons.prems(1)] nl]
        Cons.IH [OF typing_step [OF Cons.prems(1)] nl, of ch] i False by auto
  qed
qed simp


definition type_keys :: "string \<Rightarrow> int list" where
  "type_keys s = map of_char s @ [NEWLINE]"


section \<open>Registering\<close>

lemma check_typed:
  assumes "login_text opt (s @ [c])"
  shows "check_login_input_char (s @ NUL # r) (of_char c) opt" and "of_char c < (128 :: int)" and "of_char c \<noteq> NEWLINE"
proof -
  have c: "typed_char opt c" using assms by (simp add: login_text_def)
  have nul: "NUL \<notin> set s" using login_text_NUL [OF assms] by simp
  have nat: "(of_char c :: int) = int (of_char c)" by (simp only: of_nat_of_char)
  have us: "CHR ''_'' \<notin> set s" if "opt = lg_option_name" "c = CHR ''_''"
    using assms that by (auto simp: login_text_def filter_empty_conv)
  show "check_login_input_char (s @ NUL # r) (of_char c) opt"
    using c us nul by (auto simp: check_login_input_char_def typed_char_def is_digit_def Let_def nat split: ui_login_option.splits)
  show "of_char c < (128 :: int)" "of_char c \<noteq> NEWLINE"
    using c by (auto simp: typed_char_def is_digit_def NEWLINE_def Let_def nat split: ui_login_option.splits)
qed

lemma login_loop_types:
  "login_text opt (s @ t) \<Longrightarrow> MIN_PW_LEN \<le> length (s @ t) \<Longrightarrow> length t < n
   \<Longrightarrow> \<exists>r. login_loop opt (map of_char t @ NEWLINE # ks) (s @ replicate n NUL) (length s) = Some (True, (s @ t) @ NUL # r, ks)"
proof (induction t arbitrary: s n)
  case Nil
  then obtain m where "n = Suc m" by (cases n) auto
  then show ?case using Nil by (simp add: NEWLINE_def list_update_append)
next
  case (Cons c t)
  then obtain m where n: "n = Suc m" by (cases n) auto
  have "login_text opt (s @ [c])" using login_text_take [OF Cons.prems(1), of "Suc (length s)"] by simp
  note k = check_typed [OF this]
  have "length s < DEFAULT_INPUT_LEN" using Cons.prems(1) by (simp add: login_text_def)
  moreover have "(s @ replicate n NUL)[length s := c] = (s @ [c]) @ replicate m NUL" by (simp add: n list_update_append)
  moreover have "char_of (nat (of_char c)) = c" by (simp add: nat_of_char)
  ultimately have "login_loop opt (map of_char (c # t) @ NEWLINE # ks) (s @ replicate n NUL) (length s)
      = login_loop opt (map of_char t @ NEWLINE # ks) ((s @ [c]) @ replicate m NUL) (length (s @ [c]))"
    using k n by simp
  then show ?case using Cons.IH [of "s @ [c]" m] Cons.prems n by simp
qed

lemma input_types:
  assumes "login_text opt t" and "MIN_PW_LEN \<le> length t"
  obtains b where "get_login_input opt (type_keys t @ ks) (replicate ACCOUNT_SZ NUL) = Some (True, b, ks)" and "cstr b = t"
proof -
  have "length t < ACCOUNT_SZ" using assms(1) by (simp add: login_text_def DEFAULT_INPUT_LEN_def ACCOUNT_SZ_def BCRYPT_HASHSIZE_def)
  then obtain r where "login_loop opt (map of_char t @ NEWLINE # ks) (replicate ACCOUNT_SZ NUL) 0 = Some (True, t @ NUL # r, ks)"
    using login_loop_types [of opt "[]" t ACCOUNT_SZ ks] assms by auto
  moreover have "strlen (replicate ACCOUNT_SZ NUL) = 0" "NUL \<in> set (replicate ACCOUNT_SZ NUL)"
    by (simp_all add: strlen_def ACCOUNT_SZ_def)
  ultimately show ?thesis using that [of "t @ NUL # r"] login_text_NUL [OF assms(1)]
    by (simp add: get_login_input_def type_keys_def)
qed

text \<open>Choosing a row and pressing enter on it.\<close>

definition reg_keys :: "string \<Rightarrow> string \<Rightarrow> int list" where
  "reg_keys nm pw = NEWLINE # type_keys nm @ KEY_DOWN # NEWLINE # type_keys pw @ [KEY_DOWN, NEWLINE]"

definition on_page :: "ui_page_type \<Rightarrow> gui \<Rightarrow> gui" where
  "on_page ptype g = (if current_page g \<noteq> ptype then g\<lparr>current_page := ptype, global_pw_verified := False\<rparr> else g)"

lemma on_page_idem [simp]: "on_page ptype (on_page ptype g) = on_page ptype g"
  by (simp add: on_page_def)

lemma get_choice_enter:
  "get_choice ptype (Some sld) l (NEWLINE # ks) g = Some (NEWLINE, Some sld, ks, on_page ptype g)"
  by (simp add: get_choice_def key_codes on_page_def)

lemma get_choice_down:
  "ptype \<noteq> page_mainmenu_e \<Longrightarrow> get_choice ptype (Some sld) l (KEY_DOWN # ks) g = Some (KEY_DOWN, Some (slider_down l sld), ks, on_page ptype g)"
  by (simp add: get_choice_def key_codes on_page_def)

lemma reg_down:
  "reg_loop E cr sts (KEY_DOWN # ks) p
     = reg_loop E cr sts ks (p\<lparr>rp_slider := slider_down 3 (rp_slider p), rp_gui := on_page page_register_e (rp_gui p)\<rparr>)"
proof -
  have "KEY_DOWN \<noteq> KEY_ENTER \<and> KEY_DOWN \<noteq> NEWLINE" by (simp add: key_codes)
  then show ?thesis by (subst reg_loop.simps) (simp add: reg_turn_def get_choice_down Let_def)
qed

lemma reg_enter_name:
  "current_row (rp_slider p) = 0 \<Longrightarrow> get_login_input lg_option_name ks (rp_name p) = Some (ok, b, ks') \<Longrightarrow>
   reg_loop E cr sts (NEWLINE # ks) p = reg_loop E cr sts ks' (p\<lparr>rp_gui := on_page page_register_e (rp_gui p), rp_name := b\<rparr>)"
  by (subst reg_loop.simps) (simp add: reg_turn_def get_choice_enter Let_def)

lemma reg_enter_password:
  "current_row (rp_slider p) = 1 \<Longrightarrow> reg_password cr ks (p\<lparr>rp_gui := on_page page_register_e (rp_gui p)\<rparr>) = Some (p', ks') \<Longrightarrow>
   reg_loop E cr sts (NEWLINE # ks) p = reg_loop E cr sts ks' p'"
  by (subst reg_loop.simps) (simp add: reg_turn_def get_choice_enter Let_def)

lemma reg_enter_register:
  "current_row (rp_slider p) = 2 \<Longrightarrow> cstr (rp_name p) \<noteq> '''' \<Longrightarrow> cstr (rp_password p) \<noteq> '''' \<Longrightarrow>
   client_start_register E (sts (rp_tries p)) (page_account account_user_e (rp_name p) (rp_password p)) '''' (rp_cli p) = Some (True, err, c') \<Longrightarrow>
   \<exists>p'. reg_loop E cr sts (NEWLINE # ks) p = Some (p', ks) \<and> rp_cli p' = c'"
  by (subst reg_loop.simps) (simp add: reg_turn_def get_choice_enter Let_def)

lemma reg_password_weak:
  assumes "rp_password p = replicate ACCOUNT_SZ NUL" and "login_text lg_option_password pw" and "MIN_PW_LEN \<le> length pw"
    and "check_password_strength cr pw = Some v" and "v \<noteq> LDAP_SUCCESS"
  obtains b where "reg_password cr (type_keys pw @ ks) p = Some (p\<lparr>rp_password := b\<rparr>, ks)" and "cstr b = pw"
proof -
  have z: "(replicate ACCOUNT_SZ NUL)[0 := NUL] = replicate ACCOUNT_SZ NUL" by (simp add: ACCOUNT_SZ_def)
  obtain b where b: "get_login_input lg_option_password (type_keys pw @ ks) (replicate ACCOUNT_SZ NUL) = Some (True, b, ks)" "cstr b = pw"
    by (rule input_types [OF assms(2,3)])
  have "reg_password cr (type_keys pw @ ks) p = Some (p\<lparr>rp_password := b\<rparr>, ks)"
    using b assms(4,5) z assms(1) by (simp add: reg_password_def Let_def split: verdict.splits)
  with b that show ?thesis by blast
qed

text \<open>C36: a password that the strength check rejects can be registered all the same: after the error message the
  rejected password stays in the form, and choosing the register line sends it to the server.\<close>

theorem weak_password_registered:
  fixes E :: "('w, 'd, 'k) cenv"
  assumes "login_text lg_option_name nm" and "MIN_PW_LEN \<le> length nm"
    and "login_text lg_option_password pw" and "MIN_PW_LEN \<le> length pw"
    and "check_password_strength cr pw = Some v" and "v \<noteq> LDAP_SUCCESS"
    and "client_start_register E (sts 0) \<lparr>a_type = account_user_e, a_name = nm, a_password = pw\<rparr> '''' c = Some (True, err, c')"
  shows "\<exists>p. ncgui_display_register_page E cr sts junk g c (reg_keys nm pw) = Some (p, []) \<and> rp_cli p = c'"
proof -
  let ?rest = "KEY_DOWN # NEWLINE # type_keys pw @ [KEY_DOWN, NEWLINE]"
  obtain nb where nb: "get_login_input lg_option_name (type_keys nm @ ?rest) (replicate ACCOUNT_SZ NUL) = Some (True, nb, ?rest)" "cstr nb = nm"
    by (rule input_types [OF assms(1,2)])
  have name: "nm \<noteq> ''''" "pw \<noteq> ''''" using assms(2,4) by (auto simp: MIN_PW_LEN_def)
  let ?p = "\<lparr>rp_name = nb, rp_password = replicate ACCOUNT_SZ NUL, rp_temp_str = junk, rp_slider = \<lparr>current_row = 1, last_row = 0, max_row = 3\<rparr>,
       rp_tries = 0, rp_gui = on_page page_register_e g, rp_cli = c\<rparr> :: ('w, 'd) reg_page"
  have rp: "rp_password ?p = replicate ACCOUNT_SZ NUL" by simp
  obtain pb where pb: "reg_password cr (type_keys pw @ [KEY_DOWN, NEWLINE]) ?p = Some (?p\<lparr>rp_password := pb\<rparr>, [KEY_DOWN, NEWLINE])" "cstr pb = pw"
    by (rule reg_password_weak [OF rp assms(3-6)])
  have "ncgui_display_register_page E cr sts junk g c (reg_keys nm pw) = reg_loop E cr sts (NEWLINE # type_keys pw @ [KEY_DOWN, NEWLINE]) ?p"
    using nb(1) by (simp add: ncgui_display_register_page_def reg_keys_def reg_enter_name reg_down slider_down_def)
  also have "\<dots> = reg_loop E cr sts [KEY_DOWN, NEWLINE] (?p\<lparr>rp_password := pb\<rparr>)"
    using pb(1) by (intro reg_enter_password) simp_all
  also have "\<dots> = reg_loop E cr sts [NEWLINE] (?p\<lparr>rp_password := pb, rp_slider := \<lparr>current_row = 2, last_row = 1, max_row = 3\<rparr>\<rparr>)"
    by (simp add: reg_down slider_down_def)
  finally have run: "ncgui_display_register_page E cr sts junk g c (reg_keys nm pw)
      = reg_loop E cr sts [NEWLINE] (?p\<lparr>rp_password := pb, rp_slider := \<lparr>current_row = 2, last_row = 1, max_row = 3\<rparr>\<rparr>)" .
  show ?thesis unfolding run using name nb(2) pb(2) assms(7) by (intro reg_enter_register) (simp_all add: page_account_def)
qed

definition accepted_message :: message_cs where
  "accepted_message = zero_message\<lparr>m_request := req_register_account_e, m_response := r_success,
     m_stuff := Account_un \<lparr>a_type = account_user_e, a_name = '''', a_password = ''''\<rparr>\<rparr>"

definition sample_start :: "(bytes \<Rightarrow> bytes option) cli_start" where
  "sample_start = \<lparr>st_open = \<lparr>co_fd = 4, co_setopt = True, co_connected = True, co_keyfile = Some ''1'', co_junk = replicate 16 0\<rparr>,
     st_dir_ok = True, st_shelf_file = None, st_book_file = None\<rparr>"

lemma wf_accepted: "wf_message accepted_message"
  by (simp add: accepted_message_def zero_message_def wf_message_def wf_account_def c_int_def int_request_def
      int_response_def int_account_type_def limits c_str_def list_all_length)

lemma accepted_answer:
  assumes "wf_message m" and "client_sockfd (c_sock c) \<noteq> -1" and "aes_has_init (cli_aes (c_sock c))"
  shows "find_from_server (echo_cenv accepted_message) m c = Some (1, accepted_message, c)"
proof -
  have len: "length (put_message accepted_message) = 704" "length (put_message m) = 704"
    using length_put_message [OF wf_accepted] length_put_message [OF assms(1)] by (simp_all add: sizeof_message_def)
  have snd: "send_request (echo_cenv accepted_message) m c = Some (True, c)"
    using len assms by (simp add: send_request_def socket_client_send_request_def client_send_def encrypt_def echo_cenv_def
        echo_net_def plain_lib_def AES_BLOCK_SIZE_def)
  have "get_response (echo_cenv accepted_message) m' c = Some (True, accepted_message, c)" for m'
    using len get_put_message [OF wf_accepted] assms
    by (simp add: get_response_def socket_client_get_response_def decrypt_def echo_cenv_def echo_net_def
        plain_lib_def AES_BLOCK_SIZE_def encrypted_size_def sizeof_message_def Let_def)
  then show ?thesis using snd by (simp add: find_from_server_def find_loop.simps accepted_message_def)
qed

lemma wf_account_request:
  assumes "c_str 64 (a_name a)" and "c_str 64 (a_password a)" and "a_type a = account_user_e \<or> a_type a = account_admin_e"
    and "r = req_register_account_e \<or> r = req_verify_account_e"
  shows "wf_message ((new_request r (Account_un a) c)\<lparr>m_user := a_name a\<rparr>)"
  using assms by (auto simp: new_request_def zero_message_def wf_message_def wf_account_def c_int_def int_request_def
        int_response_def int_account_type_def limits c_str_def list_all_length)

lemma sample_connect:
  obtains c1 where "client_connect sample_start echo_cli = (True, c1)" and "client_sockfd (c_sock c1) \<noteq> -1"
    and "aes_has_init (cli_aes (c_sock c1))"
  by (simp add: client_connect_def socket_client_init_def sample_start_def echo_cli_def AES_init_def Let_def)

lemma accepted_register:
  assumes "c_str 64 (a_name a)" and "c_str 64 (a_password a)" and "a_type a = account_user_e"
  shows "\<exists>c'. client_start_register (echo_cenv accepted_message) sample_start a '''' echo_cli = Some (True, '''', c')"
proof -
  obtain c1 where c1: "client_connect sample_start echo_cli = (True, c1)" "client_sockfd (c_sock c1) \<noteq> -1" "aes_has_init (cli_aes (c_sock c1))"
    by (rule sample_connect)
  show ?thesis
    using accepted_answer [OF wf_account_request [OF assms(1,2), of req_register_account_e c1] c1(2,3)] c1(1) assms(3)
    by (simp add: client_start_register_def client_register_account_def account_error_def)
qed

lemma accepted_admin:
  assumes "c_str 64 (a_name a)" and "c_str 64 (a_password a)" and "a_type a = account_admin_e"
  shows "\<exists>c'. client_start_login (echo_cenv accepted_message) sample_start a '''' echo_cli = Some (True, '''', c')"
proof -
  obtain c1 where c1: "client_connect sample_start echo_cli = (True, c1)" "client_sockfd (c_sock c1) \<noteq> -1" "aes_has_init (cli_aes (c_sock c1))"
    by (rule sample_connect)
  show ?thesis
    using accepted_answer [OF wf_account_request [OF assms(1,2), of req_verify_account_e c1] c1(2,3)] c1(1) assms(3)
    by (simp add: client_start_login_def client_verify_account_def account_error_def)
qed

theorem weak_password_registered_witness:
  "\<exists>p. ncgui_display_register_page (echo_cenv accepted_message) \<lparr>dict_open = [], fascist_check = (\<lambda>_. None)\<rparr> (\<lambda>_. sample_start) []
     some_gui echo_cli (reg_keys ''walter'' ''aaaaaa'') = Some (p, [])"
proof -
  let ?cr = "\<lparr>dict_open = [], fascist_check = (\<lambda>_. None)\<rparr>" and ?a = "\<lparr>a_type = account_user_e, a_name = ''walter'', a_password = ''aaaaaa''\<rparr>"
  have nm: "login_text lg_option_name ''walter''" "MIN_PW_LEN \<le> length ''walter''"
    and pw: "login_text lg_option_password ''aaaaaa''" "MIN_PW_LEN \<le> length ''aaaaaa''"
    by (simp_all add: login_text_def typed_char_def DEFAULT_INPUT_LEN_def MIN_PW_LEN_def)
  have weak: "check_password_strength ?cr ''aaaaaa'' = Some EXIT_FAILURE" by code_simp
  obtain c' where c': "client_start_register (echo_cenv accepted_message) sample_start ?a '''' echo_cli = Some (True, '''', c')"
    using accepted_register [of ?a] by (auto simp: c_str_def)
  show ?thesis using weak_password_registered [OF nm pw weak _ c'] by blast
qed

section \<open>The login page\<close>

datatype ui_menu =
    menu_look_through_e | menu_build_shelf_e | menu_search_book_e | menu_quit_e | menu_non_sense_e
  | menu_cycle_e | menu_login_e | menu_register_e

definition LOCAL_KEY_NON_SENSE :: int where "LOCAL_KEY_NON_SENSE = -1"

record ('w, 'd) log_page =
  lp_name :: bytes
  lp_password :: bytes
  lp_slider :: slider
  lp_bReg :: bool
  lp_key :: int
  lp_tries :: nat
  lp_gui :: gui
  lp_cli :: "('w, 'd) cli"

definition slide_to :: "int \<Rightarrow> slider \<Rightarrow> slider" where
  "slide_to r sld = sld\<lparr>last_row := current_row sld, current_row := r\<rparr>"

text \<open>\<^verbatim>\<open>case lg_option_login\<close>.\<close>

definition log_login :: "('w, 'd, 'k) cenv \<Rightarrow> (nat \<Rightarrow> 'd cli_start) \<Rightarrow> ('w, 'd) log_page
    \<Rightarrow> (ui_menu option \<times> ('w, 'd) log_page) option" where
  "log_login E sts p =
     (if cstr (lp_name p) = '''' \<or> cstr (lp_password p) = '''' then Some (None, p)
      else (let ty = (if lp_bReg p then account_admin_e else account_user_e) in
        case client_start_login E (sts (lp_tries p)) (page_account ty (lp_name p) (lp_password p)) '''' (lp_cli p) of None \<Rightarrow> None
        | Some (ok, _, c) \<Rightarrow>
            (let p1 = p\<lparr>lp_cli := c, lp_tries := lp_tries p + 1\<rparr> in
             if \<not> lp_bReg p then
               if \<not> ok then Some (None, p1\<lparr>lp_password := (lp_password p)[0 := NUL], lp_slider := slide_to 1 (lp_slider p), lp_key := KEY_ENTER\<rparr>)
               else Some (Some menu_non_sense_e, p1)
             else if \<not> ok then Some (Some menu_login_e, p1) else Some (Some menu_register_e, p1))))"

text \<open>The switch over the rows: a menu when the page returns.\<close>

definition log_row :: "('w, 'd, 'k) cenv \<Rightarrow> (nat \<Rightarrow> 'd cli_start) \<Rightarrow> int list \<Rightarrow> ('w, 'd) log_page
    \<Rightarrow> (ui_menu option \<times> ('w, 'd) log_page \<times> int list) option" where
  "log_row E sts keys q =
     (let p = q\<lparr>lp_key := LOCAL_KEY_NON_SENSE\<rparr>; r = current_row (lp_slider p) in
      if r = 0 then
        (case get_login_input lg_option_name keys (lp_name p) of None \<Rightarrow> None
         | Some (ok, nm, ks) \<Rightarrow>
             (let p1 = p\<lparr>lp_name := nm\<rparr> in
              if \<not> ok then Some (if lp_bReg p then Some menu_login_e else None, p1, ks)
              else Some (None, p1\<lparr>lp_slider := slide_to 1 (lp_slider p),
                lp_key := (if cstr (lp_password p) = '''' then KEY_ENTER else LOCAL_KEY_NON_SENSE)\<rparr>, ks)))
      else if r = 1 then
        (case get_login_input lg_option_password keys (lp_password p) of None \<Rightarrow> None
         | Some (ok, pw, ks) \<Rightarrow>
             (let p1 = p\<lparr>lp_password := pw\<rparr> in
              if \<not> ok then Some (if lp_bReg p then Some menu_login_e else None, p1, ks)
              else Some (None, p1\<lparr>lp_slider := slide_to 2 (lp_slider p),
                lp_key := (if lp_bReg p then KEY_ENTER else LOCAL_KEY_NON_SENSE)\<rparr>, ks)))
      else if r = 2 then map_option (\<lambda>(menu, p1). (menu, p1, keys)) (log_login E sts p)
      else if r = 3 then
        Some (None, p\<lparr>lp_name := replicate ACCOUNT_SZ NUL, lp_password := replicate ACCOUNT_SZ NUL,
          lp_slider := slide_to 0 (lp_slider p), lp_key := KEY_ENTER, lp_bReg := True\<rparr>, keys)
      else Some (None, p, keys))"

definition log_turn :: "('w, 'd, 'k) cenv \<Rightarrow> (nat \<Rightarrow> 'd cli_start) \<Rightarrow> int list \<Rightarrow> ('w, 'd) log_page
    \<Rightarrow> (ui_menu option \<times> ('w, 'd) log_page \<times> int list) option" where
  "log_turn E sts keys p =
     (if lp_key p = KEY_ENTER then log_row E sts keys p
      else case get_choice page_login_e (Some (lp_slider p)) 3 keys (lp_gui p) of
        None \<Rightarrow> None | Some (_, None, _, _) \<Rightarrow> None
      | Some (key, Some sld, ks, g) \<Rightarrow>
          (let p1 = p\<lparr>lp_slider := sld, lp_gui := g, lp_key := key\<rparr> in
           if key = KEY_BACKSPACE then
             map_option (\<lambda>(yes, ks1). if yes then (Some menu_quit_e, p1, ks1) else (None, p1\<lparr>lp_key := LOCAL_KEY_NON_SENSE\<rparr>, ks1))
               (get_confirm (CHR ''N'') ks)
           else if key = KEY_ENTER \<or> key = NEWLINE then log_row E sts ks p1
           else Some (None, p1, ks)))"

definition log_rank :: "('w, 'd) log_page \<Rightarrow> nat" where
  "log_rank p = (if lp_key p = KEY_ENTER then Suc (nat (current_row (lp_slider p))) else 0)"

lemma log_login_rank:
  assumes "log_login E sts q = Some (menu, p)" and "lp_key q \<noteq> KEY_ENTER" and "current_row (lp_slider q) = 2"
  shows "log_rank p \<le> 2"
  using assms by (auto simp: log_login_def log_rank_def slide_to_def Let_def split: if_splits option.splits)

lemma log_row_rank:
  assumes "log_row E sts keys q = Some (menu, p, ks)"
  shows "length ks < length keys \<or> ks = keys \<and> log_rank p < Suc (nat (current_row (lp_slider q)))"
proof -
  have ne: "LOCAL_KEY_NON_SENSE \<noteq> KEY_ENTER" by (simp add: LOCAL_KEY_NON_SENSE_def KEY_ENTER_def)
  let ?q = "q\<lparr>lp_key := LOCAL_KEY_NON_SENSE\<rparr>"
  consider "current_row (lp_slider q) = 0" | "current_row (lp_slider q) = 1" | "current_row (lp_slider q) = 2"
    | "current_row (lp_slider q) \<notin> {0, 1, 2}" by blast
  then show ?thesis
  proof cases
    case 3
    then obtain m p1 where "log_login E sts ?q = Some (m, p1)" "p = p1" "ks = keys" using assms by (auto simp: log_row_def Let_def)
    then show ?thesis using log_login_rank [of E sts ?q] 3 ne by fastforce
  next
    case 4
    then show ?thesis using assms ne by (auto simp: log_row_def log_rank_def slide_to_def Let_def split: if_splits)
  qed (use assms in \<open>auto simp: log_row_def Let_def dest: login_input_shorter split: option.splits if_splits\<close>)
qed

lemma log_turn_rank:
  assumes "log_turn E sts keys p = Some (menu, p', ks)"
  shows "length ks < length keys \<or> ks = keys \<and> log_rank p' < log_rank p"
proof (cases "lp_key p = KEY_ENTER")
  case True
  then show ?thesis using assms log_row_rank [of E sts keys p menu p' ks] by (simp add: log_turn_def log_rank_def)
next
  case False
  then obtain key sld ks1 g where g: "get_choice page_login_e (Some (lp_slider p)) 3 keys (lp_gui p) = Some (key, Some sld, ks1, g)"
    using assms by (auto simp: log_turn_def split: option.splits)
  then have less: "length ks1 < length keys" by (rule get_choice_shorter)
  have "length ks \<le> length ks1"
  proof (cases "key = KEY_BACKSPACE")
    case True
    then show ?thesis using assms False g by (auto simp: log_turn_def get_confirm_def Let_def split: list.splits if_splits)
  next
    case nb: False
    show ?thesis
    proof (cases "key = KEY_ENTER \<or> key = NEWLINE")
      case True
      then have "log_row E sts ks1 (p\<lparr>lp_slider := sld, lp_gui := g, lp_key := key\<rparr>) = Some (menu, p', ks)"
        using assms False g nb by (simp add: log_turn_def Let_def)
      from log_row_rank [OF this] show ?thesis by auto
    qed (use assms False g nb in \<open>simp add: log_turn_def Let_def\<close>)
  qed
  with less show ?thesis by simp
qed

function log_loop :: "('w, 'd, 'k) cenv \<Rightarrow> (nat \<Rightarrow> 'd cli_start) \<Rightarrow> int list \<Rightarrow> ('w, 'd) log_page
    \<Rightarrow> (ui_menu \<times> ('w, 'd) log_page \<times> int list) option" where
  "log_loop E sts keys p =
     (case log_turn E sts keys p of None \<Rightarrow> None
      | Some (Some menu, p', ks) \<Rightarrow> Some (menu, p', ks)
      | Some (None, p', ks) \<Rightarrow> log_loop E sts ks p')"
  by pat_completeness auto
termination
  by (relation "measures [\<lambda>(E, sts, keys, p). length keys, \<lambda>(E, sts, keys, p). log_rank p]") (auto dest: log_turn_rank)

declare log_loop.simps [simp del]

definition ncgui_display_login_page :: "('w, 'd, 'k) cenv \<Rightarrow> (nat \<Rightarrow> 'd cli_start) \<Rightarrow> gui \<Rightarrow> ('w, 'd) cli \<Rightarrow> int list
    \<Rightarrow> (ui_menu \<times> ('w, 'd) log_page \<times> int list) option" where
  "ncgui_display_login_page E sts g c keys =
     log_loop E sts keys \<lparr>lp_name = replicate ACCOUNT_SZ NUL, lp_password = replicate ACCOUNT_SZ NUL,
       lp_slider = \<lparr>current_row = 0, last_row = 0, max_row = 3\<rparr>, lp_bReg = False, lp_key = LOCAL_KEY_NON_SENSE,
       lp_tries = 0, lp_gui = g, lp_cli = c\<rparr>"

section \<open>Who gets past the login page\<close>

definition buf_ok :: "ui_login_option \<Rightarrow> bytes \<Rightarrow> bool" where
  "buf_ok opt b \<longleftrightarrow> length b = ACCOUNT_SZ \<and> NUL \<in> set b \<and> login_text opt (cstr b)"

definition log_ok :: "('w, 'd) log_page \<Rightarrow> bool" where
  "log_ok p \<longleftrightarrow> buf_ok lg_option_name (lp_name p) \<and> buf_ok lg_option_password (lp_password p)"

text \<open>The account of the page was verified by the server as an administrator, or as a user.\<close>

definition granted :: "('w, 'd, 'k) cenv \<Rightarrow> (nat \<Rightarrow> 'd cli_start) \<Rightarrow> account_type \<Rightarrow> ('w, 'd) log_page \<Rightarrow> bool" where
  "granted E sts ty p \<longleftrightarrow> cstr (lp_name p) \<noteq> '''' \<and> (\<exists>n c0 err.
     client_start_login E (sts n) (page_account ty (lp_name p) (lp_password p)) '''' c0 = Some (True, err, lp_cli p))"

definition leaves_by :: "('w, 'd, 'k) cenv \<Rightarrow> (nat \<Rightarrow> 'd cli_start) \<Rightarrow> ui_menu \<Rightarrow> ('w, 'd) log_page \<Rightarrow> bool" where
  "leaves_by E sts menu p \<longleftrightarrow> log_ok p \<and> (menu = menu_quit_e \<or> menu = menu_login_e
     \<or> menu = menu_non_sense_e \<and> granted E sts account_user_e p \<or> menu = menu_register_e \<and> granted E sts account_admin_e p)"

lemma login_loop_newline: "login_loop opt keys b i = Some r \<Longrightarrow> NEWLINE \<in> set keys"
  by (induction keys arbitrary: b i) (auto split: if_splits)

lemma input_buf_ok:
  assumes "buf_ok opt b" and "get_login_input opt keys b = Some (ok, b', ks)"
  shows "buf_ok opt b'"
proof -
  have r: "login_loop opt keys b (strlen b) = Some (ok, b', ks)" using assms by (auto simp: get_login_input_def buf_ok_def)
  have "typing opt b (strlen b)"
    using assms(1) takeWhile_eq_take [of "\<lambda>c. c \<noteq> NUL" b] by (simp add: buf_ok_def typing_def login_text_def strlen_def cstr_def)
  from login_loop_typed [OF this login_loop_newline [OF r]] r show ?thesis by (auto simp: typed_def buf_ok_def)
qed

lemma buf_ok_clear: "length b = ACCOUNT_SZ \<Longrightarrow> buf_ok opt (b[0 := NUL])"
  using set_update_memI [of 0 b NUL] cstr_update [of 0 b] by (auto simp: buf_ok_def ACCOUNT_SZ_def login_text_def)

lemma buf_ok_zero: "buf_ok opt (replicate ACCOUNT_SZ NUL)"
  by (simp add: buf_ok_def login_text_def cstr_def ACCOUNT_SZ_def)

lemma log_login_ok:
  assumes "log_login E sts p = Some (menu, p')" and "log_ok p"
  shows "log_ok p' \<and> (\<forall>m. menu = Some m \<longrightarrow> leaves_by E sts m p')"
  using assms buf_ok_clear [of "lp_password p" lg_option_password]
  by (auto simp: log_login_def Let_def log_ok_def leaves_by_def granted_def buf_ok_def split: if_splits option.splits) blast+

lemma log_row_ok:
  assumes "log_row E sts keys q = Some (menu, p, ks)" and "log_ok q"
  shows "log_ok p \<and> (\<forall>m. menu = Some m \<longrightarrow> leaves_by E sts m p)"
proof -
  let ?q = "q\<lparr>lp_key := LOCAL_KEY_NON_SENSE\<rparr>"
  have q: "log_ok ?q" using assms(2) by (simp add: log_ok_def)
  show ?thesis
  proof (cases "current_row (lp_slider q) = 2")
    case True
    then have "log_login E sts ?q = Some (menu, p)" using assms(1) by (auto simp: log_row_def Let_def)
    then show ?thesis using log_login_ok q by blast
  next
    case no_login: False
    consider (name) "current_row (lp_slider q) = 0" | (password) "current_row (lp_slider q) = 1"
      | (other) "current_row (lp_slider q) \<noteq> 0" "current_row (lp_slider q) \<noteq> 1" by blast
    then show ?thesis
    proof cases
      case name
      then obtain ok nm ks' where i: "get_login_input lg_option_name keys (lp_name q) = Some (ok, nm, ks')"
        using assms(1) by (auto simp: log_row_def Let_def split: option.splits)
      then have "buf_ok lg_option_name nm" using assms(2) input_buf_ok by (auto simp: log_ok_def)
      then show ?thesis using assms name i by (auto simp: log_row_def Let_def log_ok_def leaves_by_def split: if_splits)
    next
      case password
      then obtain ok pw ks' where i: "get_login_input lg_option_password keys (lp_password q) = Some (ok, pw, ks')"
        using assms(1) by (auto simp: log_row_def Let_def split: option.splits)
      then have "buf_ok lg_option_password pw" using assms(2) input_buf_ok by (auto simp: log_ok_def)
      then show ?thesis using assms password i by (auto simp: log_row_def Let_def log_ok_def leaves_by_def split: if_splits)
    next
      case other
      then show ?thesis using assms no_login by (auto simp: log_row_def Let_def log_ok_def buf_ok_zero split: if_splits)
    qed
  qed
qed

lemma log_turn_ok:
  assumes "log_turn E sts keys p = Some (menu, p', ks)" and "log_ok p"
  shows "log_ok p' \<and> (\<forall>m. menu = Some m \<longrightarrow> leaves_by E sts m p')"
proof (cases "lp_key p = KEY_ENTER")
  case True
  then show ?thesis using assms log_row_ok by (simp add: log_turn_def)
next
  case False
  then obtain key sld ks1 g where g: "get_choice page_login_e (Some (lp_slider p)) 3 keys (lp_gui p) = Some (key, Some sld, ks1, g)"
    using assms by (auto simp: log_turn_def split: option.splits)
  have ok: "log_ok (p\<lparr>lp_slider := sld, lp_gui := g, lp_key := key\<rparr>)" using assms(2) by (simp add: log_ok_def)
  show ?thesis
  proof (cases "key \<noteq> KEY_BACKSPACE \<and> (key = KEY_ENTER \<or> key = NEWLINE)")
    case True
    then have "log_row E sts ks1 (p\<lparr>lp_slider := sld, lp_gui := g, lp_key := key\<rparr>) = Some (menu, p', ks)"
      using assms(1) False g by (auto simp: log_turn_def Let_def)
    then show ?thesis using ok by (rule log_row_ok)
  next
    case other: False
    then show ?thesis using assms False g
      by (auto simp: log_turn_def Let_def get_confirm_def log_ok_def leaves_by_def split: if_splits list.splits)
  qed
qed

lemma log_loop_ok: "log_loop E sts keys p = Some (menu, p', ks) \<Longrightarrow> log_ok p \<Longrightarrow> leaves_by E sts menu p'"
proof (induction E sts keys p arbitrary: menu rule: log_loop.induct)
  case (1 E sts keys p)
  then show ?case using log_turn_ok [of E sts keys p]
    by (auto simp: log_loop.simps [of E sts keys p] split: option.splits)
qed

lemma login_user_set:
  assumes "client_start_login E st a err c = Some (True, err', c')" and "a_type a = account_user_e"
  shows "login_user c' = a_name a"
  using assms by (auto simp: client_start_login_def bind_eq_Some_conv split: if_splits prod.splits)


lemma admin_login_run:
  "\<exists>p. ncgui_display_login_page (echo_cenv accepted_message) (\<lambda>_. sample_start) some_gui echo_cli
     (KEY_UP # NEWLINE # type_keys ''shelfadmin'' @ type_keys ''000000'') = Some (menu_register_e, p, [])"
proof -
  let ?E = "echo_cenv accepted_message" and ?s = "\<lambda>_ :: nat. sample_start"
  let ?a = "\<lparr>a_type = account_admin_e, a_name = ''shelfadmin'', a_password = ''000000''\<rparr>"
  have nm: "login_text lg_option_name ''shelfadmin''" "MIN_PW_LEN \<le> length ''shelfadmin''"
    and pw: "login_text lg_option_password ''000000''" "MIN_PW_LEN \<le> length ''000000''"
    by (simp_all add: login_text_def typed_char_def DEFAULT_INPUT_LEN_def MIN_PW_LEN_def is_digit_def)
  obtain nb where nb: "get_login_input lg_option_name (type_keys ''shelfadmin'' @ type_keys ''000000'') (replicate ACCOUNT_SZ NUL)
      = Some (True, nb, type_keys ''000000'')" "cstr nb = ''shelfadmin''" by (rule input_types [OF nm])
  obtain pb where pb: "get_login_input lg_option_password (type_keys ''000000'' @ []) (replicate ACCOUNT_SZ NUL) = Some (True, pb, [])"
    "cstr pb = ''000000''" by (rule input_types [OF pw])
  obtain c' where c': "client_start_login ?E sample_start ?a '''' echo_cli = Some (True, '''', c')"
    using accepted_admin [of ?a] by (auto simp: c_str_def)
  have z: "cstr (replicate ACCOUNT_SZ NUL) = ''''" by (simp add: cstr_def ACCOUNT_SZ_def)
  have k: "LOCAL_KEY_NON_SENSE \<noteq> KEY_ENTER" "KEY_UP \<noteq> KEY_BACKSPACE" "KEY_UP \<noteq> KEY_ENTER" "KEY_UP \<noteq> NEWLINE" "NEWLINE \<noteq> KEY_BACKSPACE" "NEWLINE \<noteq> KEY_ENTER"
    by (simp_all add: key_codes LOCAL_KEY_NON_SENSE_def)
  have up: "get_choice page_login_e (Some sld) l (KEY_UP # ks) g = Some (KEY_UP, Some (slider_up l sld), ks, on_page page_login_e g)" for sld l ks g
    by (simp add: get_choice_def key_codes on_page_def)
  show ?thesis
    using nb pb c' k z
    by (simp add: ncgui_display_login_page_def log_loop.simps [of ?E ?s] log_turn_def log_row_def log_login_def up get_choice_enter
        slider_up_def slide_to_def page_account_def Let_def)
qed


end
