(* ===== verification/Ncgui_Books.thy ===== *)
theory Ncgui_Books
  imports Ncgui_Login
begin

text \<open>
  One page of books, \<^verbatim>\<open>next_page_bookinfo\<close> of \<^verbatim>\<open>bsdqclient/ncgui.c\<close>: the next thirty books of the cache, or, when
  the cache has no more, the next answer of the server.  The function returns the C result, the lines it
  prints and what it leaves in \<^verbatim>\<open>*bookno\<close> and \<^verbatim>\<open>*search_entry\<close>; the uninitialised \<^verbatim>\<open>local_book\<close> is the argument \<open>junk\<close>.
\<close>

definition PAD_HIGHT :: int where "PAD_HIGHT = DEFAULT_FINDS"

definition book_line :: "book_entry \<Rightarrow> string option" where
  "book_line b = limit_str_width (b_name b) 16"

lemma book_get_progress:
  assumes "clidb_book_get lib b d = Some (1, b', d')"
  shows "nat (book_search_step d' - book_search_cnt d') < nat (book_search_step d - book_search_cnt d)"
  using assms by (auto simp: clidb_book_get_def Let_def split: if_splits)

text \<open>The loop that prints the cached books: \<open>lines\<close> are those printed so far.\<close>

function page_loop :: "'d dbm_lib \<Rightarrow> string list \<Rightarrow> book_entry \<Rightarrow> 'd clidb \<Rightarrow> (bool \<times> string list \<times> book_entry \<times> 'd clidb) option" where
  "page_loop lib lines b d =
     (case clidb_book_get lib b d of None \<Rightarrow> None
      | Some (res, b', d') \<Rightarrow>
          if res = -1 then Some (True, lines, b', d')
          else if res = 1 then
            (case book_line b' of None \<Rightarrow> None | Some l \<Rightarrow> page_loop lib (lines @ [l]) b' d')
          else Some (False, lines, b', d'))"
  by pat_completeness auto
termination
  by (relation "measure (\<lambda>(lib, lines, b, d). nat (book_search_step d - book_search_cnt d))") (auto dest: book_get_progress)

declare page_loop.simps [simp del]

definition show_page :: "'d dbm_lib \<Rightarrow> book_entry \<Rightarrow> 'd clidb \<Rightarrow> (bool \<times> string list \<times> book_entry \<times> 'd clidb) option" where
  "show_page lib b d = page_loop lib [] b (clidb_book_search_step PAD_HIGHT d)"

record ('w, 'd) page_result =
  pr_res :: int
  pr_lines :: "string list"
  pr_bookno :: int
  pr_search :: "book_entry option"
  pr_cli :: "('w, 'd) cli"

definition fetch_books :: "('w, 'd, 'k) cenv \<Rightarrow> int \<Rightarrow> int \<Rightarrow> book_entry option \<Rightarrow> ('w, 'd) cli
    \<Rightarrow> (int \<times> book_entry option \<times> ('w, 'd) cli) option" where
  "fetch_books E shelfno bookno search_entry c =
     (case search_entry of
        Some e \<Rightarrow> map_option (\<lambda>(res, e', c1). (res, Some e', c1)) (client_searching_book E bookno e c)
      | None \<Rightarrow> map_option (\<lambda>(res, c1). (res, None, c1)) (client_shelf_loading_book E shelfno bookno c))"

definition next_page_bookinfo :: "('w, 'd, 'k) cenv \<Rightarrow> book_entry \<Rightarrow> int \<Rightarrow> int \<Rightarrow> book_entry option \<Rightarrow> ('w, 'd) cli
    \<Rightarrow> ('w, 'd) page_result option" where
  "next_page_bookinfo E junk shelfno bookno search_entry c =
     (case show_page (ce_dbm E) junk (c_db c) of None \<Rightarrow> None
      | Some (ok, lines, b, d) \<Rightarrow>
          (let c1 = c\<lparr>c_db := d\<rparr> in
           if \<not> ok then Some \<lparr>pr_res = -1, pr_lines = lines, pr_bookno = bookno, pr_search = search_entry, pr_cli = c1\<rparr>
           else if lines \<noteq> [] then
             Some \<lparr>pr_res = int (length lines), pr_lines = lines, pr_bookno = bookno, pr_search = search_entry, pr_cli = c1\<rparr>
           else case fetch_books E shelfno bookno search_entry c1 of None \<Rightarrow> None
             | Some (res, se, c2) \<Rightarrow>
                 if res = 0 then Some \<lparr>pr_res = -1, pr_lines = [], pr_bookno = bookno, pr_search = se, pr_cli = c2\<rparr>
                 else if res = -1 then Some \<lparr>pr_res = 0, pr_lines = [], pr_bookno = bookno, pr_search = se, pr_cli = c2\<rparr>
                 else (case show_page (ce_dbm E) b (c_db c2) of None \<Rightarrow> None
                    | Some (ok2, lines2, b2, d2) \<Rightarrow>
                        Some (if \<not> ok2 then \<lparr>pr_res = -1, pr_lines = lines2, pr_bookno = bookno, pr_search = se, pr_cli = c2\<lparr>c_db := d2\<rparr>\<rparr>
                          else \<lparr>pr_res = int (length lines2), pr_lines = lines2, pr_bookno = code2 b2, pr_search = se, pr_cli = c2\<lparr>c_db := d2\<rparr>\<rparr>))))"

text \<open>Turning a page (the right arrow): the next page is fetched, and the cursor of the cache is put back to its
  start, so that the page that is opened next shows it.\<close>

definition turn_right :: "('w, 'd, 'k) cenv \<Rightarrow> book_entry \<Rightarrow> int \<Rightarrow> int \<Rightarrow> book_entry option \<Rightarrow> ('w, 'd) cli
    \<Rightarrow> (int \<times> ('w, 'd) page_result) option" where
  "turn_right E junk shelfno bookno search_entry c =
     (case next_page_bookinfo E junk shelfno bookno search_entry c of None \<Rightarrow> None
      | Some pr \<Rightarrow>
          if pr_res pr \<le> 0 then Some (pr_res pr, pr)
          else map_option (\<lambda>d. (pr_res pr, pr\<lparr>pr_cli := (pr_cli pr)\<lparr>c_db := d\<rparr>\<rparr>)) (clidb_book_backward_mode (c_db (pr_cli pr))))"

text \<open>Opening a shelf and turning at most \<open>k\<close> pages: the lines of each page shown.\<close>

fun show_pages :: "('w, 'd, 'k) cenv \<Rightarrow> book_entry \<Rightarrow> int \<Rightarrow> nat \<Rightarrow> int \<Rightarrow> ('w, 'd) cli \<Rightarrow> string list list option" where
  "show_pages E junk sh 0 bookno c = Some []"
| "show_pages E junk sh (Suc k) bookno c =
     (case next_page_bookinfo E junk sh bookno None c of None \<Rightarrow> None
      | Some pr \<Rightarrow>
          if pr_res pr \<le> 0 then Some []
          else (case turn_right E junk sh (pr_bookno pr) None (pr_cli pr) of None \<Rightarrow> None
             | Some (res, pr') \<Rightarrow>
                 if res \<le> 0 then Some [pr_lines pr]
                 else map_option (Cons (pr_lines pr)) (show_pages E junk sh k (pr_bookno pr') (pr_cli pr'))))"

end
