(* ===== verification/Bcrypt.thy ===== *)
theory Bcrypt
  imports Clisrv
begin

text \<open>
  \<^verbatim>\<open>libbcrypt/bcrypt.c\<close> (the same file in the server and in the client): reading the random
  bytes of a salt, hashing and the comparison of two hashes in constant time.  The hash functions
  \<^verbatim>\<open>crypt_rn\<close> and \<^verbatim>\<open>crypt_gensalt_rn\<close> come from \<^verbatim>\<open>crypt_blowfish\<close>; here they are a record of functions, \<open>crypt_api\<close>, which
  \<open>Crypt_Wrapper\<close> fills with the model of those sources.  The operating system's answers to \<^verbatim>\<open>open\<close>, \<^verbatim>\<open>read\<close> and \<^verbatim>\<open>close\<close> on
  \<^verbatim>\<open>/dev/urandom\<close> are the argument \<open>entropy\<close>, scripts of outcomes; a function is \<^const>\<open>None\<close> when the
  script ends while the loop still waits, so a call that keeps being interrupted does not return.
\<close>

unbundle bit_operations_syntax

definition RANDBYTES :: nat where "RANDBYTES = 16"

datatype sys_close = Close_eintr | Close_err | Close_ok

datatype sys_read = Read_eintr | Read_err | Read_bytes bytes

record entropy =
  ent_open :: bool
  ent_reads :: "sys_read list"
  ent_closes :: "sys_close list"

record crypt_api =
  crypt_rn :: "string \<Rightarrow> string \<Rightarrow> nat \<Rightarrow> string option"
  crypt_gensalt_rn :: "string \<Rightarrow> int \<Rightarrow> bytes \<Rightarrow> nat \<Rightarrow> string option"

fun try_close :: "sys_close list \<Rightarrow> (int \<times> sys_close list) option" where
  "try_close [] = None"
| "try_close (Close_eintr # cs) = try_close cs"
| "try_close (Close_err # cs) = Some (-1, cs)"
| "try_close (Close_ok # cs) = Some (0, cs)"

text \<open>\<open>out\<close> holds the bytes read so far.\<close>

fun try_read :: "nat \<Rightarrow> bytes \<Rightarrow> sys_read list \<Rightarrow> (int \<times> bytes) option" where
  "try_read count out [] = (if length out < count then None else Some (0, out))"
| "try_read count out (r # rs) =
     (if \<not> length out < count then Some (0, out)
      else case r of
        Read_eintr \<Rightarrow> try_read count out rs
      | Read_err \<Rightarrow> Some (-1, out)
      | Read_bytes bs \<Rightarrow>
          (if bs = [] then Some (-1, out)
           else try_read count (out @ take (count - length out) bs) rs))"

text \<open>A character as \<^verbatim>\<open>unsigned char\<close>, and \<^verbatim>\<open>ret |= (u1[i] ^ u2[i])\<close> for every byte.\<close>

definition uchar :: "char \<Rightarrow> u8" where
  "uchar c = of_nat (of_char c)"

fun or_xor :: "u8 \<Rightarrow> string \<Rightarrow> string \<Rightarrow> u8" where
  "or_xor ret (c # cs) (d # ds) = or_xor (ret OR (uchar c XOR uchar d)) cs ds"
| "or_xor ret _ _ = ret"

definition timing_safe_strcmp :: "string \<Rightarrow> string \<Rightarrow> int" where
  "timing_safe_strcmp str1 str2 =
     (if length str1 \<noteq> length str2 then 1 else int (unat (or_xor 0 str1 str2)))"

definition bcrypt_gensalt :: "crypt_api \<Rightarrow> entropy \<Rightarrow> int \<Rightarrow> (int \<times> string) option" where
  "bcrypt_gensalt cr ent factor =
     (if \<not> ent_open ent then Some (1, '''')
      else case try_read RANDBYTES [] (ent_reads ent) of
        None \<Rightarrow> None
      | Some (rc, input) \<Rightarrow>
          (case try_close (ent_closes ent) of
             None \<Rightarrow> None
           | Some (cc, _) \<Rightarrow>
               if rc \<noteq> 0 then Some (if cc \<noteq> 0 then 4 else 2, '''')
               else if cc \<noteq> 0 then Some (3, '''')
               else (let workf = (if factor < 4 \<or> 31 < factor then 12 else factor)
                     in case crypt_gensalt_rn cr ''$2a$'' workf input BCRYPT_HASHSIZE of
                          None \<Rightarrow> Some (5, '''')
                        | Some salt \<Rightarrow> Some (0, salt))))"

definition bcrypt_hashpw :: "crypt_api \<Rightarrow> string \<Rightarrow> string \<Rightarrow> int \<times> string" where
  "bcrypt_hashpw cr passwd salt =
     (case crypt_rn cr passwd salt BCRYPT_HASHSIZE of None \<Rightarrow> (1, '''') | Some h \<Rightarrow> (0, h))"

definition bcrypt_checkpw :: "crypt_api \<Rightarrow> string \<Rightarrow> string \<Rightarrow> int" where
  "bcrypt_checkpw cr passwd hash =
     (case bcrypt_hashpw cr passwd hash of (ret, outhash) \<Rightarrow>
        if ret \<noteq> 0 then -1 else timing_safe_strcmp hash outhash)"

section \<open>Lemmas\<close>

lemma uchar_eq_iff: "uchar c = uchar d \<longleftrightarrow> c = d"
proof
  assume "uchar c = uchar d"
  then have "unat (uchar c) = unat (uchar d)" by simp
  then have "(of_char c :: nat) = of_char d" by (simp add: uchar_def unat_of_nat)
  then show "c = d" by (simp only: of_char_eq_iff)
qed simp

lemma xor_zero_iff: "(a :: u8) XOR b = 0 \<longleftrightarrow> a = b"
  by (auto simp: bit_eq_iff bit_xor_iff)

lemma or_zero_iff: "(a :: u8) OR b = 0 \<longleftrightarrow> a = 0 \<and> b = 0"
  by (auto simp: bit_eq_iff bit_or_iff)

lemma or_xor_0: "length a = length b \<Longrightarrow> or_xor ret a b = 0 \<longleftrightarrow> ret = 0 \<and> a = b"
  by (induction ret a b rule: or_xor.induct) (auto simp: or_zero_iff xor_zero_iff uchar_eq_iff)

lemma timing_safe_strcmp_0: "timing_safe_strcmp a b = 0 \<longleftrightarrow> a = b"
proof (cases "length a = length b")
  case True
  then show ?thesis using or_xor_0 [OF True, of 0] by (simp add: timing_safe_strcmp_def uint_0_iff)
qed (auto simp: timing_safe_strcmp_def)

lemma try_read_bytes:
  "try_read count out rs = Some (0, res) \<Longrightarrow> length out \<le> count \<Longrightarrow> length res = count"
  by (induction count out rs rule: try_read.induct) (auto split: if_splits sys_read.splits)

end
