(* ===== verification/Srvdb_Account.thy ===== *)
theory Srvdb_Account
  imports Srvdb_Shelf Bcrypt
begin

text \<open>
  The account operations of \<^verbatim>\<open>bsdqserver/srvdb.c\<close> and the creation of the tables: verify, register,
  update, \<^verbatim>\<open>accounts_table_init\<close> and \<^verbatim>\<open>user_archive_init\<close>.  \<^const>\<open>None\<close> stands for a call without a defined
  result: a name or a stored hash that overflows its buffer in \<^verbatim>\<open>srvdb_account_verify\<close>
  (\<^verbatim>\<open>es_name\<close> has \<^verbatim>\<open>BCRYPT_HASHSIZE*+1\<close>, that is 64, bytes), a count that does not parse, or a salt
  the operating system never delivers.  Names are compared with the binary collation of the account
  table, an equivalence \<open>bin_eq\<close>; \<open>accounts_ok\<close> says that no two accounts share a name and that there
  are at most 16.
\<close>

definition err_account :: string where
  "err_account = utf8 [229, 184, 144, 229, 143, 183, 230, 136, 150, 229, 175, 134, 231, 160, 129, 233,
     148, 153, 232, 175, 175]"

definition err_user_limit :: string where
  "err_user_limit = utf8 [229, 136, 155, 229, 187, 186, 232, 180, 166, 230, 136, 183, 229, 164, 177,
     232, 180, 165, 58, 231, 148, 168, 230, 136, 183, 230, 149, 176, 232, 190, 190, 229, 136, 176, 228,
     184, 138, 233, 153, 144]"

definition err_user_exists :: string where
  "err_user_exists = utf8 [229, 136, 155, 229, 187, 186, 232, 180, 166, 230, 136, 183, 229, 164, 177,
     232, 180, 165, 58, 231, 148, 168, 230, 136, 183, 229, 183, 178, 229, 173, 152, 229, 156, 168]"

section \<open>Verification\<close>

definition verify_type :: "'db mysql_api \<Rightarrow> string \<Rightarrow> 'db srv \<Rightarrow> message_cs
    \<Rightarrow> ((bool \<times> message_cs) \<times> 'db srv) option" where
  "verify_type api es_name s m =
     (case mysql_query api s (Select_account_type es_name) of (r, s1) \<Rightarrow>
        if is_err r then Some ((False, m), mysql_check_connection api s1)
        else (case get_simple_result r of
            None \<Rightarrow> Some ((False, m), s1)
          | Some t \<Rightarrow>
              (case scan_d t of None \<Rightarrow> None
               | Some (db_type, _) \<Rightarrow>
                   if db_type \<noteq> account_type_int (a_type (account_of m))
                   then Some ((False, m\<lparr>m_error_text := err_account\<rparr>), s1)
                   else Some ((True, m), s1))))"

definition srvdb_account_verify :: "'db mysql_api \<Rightarrow> crypt_api \<Rightarrow> 'db srv \<Rightarrow> message_cs
    \<Rightarrow> (bool \<times> message_cs \<times> 'db srv) option" where
  "srvdb_account_verify api cr s m =
     (if m_user m = '''' then Some (False, m, s)
      else (let es_name = api_escape api (a_name (account_of m)) in
        if BCRYPT_HASHSIZE \<le> length es_name then None
        else case verify_type api es_name s m of
          None \<Rightarrow> None
        | Some ((ok, m1), s1) \<Rightarrow>
            if \<not> ok then Some (False, m1, s1)
            else (case mysql_query api s1 (Select_account_password es_name) of (r, s2) \<Rightarrow>
              if is_err r then Some (False, m1, mysql_check_connection api s2)
              else (case get_simple_result r of
                  None \<Rightarrow> Some (False, m1, s2)
                | Some db_hash_pw \<Rightarrow>
                    if BCRYPT_HASHSIZE + 1 \<le> length db_hash_pw then None
                    else (let res = bcrypt_checkpw cr (a_password (account_of m)) db_hash_pw in
                      if res = -1 then Some (False, m1, s2)
                      else if res = 0 then Some (True, m1, s2)
                      else Some (False, m1\<lparr>m_error_text := err_account\<rparr>, s2))))))"

section \<open>Registration and update\<close>

text \<open>A \<^verbatim>\<open>SELECT COUNT(1)\<close> whose number decides whether the function goes on: \<open>Inl\<close> returns 0 with the
  given message, \<open>Inr\<close> continues.\<close>

definition count_check :: "'db mysql_api \<Rightarrow> stmt \<Rightarrow> (int \<Rightarrow> bool) \<Rightarrow> (message_cs \<Rightarrow> message_cs)
    \<Rightarrow> message_cs \<Rightarrow> 'db srv \<Rightarrow> (message_cs + unit) option \<times> 'db srv" where
  "count_check api st refuse report m s =
     (case mysql_query api s st of (r, s1) \<Rightarrow>
        if is_err r then (Some (Inl m), mysql_check_connection api s1)
        else (case get_simple_result r of
            None \<Rightarrow> (Some (Inl m), s1)
          | Some t \<Rightarrow>
              if t = '''' then (Some (Inr ()), s1)
              else (case scan_d t of
                  None \<Rightarrow> (None, s1)
                | Some (n, _) \<Rightarrow> if refuse n then (Some (Inl (report m)), s1) else (Some (Inr ()), s1))))"

text \<open>The hash of the new password: a salt and \<^verbatim>\<open>bcrypt_hashpw\<close>; \<^const>\<open>None\<close> inside is a failure that
  returns 0.\<close>

definition new_hash :: "crypt_api \<Rightarrow> entropy \<Rightarrow> string \<Rightarrow> string option option" where
  "new_hash cr ent passwd =
     (case bcrypt_gensalt cr ent BCRYPT_WORK_FACTOR of
        None \<Rightarrow> None
      | Some (rc, salt) \<Rightarrow>
          if rc \<noteq> 0 then Some None
          else (case bcrypt_hashpw cr passwd salt of (rc2, h) \<Rightarrow>
            if rc2 \<noteq> 0 then Some None else Some (Some h)))"

definition store_account :: "'db mysql_api \<Rightarrow> stmt \<Rightarrow> message_cs \<Rightarrow> 'db srv \<Rightarrow> bool \<times> message_cs \<times> 'db srv" where
  "store_account api st m s =
     (case mysql_query api s st of (r, s1) \<Rightarrow>
        if \<not> is_err r then (True, m, s1) else (False, m, mysql_check_connection api s1))"

definition srvdb_account_register :: "'db mysql_api \<Rightarrow> crypt_api \<Rightarrow> entropy \<Rightarrow> 'db srv \<Rightarrow> message_cs
    \<Rightarrow> (bool \<times> message_cs \<times> 'db srv) option" where
  "srvdb_account_register api cr ent s m =
     (if m_user m = '''' then Some (False, m, s)
      else case count_check api Count_accounts (\<lambda>n. MAX_USER_NUM \<le> n)
             (\<lambda>m. m\<lparr>m_error_text := err_user_limit\<rparr>) m s of
        (None, _) \<Rightarrow> None
      | (Some (Inl m1), s1) \<Rightarrow> Some (False, m1, s1)
      | (Some (Inr _), s1) \<Rightarrow>
          (let es_name = api_escape api (a_name (account_of m)) in
           case count_check api (Count_account_name es_name) (\<lambda>n. n \<noteq> 0)
             (\<lambda>m. m\<lparr>m_error_text := err_user_exists\<rparr>) m s1 of
             (None, _) \<Rightarrow> None
           | (Some (Inl m2), s2) \<Rightarrow> Some (False, m2, s2)
           | (Some (Inr _), s2) \<Rightarrow>
               (case new_hash cr ent (a_password (account_of m)) of
                  None \<Rightarrow> None
                | Some None \<Rightarrow> Some (False, m, s2)
                | Some (Some hash_pw) \<Rightarrow>
                    Some (store_account api (Insert_account es_name (api_escape api hash_pw)
                      (account_type_int (a_type (account_of m)))) m s2))))"

definition srvdb_account_update :: "'db mysql_api \<Rightarrow> crypt_api \<Rightarrow> entropy \<Rightarrow> 'db srv \<Rightarrow> message_cs
    \<Rightarrow> (bool \<times> message_cs \<times> 'db srv) option" where
  "srvdb_account_update api cr ent s m =
     (if m_user m = '''' then Some (False, m, s)
      else (let es_name = api_escape api (a_name (account_of m)) in
        case count_check api (Count_account_name es_name) (\<lambda>n. n = 0) (\<lambda>m. m) m s of
          (None, _) \<Rightarrow> None
        | (Some (Inl m1), s1) \<Rightarrow> Some (False, m1, s1)
        | (Some (Inr _), s1) \<Rightarrow>
            (case new_hash cr ent (a_password (account_of m)) of
               None \<Rightarrow> None
             | Some None \<Rightarrow> Some (False, m, s1)
             | Some (Some hash_pw) \<Rightarrow>
                 Some (store_account api (Update_account_password (api_escape api hash_pw) es_name) m s1))))"

section \<open>Creation of the tables\<close>

text \<open>The message on the stack is uninitialised but for the fields the function sets: \<open>m0\<close> is whatever
  it held.\<close>

definition admin_message :: "message_cs \<Rightarrow> message_cs" where
  "admin_message m0 = m0\<lparr>m_user := ADMIN_DEFAULT_ACCOUNT, m_request := req_register_account_e,
     m_stuff := Account_un \<lparr>a_type = account_admin_e, a_name = ADMIN_DEFAULT_ACCOUNT,
       a_password = ADMIN_DEFAULT_PW\<rparr>\<rparr>"

definition srvdb_accounts_table_init :: "'db mysql_api \<Rightarrow> crypt_api \<Rightarrow> entropy \<Rightarrow> message_cs \<Rightarrow> 'db srv
    \<Rightarrow> (bool \<times> 'db srv) option" where
  "srvdb_accounts_table_init api cr ent m0 s =
     (case mysql_query api s Create_accounts of (r, s1) \<Rightarrow>
        if is_err r then Some (False, s1)
        else (case srvdb_account_register api cr ent s1 (admin_message m0) of
            None \<Rightarrow> None
          | Some (_, _, s2) \<Rightarrow> Some (True, s2)))"

definition srvdb_user_archive_init :: "'db mysql_api \<Rightarrow> string \<Rightarrow> 'db srv \<Rightarrow> bool \<times> 'db srv" where
  "srvdb_user_archive_init api username s =
     (case mysql_query api s (Create_shelves (username @ ''_shelves'')) of (r, s1) \<Rightarrow>
        if is_err r then (False, mysql_check_connection api s1)
        else (case mysql_query api s1 (Create_books (username @ ''_books'')) of (r2, s2) \<Rightarrow>
            if is_err r2 then (False, mysql_check_connection api s2) else (True, s2)))"

section \<open>The account table\<close>

definition accounts_ok :: "dialect \<Rightarrow> account_row list \<Rightarrow> bool" where
  "accounts_ok dia rows \<longleftrightarrow> int (length rows) \<le> MAX_USER_NUM
     \<and> sorted_wrt (\<lambda>a b. \<not> bin_eq dia (acc_name a) (acc_name b)) rows"

definition same_name :: "dialect \<Rightarrow> string \<Rightarrow> account_row \<Rightarrow> bool" where
  "same_name dia n a \<longleftrightarrow> bin_eq dia (acc_name a) n"

definition with_accounts :: "database \<Rightarrow> account_row list \<Rightarrow> database" where
  "with_accounts d rows = d\<lparr>accounts := Some rows\<rparr>"

lemma accounts_with_accounts [simp]:
  "accounts (with_accounts d rows) = Some rows" "books (with_accounts d rows) = books d"
  "shelves (with_accounts d rows) = shelves d"
  by (simp_all add: with_accounts_def)

lemma with_accounts_same: "accounts d = Some rows \<Longrightarrow> with_accounts d rows = d"
  by (cases d) (simp add: with_accounts_def)

lemma on_accounts_Some:
  "accounts d = Some rows \<Longrightarrow> on_accounts d f = (fst (f rows), with_accounts d (snd (f rows)))"
  by (simp add: on_accounts_def with_accounts_def split: prod.splits)

lemma scan_dec: "scan_d (dec n) = Some (n, [])"
  using scan_d_dec [of "[]" n] by simp

context mysql_server
begin

abbreviation named :: "message_cs \<Rightarrow> account_row \<Rightarrow> bool" where
  "named m \<equiv> same_name dia (a_name (account_of m))"

lemma sql_accounts:
  assumes "accounts d = Some rows"
  shows "sql_exec dia Count_accounts d = (Q_rows 1 [[Some (dec (int (length rows)))]], d)"
    and "sql_exec dia (Count_account_name (api_escape api n)) d
      = (Q_rows 1 [[Some (dec (int (length (filter (same_name dia n) rows))))]], d)"
    and "sql_exec dia (Select_account_type (api_escape api n)) d
      = (Q_rows 1 (map (\<lambda>a. [Some (dec (acc_type a))]) (filter (same_name dia n) rows)), d)"
    and "sql_exec dia (Select_account_password (api_escape api n)) d
      = (Q_rows 1 (map (\<lambda>a. [Some (acc_password a)]) (filter (same_name dia n) rows)), d)"
  using assms by (simp_all add: sql_exec.simps on_accounts_Some with_accounts_same lit_escape same_name_def
      cong: filter_cong)

lemma count_check_cases:
  assumes run: "count_check api st refuse report m s = (res, s')" and scope: "stmt_in_scope st"
    and ex: "sql_exec dia st (data s) = (Q_rows 1 [[Some (dec n)]], data s)"
  obtains (stop) m' where "res = Some (Inl m')" "data s' = data s"
    | (go) "res = Some (Inr ())" "\<not> refuse n" "data s' = data s"
proof -
  obtain r s1 where q: "mysql_query api s st = (r, s1)" by (cases "mysql_query api s st") auto
  from scope q show thesis
  proof (cases rule: query_cases)
    case err
    with run q stop show thesis by (auto simp: count_check_def)
  next
    case ran
    with ex have "r = Q_rows 1 [[Some (dec n)]]" "data s1 = data s" by simp_all
    with run q stop go show thesis
      by (auto simp: count_check_def scan_dec dec_nonempty split: if_splits)
  qed
qed

lemma store_account_cases:
  assumes run: "store_account api st m s = (ok, m', s')" and scope: "stmt_in_scope st"
    and ex: "sql_exec dia st (data s) = (r0, d')" "is_err r0 \<longrightarrow> d' = data s"
  obtains (bad) "\<not> ok" "data s' = data s" | (good) "ok" "m' = m" "data s' = d'" "\<not> is_err r0"
proof -
  obtain r s1 where q: "mysql_query api s st = (r, s1)" by (cases "mysql_query api s st") auto
  from scope q show thesis
  proof (cases rule: query_cases)
    case err
    with run q bad show thesis by (auto simp: store_account_def)
  next
    case ran
    with ex have "r = r0" "data s1 = d'" by simp_all
    with run q bad good ex show thesis by (cases "is_err r0") (auto simp: store_account_def)
  qed
qed

lemma register_effect:
  assumes run: "srvdb_account_register api cr ent s m = Some (ok, m', s')"
    and rows: "accounts (data s) = Some rows"
  obtains (failed) "\<not> ok" "data s' = data s"
    | (registered) h where "ok" "new_hash cr ent (a_password (account_of m)) = Some (Some h)"
        "int (length rows) < MAX_USER_NUM" "filter (named m) rows = []"
        "data s' = with_accounts (data s) (rows @ [\<lparr>acc_name = a_name (account_of m), acc_password = h,
           acc_type = account_type_int (a_type (account_of m))\<rparr>])"
proof (cases "m_user m = ''''")
  case True
  with run failed show thesis by (simp add: srvdb_account_register_def)
next
  case False
  let ?n = "a_name (account_of m)"
  let ?c1 = "count_check api Count_accounts (\<lambda>n. MAX_USER_NUM \<le> n) (\<lambda>m. m\<lparr>m_error_text := err_user_limit\<rparr>) m s"
  obtain r1 s1 where c1: "?c1 = (r1, s1)" by (cases ?c1) auto
  have scope1: "stmt_in_scope Count_accounts" by simp
  from c1 scope1 sql_accounts(1) [OF rows] show thesis
  proof (cases rule: count_check_cases)
    case (stop m1)
    with run c1 False failed show thesis by (auto simp: srvdb_account_register_def)
  next
    case go
    let ?c2 = "count_check api (Count_account_name (api_escape api ?n)) (\<lambda>n. n \<noteq> 0)
      (\<lambda>m. m\<lparr>m_error_text := err_user_exists\<rparr>) m s1"
    obtain r2 s2 where c2: "?c2 = (r2, s2)" by (cases ?c2) auto
    have scope2: "stmt_in_scope (Count_account_name (api_escape api ?n))" by (simp add: escape_ok)
    have rows1: "accounts (data s1) = Some rows" using rows go by simp
    note go1 = go
    from c2 scope2 sql_accounts(2) [OF rows1, of ?n] show thesis
    proof (cases rule: count_check_cases)
      case (stop m2)
      with run c1 c2 go1 False failed show thesis by (auto simp: srvdb_account_register_def Let_def)
    next
      case go
      show thesis
      proof (cases "\<exists>h. new_hash cr ent (a_password (account_of m)) = Some (Some h)")
        case False
        with run c1 c2 go1 go \<open>m_user m \<noteq> ''''\<close> failed show thesis
          by (auto simp: srvdb_account_register_def Let_def split: option.splits)
      next
        case True
        then obtain h where h: "new_hash cr ent (a_password (account_of m)) = Some (Some h)" by blast
        let ?st = "Insert_account (api_escape api ?n) (api_escape api h) (account_type_int (a_type (account_of m)))"
        let ?new = "\<lparr>acc_name = ?n, acc_password = h, acc_type = account_type_int (a_type (account_of m))\<rparr>"
        obtain r0 d' where ex: "sql_exec dia ?st (data s2) = (r0, d')" by (cases "sql_exec dia ?st (data s2)") auto
        have rows2: "accounts (data s2) = Some rows" using rows1 go by simp
        have d: "is_err r0 \<longrightarrow> d' = data s2" "\<not> is_err r0 \<longrightarrow> d' = with_accounts (data s2) (rows @ [?new])"
          using ex by (auto simp: sql_exec.simps on_accounts_Some [OF rows2] lit_escape with_accounts_same [OF rows2]
              split: if_splits)
        have st: "store_account api ?st m s2 = (ok, m', s')"
          using run c1 c2 go1 go h False by (simp add: srvdb_account_register_def Let_def)
        have "stmt_in_scope ?st" by (simp add: escape_ok)
        from st this ex d(1) show thesis
        proof (cases rule: store_account_cases)
          case bad
          with go go1 failed show thesis by simp
        next
          case good
          with registered [OF _ h] go go1 d(2) show thesis by auto
        qed
      qed
    qed
  qed
qed

end

context mysql_server
begin

lemma accounts_ok_register:
  assumes "accounts_ok dia rows" and "int (length rows) < MAX_USER_NUM" and "filter (same_name dia n) rows = []"
    and "acc_name new = n"
  shows "accounts_ok dia (rows @ [new])"
  using assms by (auto simp: accounts_ok_def sorted_wrt_append same_name_def filter_empty_conv)

lemma same_name_eq: "same_name dia n a \<Longrightarrow> same_name dia n b \<Longrightarrow> bin_eq dia (acc_name a) (acc_name b)"
  unfolding same_name_def using bin_eq_trans bin_eq_sym by metis

lemma same_name_unique:
  assumes "accounts_ok dia rows" and "a \<in> set rows" and "same_name dia n a"
  shows "filter (same_name dia n) rows = [a]"
proof -
  have "sorted_wrt (\<lambda>a b. \<not> bin_eq dia (acc_name a) (acc_name b)) rows"
    using assms(1) by (simp add: accounts_ok_def)
  then show ?thesis using assms(2)
  proof (induction rows)
    case (Cons b rows)
    show ?case
    proof (cases "b = a")
      case True
      then have "filter (same_name dia n) rows = []"
        using Cons.prems(1) same_name_eq [OF assms(3)] by (auto simp: filter_empty_conv)
      with True assms(3) show ?thesis by simp
    next
      case False
      with Cons.prems have "a \<in> set rows" by simp
      moreover have "\<not> same_name dia n b"
        using Cons.prems(1) \<open>a \<in> set rows\<close> same_name_eq [OF _ assms(3)] by auto
      ultimately show ?thesis using Cons by simp
    qed
  qed simp
qed

lemma verify_effect:
  assumes run: "srvdb_account_verify api cr s m = Some (ok, m', s')"
    and rows: "accounts (data s) = Some rows"
  shows "data s' = data s \<and> (ok \<longrightarrow> (\<exists>a \<in> set rows. named m a \<and> acc_type a = account_type_int (a_type (account_of m)) \<and>
      (\<exists>p \<in> set rows. named m p \<and>
        crypt_rn cr (a_password (account_of m)) (acc_password p) BCRYPT_HASHSIZE = Some (acc_password p))))"
proof (cases "m_user m = ''''")
  case True
  with run show ?thesis by (simp add: srvdb_account_verify_def)
next
  case False
  let ?n = "a_name (account_of m)"
  let ?e = "api_escape api ?n"
  have sc: "stmt_in_scope (Select_account_type ?e)" "stmt_in_scope (Select_account_password ?e)"
    by (simp_all add: escape_ok)
  obtain r s1 where q: "mysql_query api s (Select_account_type ?e) = (r, s1)"
    by (cases "mysql_query api s (Select_account_type ?e)") auto
  from sc(1) q show ?thesis
  proof (cases rule: query_cases)
    case err
    with run q False show ?thesis
      by (auto simp: srvdb_account_verify_def verify_type_def Let_def split: if_splits)
  next
    case ran
    then have r: "r = Q_rows 1 (map (\<lambda>a. [Some (dec (acc_type a))]) (filter (named m) rows))"
      and d1: "data s1 = data s"
      by (simp_all add: sql_accounts(3) [OF rows])
    show ?thesis
    proof (cases "filter (named m) rows")
      case Nil
      with r d1 run q False show ?thesis
        by (auto simp: srvdb_account_verify_def verify_type_def Let_def split: if_splits)
    next
      case (Cons a as)
      then have "a \<in> set (filter (named m) rows)" by simp
      then have a: "a \<in> set rows" "named m a" by auto
      obtain r2 s2 where q2: "mysql_query api s1 (Select_account_password ?e) = (r2, s2)"
        by (cases "mysql_query api s1 (Select_account_password ?e)") auto
      have rows1: "accounts (data s1) = Some rows" using rows d1 by simp
      from sc(2) q2 show ?thesis
      proof (cases rule: query_cases)
        case err
        with run q q2 r Cons d1 False show ?thesis
          by (auto simp: srvdb_account_verify_def verify_type_def Let_def scan_dec split: if_splits)
      next
        case ran
        then have "r2 = Q_rows 1 (map (\<lambda>a. [Some (acc_password a)]) (filter (named m) rows))"
          and "data s2 = data s"
          using d1 by (simp_all add: sql_accounts(4) [OF rows])
        with run q q2 r Cons d1 False a show ?thesis
          by (auto simp: srvdb_account_verify_def verify_type_def Let_def scan_dec bcrypt_checkpw_def
              bcrypt_hashpw_def timing_safe_strcmp_0 split: if_splits option.splits)
      qed
    qed
  qed
qed

lemma update_effect:
  assumes run: "srvdb_account_update api cr ent s m = Some (ok, m', s')"
    and rows: "accounts (data s) = Some rows"
  obtains (failed) "\<not> ok" "data s' = data s"
    | (changed) h where "ok" "new_hash cr ent (a_password (account_of m)) = Some (Some h)"
        "filter (named m) rows \<noteq> []"
        "data s' = with_accounts (data s) (map (\<lambda>a. if named m a then a\<lparr>acc_password := h\<rparr> else a) rows)"
proof (cases "m_user m = ''''")
  case True
  with run failed show thesis by (simp add: srvdb_account_update_def)
next
  case False
  let ?n = "a_name (account_of m)"
  let ?c = "count_check api (Count_account_name (api_escape api ?n)) (\<lambda>n. n = 0) (\<lambda>m. m) m s"
  obtain r1 s1 where c: "?c = (r1, s1)" by (cases ?c) auto
  have scope: "stmt_in_scope (Count_account_name (api_escape api ?n))" by (simp add: escape_ok)
  from c scope sql_accounts(2) [OF rows, of ?n] show thesis
  proof (cases rule: count_check_cases)
    case (stop m1)
    with run c False failed show thesis by (auto simp: srvdb_account_update_def Let_def)
  next
    case go
    show thesis
    proof (cases "\<exists>h. new_hash cr ent (a_password (account_of m)) = Some (Some h)")
      case False
      with run c go \<open>m_user m \<noteq> ''''\<close> failed show thesis
        by (auto simp: srvdb_account_update_def Let_def split: option.splits)
    next
      case True
      then obtain h where h: "new_hash cr ent (a_password (account_of m)) = Some (Some h)" by blast
      let ?st = "Update_account_password (api_escape api h) (api_escape api ?n)"
      let ?rows = "map (\<lambda>a. if named m a then a\<lparr>acc_password := h\<rparr> else a) rows"
      obtain r0 d' where ex: "sql_exec dia ?st (data s1) = (r0, d')" by (cases "sql_exec dia ?st (data s1)") auto
      have rows1: "accounts (data s1) = Some rows" using rows go by simp
      have d: "is_err r0 \<longrightarrow> d' = data s1" "\<not> is_err r0 \<longrightarrow> d' = with_accounts (data s1) ?rows"
        using ex by (auto simp: sql_exec.simps on_accounts_Some [OF rows1] lit_escape with_accounts_same [OF rows1]
            updated_def snd_update_where same_name_def split: if_splits)
      have st: "store_account api ?st m s1 = (ok, m', s')"
        using run c go h False by (simp add: srvdb_account_update_def Let_def)
      have "stmt_in_scope ?st" by (simp add: escape_ok)
      from st this ex d(1) show thesis
      proof (cases rule: store_account_cases)
        case bad
        with go failed show thesis by simp
      next
        case good
        with changed [OF _ h] go d(2) show thesis by auto
      qed
    qed
  qed
qed

end

section \<open>Logging in\<close>

text \<open>What is documented of \<^verbatim>\<open>crypt\<close>: a hash carries its own salt, so hashing the same password with the
  hash as setting gives the hash again; and it fits the buffer.\<close>

locale crypt_law =
  fixes cr :: crypt_api
  assumes rehash: "crypt_rn cr pw st k = Some h \<Longrightarrow> crypt_rn cr pw h k = Some h"
    and in_buffer: "crypt_rn cr pw st k = Some h \<Longrightarrow> length h < k"
begin

lemma hash_checks:
  assumes "bcrypt_hashpw cr pw salt = (0, h)"
  shows "bcrypt_checkpw cr pw h = 0" and "length h < BCRYPT_HASHSIZE"
proof -
  have "crypt_rn cr pw salt BCRYPT_HASHSIZE = Some h" using assms by (auto simp: bcrypt_hashpw_def split: option.splits)
  then show "bcrypt_checkpw cr pw h = 0" and "length h < BCRYPT_HASHSIZE"
    using rehash in_buffer by (simp_all add: bcrypt_checkpw_def bcrypt_hashpw_def timing_safe_strcmp_0)
qed

lemma new_hash_check:
  assumes "new_hash cr ent pw = Some (Some h)"
  shows "bcrypt_checkpw cr pw h = 0" and "length h < BCRYPT_HASHSIZE"
proof -
  obtain salt where "bcrypt_hashpw cr pw salt = (0, h)"
    using assms by (auto simp: new_hash_def split: option.splits if_splits prod.splits)
  then show "bcrypt_checkpw cr pw h = 0" and "length h < BCRYPT_HASHSIZE" by (rule hash_checks)+
qed

end

context mysql_up
begin

lemma verify_up:
  assumes rows: "accounts (data s) = Some rows" and ok: "accounts_ok dia rows" and a: "a \<in> set rows"
    and name: "named m a" and type: "acc_type a = account_type_int (a_type (account_of m))"
    and user: "m_user m \<noteq> ''''" and short: "length (api_escape api (a_name (account_of m))) < BCRYPT_HASHSIZE"
    and hash: "length (acc_password a) \<le> BCRYPT_HASHSIZE"
  shows "\<exists>m' s'. srvdb_account_verify api cr s m
    = Some (bcrypt_checkpw cr (a_password (account_of m)) (acc_password a) = 0, m', s') \<and> data s' = data s"
proof -
  let ?e = "api_escape api (a_name (account_of m))"
  have one: "filter (named m) rows = [a]" by (rule same_name_unique [OF ok a name])
  obtain r s1 where q: "mysql_query api s (Select_account_type ?e) = (r, s1)"
    by (cases "mysql_query api s (Select_account_type ?e)") auto
  have r: "r = Q_rows 1 [[Some (dec (acc_type a))]]" and d1: "data s1 = data s"
    using query_runs [OF q] one by (simp_all add: sql_accounts(3) [OF rows] escape_ok)
  obtain r2 s2 where q2: "mysql_query api s1 (Select_account_password ?e) = (r2, s2)"
    by (cases "mysql_query api s1 (Select_account_password ?e)") auto
  have r2: "r2 = Q_rows 1 [[Some (acc_password a)]]" and d2: "data s2 = data s"
    using query_runs [OF q2] one d1 by (simp_all add: sql_accounts(4) [OF rows] escape_ok)
  show ?thesis
    using q r q2 r2 d2 user short hash type
    by (auto simp: srvdb_account_verify_def verify_type_def Let_def scan_dec)
qed

lemma count_check_up:
  assumes "stmt_in_scope st" and "sql_exec dia st (data s) = (Q_rows 1 [[Some (dec n)]], data s)"
  shows "\<exists>s'. count_check api st refuse report m s
    = (Some (if refuse n then Inl (report m) else Inr ()), s') \<and> data s' = data s"
proof -
  obtain r s1 where q: "mysql_query api s st = (r, s1)" by (cases "mysql_query api s st") auto
  from query_runs [OF q assms(1)] assms(2) have "r = Q_rows 1 [[Some (dec n)]]" "data s1 = data s" by simp_all
  with q show ?thesis by (simp add: count_check_def scan_dec dec_nonempty)
qed

lemma register_up:
  assumes rows: "accounts (data s) = Some rows" and user: "m_user m \<noteq> ''''"
    and h: "new_hash cr ent (a_password (account_of m)) = Some (Some h)"
    and fit: "fits 200 (a_name (account_of m))" "fits 200 h"
  shows "\<exists>s'. srvdb_account_register api cr ent s m =
    Some (if MAX_USER_NUM \<le> int (length rows) then (False, m\<lparr>m_error_text := err_user_limit\<rparr>, s')
      else if \<exists>a \<in> set rows. named m a then (False, m\<lparr>m_error_text := err_user_exists\<rparr>, s')
      else (True, m, s'))"
proof -
  let ?e = "api_escape api (a_name (account_of m))"
  obtain s1 where c1: "count_check api Count_accounts (\<lambda>n. MAX_USER_NUM \<le> n)
        (\<lambda>m. m\<lparr>m_error_text := err_user_limit\<rparr>) m s
      = (Some (if MAX_USER_NUM \<le> int (length rows) then Inl (m\<lparr>m_error_text := err_user_limit\<rparr>) else Inr ()), s1)"
    and d1: "data s1 = data s"
    using count_check_up [OF _ sql_accounts(1) [OF rows]] by force
  have rows1: "accounts (data s1) = Some rows" using rows d1 by simp
  have "stmt_in_scope (Count_account_name ?e)" by (simp add: escape_ok)
  note check = count_check_up [OF this sql_accounts(2) [OF rows1], of "\<lambda>n. n \<noteq> 0"
      "\<lambda>m. m\<lparr>m_error_text := err_user_exists\<rparr>" m]
  have ne: "int (length (filter (named m) rows)) \<noteq> 0 \<longleftrightarrow> (\<exists>a \<in> set rows. named m a)"
    by (auto simp: filter_empty_conv)
  from check obtain s2 where c2: "count_check api (Count_account_name ?e) (\<lambda>n. n \<noteq> 0)
        (\<lambda>m. m\<lparr>m_error_text := err_user_exists\<rparr>) m s1
      = (Some (if \<exists>a \<in> set rows. named m a then Inl (m\<lparr>m_error_text := err_user_exists\<rparr>) else Inr ()), s2)"
    and d2: "data s2 = data s1"
    unfolding ne by blast
  let ?st = "Insert_account ?e (api_escape api h) (account_type_int (a_type (account_of m)))"
  obtain r3 s3 where q3: "mysql_query api s2 ?st = (r3, s3)" by (cases "mysql_query api s2 ?st") auto
  have rows2: "accounts (data s2) = Some rows" using rows1 d2 by simp
  have "r3 = Q_ok 1"
    using query_runs [OF q3] fit by (simp add: escape_ok sql_exec.simps on_accounts_Some [OF rows2] lit_escape)
  with q3 have "store_account api ?st m s2 = (True, m, s3)" by (simp add: store_account_def)
  then show ?thesis
    using user c1 c2 h by (simp add: srvdb_account_register_def Let_def)
qed

lemma register_and_verify:
  assumes law: "crypt_law cr" and rows: "accounts (data s) = Some rows" and ok: "accounts_ok dia rows"
    and room: "int (length rows) < MAX_USER_NUM" and new: "filter (named m) rows = []"
    and h: "new_hash cr ent (a_password (account_of m)) = Some (Some h)"
    and user: "m_user m \<noteq> ''''" and short: "length (a_name (account_of m)) < 32"
  obtains s' where "srvdb_account_register api cr ent s m = Some (True, m, s')"
    and "\<And>v. a_name (account_of v) = a_name (account_of m) \<Longrightarrow> a_type (account_of v) = a_type (account_of m) \<Longrightarrow> m_user v \<noteq> '''' \<Longrightarrow>
      \<exists>v' s''. srvdb_account_verify api cr s' v = Some (bcrypt_checkpw cr (a_password (account_of v)) h = 0, v', s'') \<and> data s'' = data s'"
proof -
  let ?a = "\<lparr>acc_name = a_name (account_of m), acc_password = h, acc_type = account_type_int (a_type (account_of m))\<rparr>"
  have len: "length h < BCRYPT_HASHSIZE" by (rule crypt_law.new_hash_check [OF law h])
  then have "fits 200 (a_name (account_of m))" "fits 200 h" using short by (auto intro!: fits_length simp: limits)
  then obtain s' where run: "srvdb_account_register api cr ent s m = Some (True, m, s')"
    using register_up [OF rows user h] room new by (auto simp: filter_empty_conv)
  have acc: "accounts (data s') = Some (rows @ [?a])"
    by (rule register_effect [OF run rows]) (use h in auto)
  have ok': "accounts_ok dia (rows @ [?a])" using ok room new by (rule accounts_ok_register) simp
  have "\<exists>v' s''. srvdb_account_verify api cr s' v = Some (bcrypt_checkpw cr (a_password (account_of v)) h = 0, v', s'') \<and> data s'' = data s'"
    if v: "a_name (account_of v) = a_name (account_of m)" "a_type (account_of v) = a_type (account_of m)" "m_user v \<noteq> ''''" for v
  proof -
    have "named v ?a" using v(1) by (simp add: same_name_def bin_eq_refl)
    moreover have "length (api_escape api (a_name (account_of v))) < BCRYPT_HASHSIZE"
      using length_escape [of "a_name (account_of v)"] short v(1) by (simp add: limits)
    ultimately show ?thesis using verify_up [OF acc ok', of ?a v cr] v(2,3) len by simp
  qed
  with run show thesis by (rule that)
qed

end

section \<open>Properties\<close>

definition sample_crypt :: crypt_api where
  "sample_crypt = \<lparr>crypt_rn = (\<lambda>pw st k. if length pw + 4 < k then Some (''$2a$'' @ pw) else None),
     crypt_gensalt_rn = (\<lambda>p w i k. Some ''$2a$12'')\<rparr>"

definition sample_entropy :: entropy where
  "sample_entropy = \<lparr>ent_open = True, ent_reads = [Read_eintr, Read_bytes (replicate 10 (CHR ''r'')),
     Read_bytes (replicate 10 (CHR ''s''))], ent_closes = [Close_eintr, Close_ok]\<rparr>"

definition sample_account :: account_entry where
  "sample_account = \<lparr>a_type = account_user_e, a_name = ''u'', a_password = ''pass word''\<rparr>"

lemma sample_account_of [simp]: "account_of (sample_msg (Account_un a)) = a"
  by (simp add: sample_msg_def)

lemma sample_accounts: "accounts (srv_data rdb (sample_srv rows)) = Some []"
  by (simp add: srv_data_def sample_srv_def)

lemma sample_hash: "new_hash sample_crypt sample_entropy ''pass word'' = Some (Some ''$2a$pass word'')"
  by code_simp

lemma sample_registers:
  "srvdb_account_register ref_up_api sample_crypt sample_entropy (sample_srv []) (sample_msg (Account_un sample_account))
     = Some (True, sample_msg (Account_un sample_account), snd (snd (the (srvdb_account_register ref_up_api
         sample_crypt sample_entropy (sample_srv []) (sample_msg (Account_un sample_account))))))"
proof -
  have "new_hash sample_crypt sample_entropy (a_password (account_of (sample_msg (Account_un sample_account))))
      = Some (Some ''$2a$pass word'')"
    using sample_hash by (simp add: sample_account_def)
  then have "\<exists>s'. srvdb_account_register ref_up_api sample_crypt sample_entropy (sample_srv [])
      (sample_msg (Account_un sample_account)) = Some (True, sample_msg (Account_un sample_account), s')"
    using up.register_up [OF sample_accounts, of "sample_msg (Account_un sample_account)" sample_crypt
        sample_entropy "''$2a$pass word''" "[]"]
    by (simp add: limits) (simp add: sample_msg_def sample_account_def fits_length)
  then show ?thesis by fastforce
qed

text \<open>C11: a registration that reports success has added exactly one account with the requested name,
  type and the hash of the password, there was no account of that name and fewer than 16 accounts, and
  the table stays free of duplicates; one that reports failure has changed nothing.\<close>

theorem account_register_refines:
  assumes "mysql_server api dia db_of" and "accounts (srv_data db_of s) = Some rows"
    and "accounts_ok dia rows" and "srvdb_account_register api cr ent s m = Some (ok, m', s')"
  shows "if ok then (\<exists>h rows'. new_hash cr ent (a_password (account_of m)) = Some (Some h)
        \<and> int (length rows) < MAX_USER_NUM \<and> (\<forall>a \<in> set rows. \<not> same_name dia (a_name (account_of m)) a)
        \<and> rows' = rows @ [\<lparr>acc_name = a_name (account_of m), acc_password = h,
             acc_type = account_type_int (a_type (account_of m))\<rparr>]
        \<and> accounts_ok dia rows' \<and> srv_data db_of s' = with_accounts (srv_data db_of s) rows')
    else srv_data db_of s' = srv_data db_of s"
  by (rule mysql_server.register_effect [OF assms(1,4,2)])
     (auto simp: filter_empty_conv intro!: mysql_server.accounts_ok_register [OF assms(1,3)])

theorem account_register_refines_witness:
  "accounts (srv_data rdb (snd (snd (the (srvdb_account_register ref_up_api sample_crypt sample_entropy
     (sample_srv []) (sample_msg (Account_un sample_account))))))) =
   Some [\<lparr>acc_name = ''u'', acc_password = ''$2a$pass word'', acc_type = 1\<rparr>]"
proof -
  have "accounts_ok ref_dialect []" by (simp add: accounts_ok_def limits)
  note r = account_register_refines [OF up.mysql_server_axioms sample_accounts this sample_registers]
  have a: "account_of (sample_msg (Account_un sample_account)) = sample_account" by simp
  from r obtain h rows' where h: "new_hash sample_crypt sample_entropy (a_password sample_account) = Some (Some h)"
    and rows': "rows' = [] @ [\<lparr>acc_name = a_name sample_account, acc_password = h,
      acc_type = account_type_int (a_type sample_account)\<rparr>]"
    and d: "srv_data rdb (snd (snd (the (srvdb_account_register ref_up_api sample_crypt sample_entropy
      (sample_srv []) (sample_msg (Account_un sample_account)))))) = with_accounts (srv_data rdb (sample_srv [])) rows'"
    unfolding if_True a by (elim exE conjE) rule
  from h have "h = ''$2a$pass word''" using sample_hash by (simp add: sample_account_def)
  with rows' show ?thesis unfolding d by (simp add: sample_account_def)
qed

text \<open>C12: a login succeeds only with the password of an account of that name and with its type: the
  stored hash is the hash of the password under itself; and no login changes the database.\<close>

theorem login_sound:
  assumes "mysql_server api dia db_of" and "accounts (srv_data db_of s) = Some rows"
    and "srvdb_account_verify api cr s m = Some (ok, m', s')"
  shows "srv_data db_of s' = srv_data db_of s \<and> (ok \<longrightarrow> (\<exists>a \<in> set rows. same_name dia (a_name (account_of m)) a
      \<and> acc_type a = account_type_int (a_type (account_of m))
      \<and> (\<exists>p \<in> set rows. same_name dia (a_name (account_of m)) p \<and>
           crypt_rn cr (a_password (account_of m)) (acc_password p) BCRYPT_HASHSIZE = Some (acc_password p))))"
  by (rule mysql_server.verify_effect [OF assms(1,3,2)])

theorem login_sound_witness:
  "srv_data rdb (snd (snd (the (srvdb_account_verify ref_api sample_crypt (sample_srv [])
     (sample_msg (Account_un sample_account)))))) = srv_data rdb (sample_srv [])"
proof -
  let ?run = "srvdb_account_verify ref_api sample_crypt (sample_srv []) (sample_msg (Account_un sample_account))"
  have "\<not> Option.is_none ?run" by code_simp
  then have "?run \<noteq> None" by (auto simp: Option.is_none_def)
  then obtain ok m' s' where run: "?run = Some (ok, m', s')" by (metis option.exhaust prod_cases3)
  from login_sound [OF ref.mysql_server_axioms sample_accounts run] show ?thesis by (simp add: run)
qed

end
