(* ===== verification/Socketsrv.thy ===== *)
theory Socketsrv
  imports Srvdb_Account Aes
begin

text \<open>
  \<^verbatim>\<open>bsdqserver/socketsrv.c\<close>: the server's sockets and the processing of a request.  \<open>sock\<close> holds the
  file's static variables (descriptor sets as sets of descriptors, \<^verbatim>\<open>fd_loop\<close> being the static variable
  of \<^verbatim>\<open>socket_srv_fetch_client\<close>).  The kernel's answers are arguments: the outcome of the system calls
  of \<^verbatim>\<open>socket_srv_init\<close>, of \<^verbatim>\<open>select\<close>, \<^verbatim>\<open>accept\<close> and \<^verbatim>\<open>ioctl(FIONREAD)\<close>, the bytes \<^verbatim>\<open>recv\<close> delivers, and
  \<open>send_ok\<close>, which says whether the k-th \<^verbatim>\<open>send\<close> of a request succeeds.  Processing returns the value of
  the C function, the frames sent to the client in order, and the new database state; \<^const>\<open>None\<close> is
  undefined behaviour or an operation that does not return.
\<close>

section \<open>Sockets\<close>

record sock =
  server_sockfd :: int
  readfds :: "int set"
  recordfds :: "int set"
  max_fd_num :: int
  fd_loop :: int

text \<open>The system calls of \<^verbatim>\<open>socket_srv_init\<close>: the descriptor (-1 on failure) and whether \<^verbatim>\<open>setsockopt\<close>,
  \<^verbatim>\<open>bind\<close> and \<^verbatim>\<open>listen\<close> succeed; \<open>aes\<close> is the result of \<^verbatim>\<open>AES_init\<close>.\<close>

definition socket_srv_init :: "int \<Rightarrow> bool \<Rightarrow> bool \<Rightarrow> bool \<Rightarrow> bool \<Rightarrow> sock \<Rightarrow> bool \<times> sock" where
  "socket_srv_init fd setopt bound listening aes k =
     (let k1 = k\<lparr>server_sockfd := fd\<rparr> in
      if fd = -1 \<or> \<not> setopt \<or> \<not> bound \<or> \<not> listening \<or> \<not> aes then (False, k1)
      else (True, k1\<lparr>readfds := {}, recordfds := {fd}, max_fd_num := fd\<rparr>))"

definition socket_srv_close :: "sock \<Rightarrow> sock" where
  "socket_srv_close k = k\<lparr>readfds := {}, recordfds := {}, max_fd_num := 0, server_sockfd := -1\<rparr>"

text \<open>\<open>sel\<close> is what \<^verbatim>\<open>select\<close> answers for the descriptors below the given bound: its result and the
  descriptors left in the set.\<close>

definition socket_srv_wait :: "(int \<Rightarrow> int set \<Rightarrow> int \<times> int set) \<Rightarrow> sock \<Rightarrow> bool \<times> sock" where
  "socket_srv_wait sel k =
     (if server_sockfd k = -1 then (False, k)
      else (let k1 = k\<lparr>readfds := recordfds k\<rparr> in
        case sel (max_fd_num k1 + 1) (readfds k1) of (res, ready) \<Rightarrow>
          if res < 1 then (False, k1\<lparr>readfds := ready\<rparr>) else (True, k1\<lparr>readfds := ready\<rparr>)))"

text \<open>The largest recorded descriptor up to \<open>n\<close>, searched downwards; \<open>n\<close> itself when there is none.\<close>

fun find_max_fd_from :: "nat \<Rightarrow> int set \<Rightarrow> int option" where
  "find_max_fd_from 0 fds = (if 0 \<in> fds then Some 0 else None)"
| "find_max_fd_from (Suc n) fds = (if int (Suc n) \<in> fds then Some (int (Suc n)) else find_max_fd_from n fds)"

definition find_max_fd :: "int \<Rightarrow> int set \<Rightarrow> int" where
  "find_max_fd max_fd fds =
     (if max_fd < 0 then max_fd
      else case find_max_fd_from (nat max_fd) fds of None \<Rightarrow> max_fd | Some i \<Rightarrow> i)"

datatype fetch_fd = SOCKET_FETCH_ERR | SOCKET_FETCH_END | Fetch_fd int

text \<open>The loop of \<^verbatim>\<open>socket_srv_fetch_client\<close>; \<open>acc\<close> is the descriptor \<^verbatim>\<open>accept\<close> delivers (-1 on failure),
  \<open>avail\<close> the number of bytes waiting on a descriptor.\<close>

function fetch_loop :: "int \<Rightarrow> (int \<Rightarrow> int) \<Rightarrow> sock \<Rightarrow> fetch_fd \<times> sock" where
  "fetch_loop acc avail k =
     (if max_fd_num k < fd_loop k then (SOCKET_FETCH_END, k\<lparr>fd_loop := 0\<rparr>)
      else if fd_loop k \<in> readfds k then
        if fd_loop k = server_sockfd k then
          if acc = -1 then (SOCKET_FETCH_ERR, k)
          else fetch_loop acc avail (k\<lparr>recordfds := insert acc (recordfds k),
                 max_fd_num := (if max_fd_num k < acc then acc else max_fd_num k), fd_loop := fd_loop k + 1\<rparr>)
        else if avail (fd_loop k) = 0 then
          (let fds = recordfds k - {fd_loop k} in
           fetch_loop acc avail (k\<lparr>recordfds := fds, max_fd_num := find_max_fd (max_fd_num k) fds,
             fd_loop := fd_loop k + 1\<rparr>))
        else (Fetch_fd (fd_loop k), k\<lparr>fd_loop := fd_loop k + 1\<rparr>)
      else fetch_loop acc avail (k\<lparr>fd_loop := fd_loop k + 1\<rparr>))"
  by pat_completeness auto

lemma find_max_fd_from_le: "find_max_fd_from n fds = Some i \<Longrightarrow> i \<in> fds \<and> 0 \<le> i \<and> i \<le> int n"
  by (induction n) (auto split: if_splits)

lemma find_max_fd_le: "find_max_fd m fds \<le> m"
  using find_max_fd_from_le [of "nat m" fds] by (auto simp: find_max_fd_def split: option.splits)

text \<open>The listening descriptor is met at most once per round; after it, the bound only shrinks.\<close>

termination fetch_loop
proof (relation "measures [\<lambda>(acc, avail, k). if fd_loop k \<le> server_sockfd k then 1 else 0,
    \<lambda>(acc, avail, k). nat (max_fd_num k + 1 - fd_loop k)]", goal_cases)
  case (3 acc avail k fds)
  then show ?case using find_max_fd_le [of "max_fd_num k" fds] by auto
qed auto

declare fetch_loop.simps [simp del]

definition socket_srv_fetch_client :: "int \<Rightarrow> (int \<Rightarrow> int) \<Rightarrow> sock \<Rightarrow> fetch_fd \<times> sock" where
  "socket_srv_fetch_client acc avail k =
     (if server_sockfd k = -1 then (SOCKET_FETCH_ERR, k) else fetch_loop acc avail k)"

section \<open>Processing a request\<close>

text \<open>The size of a heartbeat packet; the test looks at the size of a message.\<close>

definition encrypt_size_hb :: nat where
  "encrypt_size_hb = (if sizeof_message mod AES_BLOCK_SIZE = 0 then sizeof_heartbeat
     else (sizeof_heartbeat div AES_BLOCK_SIZE + 1) * AES_BLOCK_SIZE)"

text \<open>The parameters of the handlers: the libraries and the key, the random source, and the outcome of
  every \<^verbatim>\<open>send\<close> of this request.\<close>

record ('db, 'k) env =
  e_api :: "'db mysql_api"
  e_crypt :: crypt_api
  e_entropy :: entropy
  e_lib :: "'k aes_lib"
  e_aes :: aes_state
  e_send_ok :: "nat \<Rightarrow> bool"

text \<open>Encrypt the message and send it as the k-th frame: the frame, or a failure that makes the function
  return 0.\<close>

definition send_message :: "('db, 'k) env \<Rightarrow> nat \<Rightarrow> message_cs \<Rightarrow> bytes option option" where
  "send_message E k m =
     (case encrypt (e_lib E) (e_aes E) (put_message m) of
        None \<Rightarrow> None
      | Some (n, c) \<Rightarrow> if n = -1 \<or> \<not> e_send_ok E k then Some None else Some (Some c))"

definition reply_last :: "('db, 'k) env \<Rightarrow> message_cs \<Rightarrow> 'db srv \<Rightarrow> (bool \<times> bytes list \<times> 'db srv) option" where
  "reply_last E m s = (case send_message E 0 m of None \<Rightarrow> None
     | Some None \<Rightarrow> Some (False, [], s) | Some (Some c) \<Rightarrow> Some (True, [c], s))"

fun find_response :: "fetch_result \<Rightarrow> server_response" where
  "find_response FETCH_RESULT_END = r_find_end"
| "find_response FETCH_RESULT_END_MORE = r_find_end_more"
| "find_response _ = r_success"

text \<open>The two result loops; \<open>k\<close> counts the frames already sent.\<close>

function book_find_loop :: "('db, 'k) env \<Rightarrow> nat \<Rightarrow> 'db srv \<Rightarrow> message_cs
    \<Rightarrow> (bool \<times> bytes list \<times> 'db srv) option" where
  "book_find_loop E k s m =
     (case srvdb_book_fetch_result (e_api E) s m of (res, m1, s1) \<Rightarrow>
        if res = FETCH_RESULT_UB then None
        else if res = FETCH_RESULT_ERR then Some (False, [], s1)
        else (let m2 = m1\<lparr>m_response := find_response res\<rparr> in
          case send_message E k m2 of
            None \<Rightarrow> None
          | Some None \<Rightarrow> Some (False, [], s1)
          | Some (Some c) \<Rightarrow>
              if res = FETCH_RESULT_END \<or> res = FETCH_RESULT_END_MORE then Some (True, [c], s1)
              else map_option (\<lambda>(ok, cs, s2). (ok, c # cs, s2)) (book_find_loop E (Suc k) s1 m2)))"
  by pat_completeness auto

lemma book_fetch_cont:
  "srvdb_book_fetch_result api s m = (FETCH_RESULT_CONT, m1, s1) \<Longrightarrow>
     \<exists>row rows. res_ptr s = Some (row # rows) \<and> res_ptr s1 = Some rows"
  by (auto simp: srvdb_book_fetch_result_def Let_def split: option.splits list.splits if_splits)

termination book_find_loop
proof (relation "measure (\<lambda>(E, k, s, m). case res_ptr s of None \<Rightarrow> 0 | Some rows \<Rightarrow> length rows)", goal_cases)
  case (2 E k s m res p m1 s1 m2)
  then have "res = FETCH_RESULT_CONT" by (cases res) auto
  with 2 show ?case using book_fetch_cont [of "e_api E" s m m1 s1] by auto
qed simp

function shelf_find_loop :: "('db, 'k) env \<Rightarrow> nat \<Rightarrow> 'db srv \<Rightarrow> message_cs
    \<Rightarrow> (bool \<times> bytes list \<times> 'db srv) option" where
  "shelf_find_loop E k s m =
     (case srvdb_shelf_fetch_result (e_api E) s m of (res, m1, s1) \<Rightarrow>
        if res = FETCH_RESULT_UB then None
        else if res = FETCH_RESULT_ERR then Some (False, [], s1)
        else (let m2 = m1\<lparr>m_response := find_response res\<rparr> in
          case send_message E k m2 of
            None \<Rightarrow> None
          | Some None \<Rightarrow> Some (False, [], s1)
          | Some (Some c) \<Rightarrow>
              if res = FETCH_RESULT_END \<or> res = FETCH_RESULT_END_MORE then Some (True, [c], s1)
              else map_option (\<lambda>(ok, cs, s2). (ok, c # cs, s2)) (shelf_find_loop E (Suc k) s1 m2)))"
  by pat_completeness auto

lemma shelf_fetch_cont:
  "srvdb_shelf_fetch_result api s m = (FETCH_RESULT_CONT, m1, s1) \<Longrightarrow>
     \<exists>row rows. res_ptr s = Some (row # rows) \<and> res_ptr s1 = Some rows"
  by (auto simp: srvdb_shelf_fetch_result_def Let_def split: option.splits list.splits if_splits)

termination shelf_find_loop
proof (relation "measure (\<lambda>(E, k, s, m). case res_ptr s of None \<Rightarrow> 0 | Some rows \<Rightarrow> length rows)", goal_cases)
  case (2 E k s m res p m1 s1 m2)
  then have "res = FETCH_RESULT_CONT" by (cases res) auto
  with 2 show ?case using shelf_fetch_cont [of "e_api E" s m m1 s1] by auto
qed simp

declare book_find_loop.simps [simp del] shelf_find_loop.simps [simp del]

text \<open>The operations whose answer is one message: the message and whether the operation succeeded.\<close>

definition verify_request :: "('db, 'k) env \<Rightarrow> 'db srv \<Rightarrow> message_cs \<Rightarrow> (bool \<times> message_cs \<times> 'db srv) option" where
  "verify_request E s m =
     (case srvdb_account_verify (e_api E) (e_crypt E) s m of
        None \<Rightarrow> None
      | Some (ok, m1, s1) \<Rightarrow>
          if \<not> ok then Some (False, m1, s1)
          else if hd (m_extra_info m1) = 1 then
            (case srvdb_user_archive_init (e_api E) (a_name (account_of m1)) s1 of (ok2, s2) \<Rightarrow>
               Some (ok2, m1, s2))
          else Some (True, m1, s1))"

definition simple_request :: "('db, 'k) env \<Rightarrow> 'db srv \<Rightarrow> message_cs \<Rightarrow> (bool \<times> message_cs \<times> 'db srv) option" where
  "simple_request E s m = (case m_request m of
       req_insert_book_e \<Rightarrow> Some (srvdb_book_insert (e_api E) s m)
     | req_delete_book_e \<Rightarrow> Some (srvdb_book_delete (e_api E) s m)
     | req_update_book_e \<Rightarrow> Some (srvdb_book_update (e_api E) s m)
     | req_count_book_e \<Rightarrow> srvdb_book_count (e_api E) s m
     | req_build_shelf_e \<Rightarrow> srvdb_shelf_build (e_api E) s m
     | req_remove_shelf_e \<Rightarrow> Some (srvdb_shelf_remove (e_api E) s m)
     | req_count_shelf_e \<Rightarrow> Some (srvdb_shelf_count (e_api E) s m)
     | req_verify_account_e \<Rightarrow> verify_request E s m
     | req_register_account_e \<Rightarrow> srvdb_account_register (e_api E) (e_crypt E) (e_entropy E) s m
     | _ \<Rightarrow> Some (False, m, s))"

definition set_rows :: "int \<Rightarrow> message_cs \<Rightarrow> message_cs" where
  "set_rows n m = m\<lparr>m_extra_info := n # drop 1 (m_extra_info m)\<rparr>"

definition find_request :: "(bool \<times> int \<times> 'db srv) \<Rightarrow> (nat \<Rightarrow> 'db srv \<Rightarrow> message_cs
    \<Rightarrow> (bool \<times> bytes list \<times> 'db srv) option) \<Rightarrow> ('db, 'k) env \<Rightarrow> message_cs
    \<Rightarrow> (bool \<times> bytes list \<times> 'db srv) option" where
  "find_request found loop E m =
     (case found of (ok, nrows, s1) \<Rightarrow>
        if \<not> ok then reply_last E (m\<lparr>m_response := r_failed\<rparr>) s1 else loop 0 s1 (set_rows nrows m))"

text \<open>The part of \<^verbatim>\<open>socket_srv_process_request\<close> after a message has been received and decrypted.\<close>

definition dispatch :: "('db, 'k) env \<Rightarrow> 'db srv \<Rightarrow> message_cs \<Rightarrow> (bool \<times> bytes list \<times> 'db srv) option" where
  "dispatch E s msg =
     (let m = msg\<lparr>m_response := r_success, m_error_text := ''''\<rparr> in
      case m_request m of
        req_find_book_e \<Rightarrow>
          (case srvdb_book_find (e_api E) s m of None \<Rightarrow> None
           | Some found \<Rightarrow> find_request found (book_find_loop E) E m)
      | req_find_shelf_e \<Rightarrow> find_request (srvdb_shelf_find (e_api E) s m) (shelf_find_loop E) E m
      | req_heartbeat_e \<Rightarrow> Some (False, [], s)
      | req_other_e n \<Rightarrow> Some (False, [], s)
      | _ \<Rightarrow>
          (case simple_request E s m of None \<Rightarrow> None
           | Some (ok, m1, s1) \<Rightarrow> reply_last E (if ok then m1 else m1\<lparr>m_response := r_failed\<rparr>) s1))"

definition err_received :: string where
  "err_received = ''Server recieved incorrect num(%d) of message.''"

text \<open>\<open>received\<close> is what \<^verbatim>\<open>recv\<close> delivers (\<^const>\<open>None\<close> on failure); \<open>m0\<close> is the uninitialised \<^verbatim>\<open>msg\<close> of the
  stack, which a packet of a wrong size makes the server send back.\<close>

definition socket_srv_process_request :: "('db, 'k) env \<Rightarrow> sock \<Rightarrow> bytes option \<Rightarrow> message_cs \<Rightarrow> 'db srv
    \<Rightarrow> (bool \<times> bytes list \<times> 'db srv) option" where
  "socket_srv_process_request E k received m0 s =
     (if server_sockfd k = -1 then Some (False, [], s)
      else case received of
        None \<Rightarrow> Some (False, [], s)
      | Some stream \<Rightarrow>
          if length stream = encrypt_size_hb then Some (True, [], s)
          else if length stream \<noteq> encrypted_size sizeof_message
          then reply_last E (m0\<lparr>m_response := r_failed, m_error_text := err_received\<rparr>) s
          else (case decrypt (e_lib E) (e_aes E) stream of
              None \<Rightarrow> None
            | Some (res, plain) \<Rightarrow>
                if res = -1 then Some (False, [], s) else dispatch E s (get_message plain)))"

section \<open>The descriptors\<close>

text \<open>\<open>sock_ok\<close>: the listening descriptor is recorded and \<^verbatim>\<open>max_fd_num\<close> bounds the recorded descriptors.
  \<open>ready_ok\<close>: a ready descriptor that the round has still to visit is recorded.  \<open>pending\<close>: the clients with
  data that the round has still to serve.\<close>

definition sock_ok :: "sock \<Rightarrow> bool" where
  "sock_ok k \<longleftrightarrow> 0 \<le> server_sockfd k \<and> server_sockfd k \<in> recordfds k \<and> (\<forall>fd \<in> recordfds k. 0 \<le> fd \<and> fd \<le> max_fd_num k)"

definition ready_ok :: "sock \<Rightarrow> bool" where
  "ready_ok k \<longleftrightarrow> (\<forall>fd \<in> readfds k. fd_loop k \<le> fd \<longrightarrow> fd \<in> recordfds k)"

definition pending :: "(int \<Rightarrow> int) \<Rightarrow> sock \<Rightarrow> int set" where
  "pending avail k = {fd \<in> readfds k. fd_loop k \<le> fd \<and> fd \<noteq> server_sockfd k \<and> avail fd \<noteq> 0}"

definition fetched :: "int \<Rightarrow> (int \<Rightarrow> int) \<Rightarrow> sock \<Rightarrow> fetch_fd \<Rightarrow> sock \<Rightarrow> bool" where
  "fetched acc avail k r k' \<longleftrightarrow> sock_ok k' \<and> server_sockfd k' = server_sockfd k \<and> readfds k' = readfds k \<and>
     (case r of SOCKET_FETCH_ERR \<Rightarrow> acc = -1
      | SOCKET_FETCH_END \<Rightarrow> pending avail k = {} \<and> fd_loop k' = 0
      | Fetch_fd fd \<Rightarrow> pending avail k = insert fd (pending avail k') \<and> (\<forall>x \<in> pending avail k'. fd < x) \<and> ready_ok k')"

lemma find_max_fd_from_None: "find_max_fd_from n fds = None \<Longrightarrow> 0 \<le> fd \<Longrightarrow> fd \<le> int n \<Longrightarrow> fd \<notin> fds"
proof (induction n)
  case 0
  then show ?case by (auto split: if_splits)
next
  case (Suc n)
  then show ?case by (cases "fd = int (Suc n)") (auto split: if_splits)
qed

lemma find_max_fd_from_max: "find_max_fd_from n fds = Some i \<Longrightarrow> fd \<in> fds \<Longrightarrow> fd \<le> int n \<Longrightarrow> 0 \<le> fd \<Longrightarrow> fd \<le> i"
proof (induction n)
  case (Suc n)
  then show ?case by (cases "fd = int (Suc n)") (auto split: if_splits)
qed (auto split: if_splits)

lemma find_max_fd_bound:
  assumes "fd \<in> fds" and "0 \<le> fd" and "fd \<le> m"
  shows "fd \<le> find_max_fd m fds"
  using assms find_max_fd_from_None [of "nat m" fds fd] find_max_fd_from_max [of "nat m" fds _ fd]
  by (auto simp: find_max_fd_def split: option.splits)

lemma sock_ok_accept:
  "sock_ok k \<Longrightarrow> 0 \<le> acc \<Longrightarrow> sock_ok (k\<lparr>recordfds := insert acc (recordfds k),
     max_fd_num := (if max_fd_num k < acc then acc else max_fd_num k), fd_loop := n\<rparr>)"
  by (auto simp: sock_ok_def)

lemma sock_ok_close:
  "sock_ok k \<Longrightarrow> fd \<noteq> server_sockfd k \<Longrightarrow> sock_ok (k\<lparr>recordfds := recordfds k - {fd},
     max_fd_num := find_max_fd (max_fd_num k) (recordfds k - {fd}), fd_loop := n\<rparr>)"
  by (auto simp: sock_ok_def find_max_fd_bound)

lemma pending_skip:
  "(fd_loop k \<in> readfds k \<Longrightarrow> fd_loop k = server_sockfd k \<or> avail (fd_loop k) = 0) \<Longrightarrow>
     pending avail (k\<lparr>recordfds := r, max_fd_num := m, fd_loop := fd_loop k + 1\<rparr>) = pending avail k"
  "fd_loop k \<notin> readfds k \<Longrightarrow> pending avail (k\<lparr>fd_loop := fd_loop k + 1\<rparr>) = pending avail k"
proof -
  have le: "n + 1 \<le> fd \<longleftrightarrow> n \<le> fd \<and> fd \<noteq> n" for n fd :: int by auto
  show "(fd_loop k \<in> readfds k \<Longrightarrow> fd_loop k = server_sockfd k \<or> avail (fd_loop k) = 0) \<Longrightarrow>
      pending avail (k\<lparr>recordfds := r, max_fd_num := m, fd_loop := fd_loop k + 1\<rparr>) = pending avail k"
    and "fd_loop k \<notin> readfds k \<Longrightarrow> pending avail (k\<lparr>fd_loop := fd_loop k + 1\<rparr>) = pending avail k"
    by (auto simp: pending_def le)
qed

lemma fetch_loop_fetched:
  "acc = -1 \<or> 0 \<le> acc \<Longrightarrow> sock_ok k \<Longrightarrow> ready_ok k \<Longrightarrow> fetch_loop acc avail k = (r, k') \<Longrightarrow> fetched acc avail k r k'"
proof (induction acc avail k arbitrary: r k' rule: fetch_loop.induct)
  case (1 acc avail k)
  let ?n = "fd_loop k"
  note run = "1.prems"(4) [unfolded fetch_loop.simps [of acc avail k]]
  have carry: "fetched acc avail k1 r k' \<Longrightarrow> pending avail k1 = pending avail k \<Longrightarrow> server_sockfd k1 = server_sockfd k
      \<Longrightarrow> readfds k1 = readfds k \<Longrightarrow> fetched acc avail k r k'" for k1
    by (cases r) (simp_all add: fetched_def)
  consider (over) "max_fd_num k < ?n" | (skip) "\<not> max_fd_num k < ?n" "?n \<notin> readfds k"
    | (listen) "\<not> max_fd_num k < ?n" "?n \<in> readfds k" "?n = server_sockfd k"
    | (gone) "\<not> max_fd_num k < ?n" "?n \<in> readfds k" "?n \<noteq> server_sockfd k" "avail ?n = 0"
    | (data) "\<not> max_fd_num k < ?n" "?n \<in> readfds k" "?n \<noteq> server_sockfd k" "avail ?n \<noteq> 0" by blast
  then show ?case
  proof cases
    case over
    then have "pending avail k = {}" using "1.prems"(2,3) by (fastforce simp: pending_def sock_ok_def ready_ok_def)
    with over run "1.prems"(2) show ?thesis by (auto simp: fetched_def sock_ok_def)
  next
    case skip
    let ?k = "k\<lparr>fd_loop := ?n + 1\<rparr>"
    have "sock_ok ?k" "ready_ok ?k" using "1.prems"(2,3) by (auto simp: sock_ok_def ready_ok_def)
    then have "fetched acc avail ?k r k'" using "1.IH"(3) [OF skip "1.prems"(1)] skip run by simp
    then show ?thesis by (rule carry) (use skip in \<open>simp_all add: pending_skip\<close>)
  next
    case listen
    show ?thesis
    proof (cases "acc = -1")
      case True
      with listen run "1.prems"(2) show ?thesis by (auto simp: fetched_def)
    next
      case False
      let ?k = "k\<lparr>recordfds := insert acc (recordfds k),
        max_fd_num := (if max_fd_num k < acc then acc else max_fd_num k), fd_loop := ?n + 1\<rparr>"
      have "sock_ok ?k" "ready_ok ?k" using "1.prems" False sock_ok_accept by (auto simp: ready_ok_def)
      then have "fetched acc avail ?k r k'" using "1.IH"(1) [OF listen False "1.prems"(1)] listen False run by simp
      then show ?thesis by (rule carry) (use pending_skip(1) listen in blast, simp_all)
    qed
  next
    case gone
    let ?k = "k\<lparr>recordfds := recordfds k - {?n}, max_fd_num := find_max_fd (max_fd_num k) (recordfds k - {?n}), fd_loop := ?n + 1\<rparr>"
    have "sock_ok ?k" "ready_ok ?k" using "1.prems"(2,3) sock_ok_close [OF "1.prems"(2) gone(3)] by (auto simp: ready_ok_def)
    then have "fetched acc avail ?k r k'" using "1.IH"(2) [OF gone refl "1.prems"(1)] gone run by (simp add: Let_def)
    then show ?thesis by (rule carry) (use gone in \<open>simp_all add: pending_skip\<close>)
  next
    case data
    then have r: "r = Fetch_fd ?n" "k' = k\<lparr>fd_loop := ?n + 1\<rparr>" using run by auto
    have "pending avail k = insert ?n (pending avail k')" using data r by (auto simp: pending_def)
    moreover have "sock_ok k'" "ready_ok k'" using "1.prems"(2,3) r by (auto simp: sock_ok_def ready_ok_def)
    ultimately show ?thesis using r by (auto simp: fetched_def pending_def)
  qed
qed


definition busy_sock :: sock where
  "busy_sock = \<lparr>server_sockfd = 3, readfds = {3, 4, 6}, recordfds = {3, 4, 5, 6}, max_fd_num = 6, fd_loop = 0\<rparr>"


end
