(* ===== verification/Server.thy ===== *)
theory Server
  imports Socketsrv
begin

unbundle bit_operations_syntax

text \<open>
  \<^verbatim>\<open>bsdqserver/srvshell.c\<close> and \<^verbatim>\<open>bsdqserver/bsdq_server.c\<close>: the command line, reading a password from the
  terminal, resetting the administrator's password, the start of the server and its main loop.  The main
  loop is the step relation \<open>srv_step\<close>; what the kernel answers in a step (\<^verbatim>\<open>select\<close>, \<^verbatim>\<open>accept\<close>, waiting bytes,
  received packet, random bytes, success of \<^verbatim>\<open>send\<close>) is arbitrary.
\<close>

section \<open>Command line and terminal\<close>

definition RESET_FLAG :: u8 where "RESET_FLAG = 0x80"
definition PASSWORD_FLAG :: u8 where "PASSWORD_FLAG = 0x40"
definition MAX_ARGV_LEN :: nat where "MAX_ARGV_LEN = MYSQL_PW_LEN"
definition MAX_ARGC_NUM :: nat where "MAX_ARGC_NUM = 8"

text \<open>The results of the successive calls of \<^verbatim>\<open>getopt_long\<close>; \<open>Opt_missing\<close> is the \<^verbatim>\<open>':'\<close> it returns for \<^verbatim>\<open>-p\<close>
  without an argument, which the switch ignores.\<close>

datatype getopt = Opt_h | Opt_a | Opt_p string | Opt_missing | Opt_unknown

text \<open>\<open>copy\<close> is the array \<^verbatim>\<open>argvlist\<close> as bytes; \<^verbatim>\<open>strncpy\<close> writes 16 of them and no terminator of its own.\<close>

fun get_option :: "getopt list \<Rightarrow> u8 \<Rightarrow> bytes \<Rightarrow> bool \<times> u8 \<times> bytes" where
  "get_option [] flag copy = (True, flag, copy)"
| "get_option (Opt_h # os) flag copy = (False, flag, copy)"
| "get_option (Opt_a # os) flag copy = get_option os (flag OR RESET_FLAG) copy"
| "get_option (Opt_p arg # os) flag copy =
     get_option os (flag OR PASSWORD_FLAG) (put_str MAX_ARGV_LEN arg @ drop MAX_ARGV_LEN copy)"
| "get_option (Opt_missing # os) flag copy = get_option os flag copy"
| "get_option (Opt_unknown # os) flag copy = (False, flag, copy)"

text \<open>\<^verbatim>\<open>strcpy\<close> of a byte array into a buffer of \<open>n\<close> bytes.\<close>

definition strcpy_from :: "nat \<Rightarrow> bytes \<Rightarrow> string option" where
  "strcpy_from n bs = (if NUL \<in> set bs \<and> length (get_str bs) < n then Some (get_str bs) else None)"

text \<open>\<^verbatim>\<open>fgets\<close> with a size of \<open>n\<close>: the line with its newline, or its first \<open>n - 1\<close> characters; at the end of the
  input the buffer keeps its text.\<close>

fun line_of :: "string \<Rightarrow> string" where
  "line_of [] = []"
| "line_of (c # cs) = (if c = CHR 0x0A then [c] else c # line_of cs)"

definition fgets :: "nat \<Rightarrow> string \<Rightarrow> string \<Rightarrow> string" where
  "fgets n input old = (if input = [] then old else take (n - 1) (line_of input))"

text \<open>The terminal's input is flushed before each password is read.  The last character is cut off
  whatever it is.\<close>

definition get_mysql_password :: "bool \<Rightarrow> string \<Rightarrow> string \<Rightarrow> string option" where
  "get_mysql_password tty_ok input old =
     (if \<not> tty_ok then Some old
      else (let p = fgets MYSQL_PW_LEN input old in if p = [] then None else Some (butlast p)))"

record reset_input =
  ri_tty :: bool
  ri_old :: string
  ri_new :: string
  ri_again :: string

definition reset_admin_password :: "'db mysql_api \<Rightarrow> crypt_api \<Rightarrow> entropy \<Rightarrow> reset_input \<Rightarrow> message_cs \<Rightarrow> 'db srv
    \<Rightarrow> (bool \<times> 'db srv) option" where
  "reset_admin_password api cr ent ri m0 s =
     (case get_mysql_password (ri_tty ri) (ri_old ri) '''' of
        None \<Rightarrow> None
      | Some pw \<Rightarrow>
          (let a = (account_of m0)\<lparr>a_type := account_admin_e, a_name := ADMIN_DEFAULT_ACCOUNT, a_password := pw\<rparr>;
               m = m0\<lparr>m_user := ADMIN_DEFAULT_ACCOUNT, m_request := req_verify_account_e, m_stuff := Account_un a\<rparr>
           in case srvdb_account_verify api cr s m of
                None \<Rightarrow> None
              | Some (ok, m1, s1) \<Rightarrow>
                  if \<not> ok then Some (False, s1)
                  else (case get_mysql_password (ri_tty ri) (ri_new ri) pw of
                      None \<Rightarrow> None
                    | Some p1 \<Rightarrow>
                        (case get_mysql_password (ri_tty ri) (ri_again ri) '''' of
                           None \<Rightarrow> None
                         | Some p2 \<Rightarrow>
                             if p1 \<noteq> p2 then Some (False, s1)
                             else map_option (\<lambda>(ok2, _, s2). (ok2, s2))
                               (srvdb_account_update api cr ent s1
                                  (m1\<lparr>m_stuff := Account_un ((account_of m1)\<lparr>a_password := p2\<rparr>)\<rparr>))))))"

section \<open>Start\<close>

text \<open>What the server finds at its start: the options, the content of the stack behind \<^verbatim>\<open>argvlist\<close>, the
  terminal, the outcome of the socket calls and the key file.\<close>

record main_env =
  me_opts :: "getopt list"
  me_argv :: bytes
  me_tty :: bool
  me_input :: string
  me_reset :: reset_input
  me_msg :: message_cs
  me_fd :: int
  me_setopt :: bool
  me_bound :: bool
  me_listening :: bool
  me_keyfile :: "string option"
  me_junk :: "int list"

datatype 'a start = Exit_success "'a" | Exit_failure "'a" | Running "'a" sock aes_state

definition main_password :: "main_env \<Rightarrow> u8 \<Rightarrow> bytes \<Rightarrow> string option" where
  "main_password me flag argv =
     (if flag AND PASSWORD_FLAG \<noteq> 0 then strcpy_from (MYSQL_PW_LEN + 1) argv
      else get_mysql_password (me_tty me) (me_input me) '''')"

definition main_sockets :: "main_env \<Rightarrow> 'db mysql_api \<Rightarrow> sock \<Rightarrow> aes_state \<Rightarrow> 'db srv \<Rightarrow> 'db srv start" where
  "main_sockets me api k a s =
     (let opened = me_fd me \<noteq> -1 \<and> me_setopt me \<and> me_bound me \<and> me_listening me;
          (aes_ok, a1) = (if opened then AES_init (me_keyfile me) (me_junk me) a else (False, a));
          (ok, k1) = socket_srv_init (me_fd me) (me_setopt me) (me_bound me) (me_listening me) aes_ok k
      in if \<not> ok then Exit_failure (srvdb_close api s) else Running s k1 a1)"

definition server_main :: "main_env \<Rightarrow> 'db mysql_api \<Rightarrow> crypt_api \<Rightarrow> entropy \<Rightarrow> sock \<Rightarrow> aes_state \<Rightarrow> 'db srv
    \<Rightarrow> 'db srv start option" where
  "server_main me api cr ent k a s =
     (case get_option (me_opts me) 0 (me_argv me) of (go, flag, argv) \<Rightarrow>
        if \<not> go then Some (Exit_success s)
        else case main_password me flag argv of
          None \<Rightarrow> None
        | Some pw \<Rightarrow>
            (case srvdb_init api s of (ok1, s1) \<Rightarrow>
               if \<not> ok1 then Some (Exit_failure s1)
               else case srvdb_connect api ''127.0.0.1'' pw 0 s1 of (ok2, s2) \<Rightarrow>
                 if \<not> ok2 then Some (Exit_failure s2)
                 else case srvdb_accounts_table_init api cr ent (me_msg me) s2 of
                   None \<Rightarrow> None
                 | Some (ok3, s3) \<Rightarrow>
                     if \<not> ok3 then Some (Exit_failure (srvdb_close api s3))
                     else if flag AND RESET_FLAG \<noteq> 0 then
                       map_option (\<lambda>(_, s4). Exit_success (srvdb_close api s4))
                         (reset_admin_password api cr ent (me_reset me) (me_msg me) s3)
                     else Some (main_sockets me api k a s3)))"

section \<open>The main loop\<close>

datatype phase = Waiting | Fetching | Exited

record 'db server =
  sv_phase :: phase
  sv_sock :: sock
  sv_db :: "'db srv"

text \<open>The handler of \<^verbatim>\<open>SIGINT\<close>, taken here between two steps.\<close>

definition safty_exit :: "'db mysql_api \<Rightarrow> 'db server \<Rightarrow> 'db server" where
  "safty_exit api v = v\<lparr>sv_phase := Exited, sv_sock := socket_srv_close (sv_sock v), sv_db := srvdb_close api (sv_db v)\<rparr>"

text \<open>\<open>P\<close> limits what the clients send: the packets for which it holds.\<close>

inductive srv_step :: "('db, 'k) env \<Rightarrow> (bytes option \<Rightarrow> bool) \<Rightarrow> 'db server \<Rightarrow> 'db server \<Rightarrow> bool" for E P where
  wait_ok: "sv_phase v = Waiting \<Longrightarrow> socket_srv_wait sel (sv_sock v) = (True, k) \<Longrightarrow>
      srv_step E P v (v\<lparr>sv_phase := Fetching, sv_sock := k\<rparr>)"
| wait_failed: "sv_phase v = Waiting \<Longrightarrow> socket_srv_wait sel (sv_sock v) = (False, k) \<Longrightarrow>
      srv_step E P v (v\<lparr>sv_phase := Exited, sv_sock := k, sv_db := srvdb_close (e_api E) (sv_db v)\<rparr>)"
| round_end: "sv_phase v = Fetching \<Longrightarrow> socket_srv_fetch_client acc avail (sv_sock v) = (SOCKET_FETCH_END, k) \<Longrightarrow>
      srv_step E P v (v\<lparr>sv_phase := Waiting, sv_sock := k\<rparr>)"
| round_err: "sv_phase v = Fetching \<Longrightarrow> socket_srv_fetch_client acc avail (sv_sock v) = (SOCKET_FETCH_ERR, k) \<Longrightarrow>
      srv_step E P v (v\<lparr>sv_phase := Exited, sv_sock := k, sv_db := srvdb_close (e_api E) (sv_db v)\<rparr>)"
| serve: "sv_phase v = Fetching \<Longrightarrow> socket_srv_fetch_client acc avail (sv_sock v) = (Fetch_fd fd, k) \<Longrightarrow> P received \<Longrightarrow>
      socket_srv_process_request (E\<lparr>e_entropy := ent, e_send_ok := sends\<rparr>) k received m0 (sv_db v) = Some (res, frames, s) \<Longrightarrow>
      srv_step E P v (v\<lparr>sv_sock := k, sv_db := s\<rparr>)"
| sigint: "sv_phase v \<noteq> Exited \<Longrightarrow> srv_step E P v (safty_exit (e_api E) v)"

inductive_cases srv_stepE: "srv_step E P v v'"

end
