(* ===== verification/Db_Invariant.thy ===== *)
theory Db_Invariant
  imports Server
begin

text \<open>
  The invariant of the stored data over everything the server does.  \<open>db_ok\<close>: in every table of books
  and of shelves the numbers are 1 to the number of rows, each once and within its limit, the states
  are known, and the account table exists with distinct names.  Every request whose texts stay inside
  their literals (\<open>clean_request\<close>) keeps it, whatever the database, the network and the kernel answer,
  and so does the main loop.
\<close>

definition db_ok :: "dialect \<Rightarrow> database \<Rightarrow> bool" where
  "db_ok dia d \<longleftrightarrow> (\<forall>t rows. books d t = Some rows \<longrightarrow> books_ok rows)
     \<and> (\<forall>t rows. shelves d t = Some rows \<longrightarrow> shelves_ok rows)
     \<and> (\<exists>rows. accounts d = Some rows \<and> accounts_ok dia rows)"

definition clean_request :: "message_cs \<Rightarrow> bool" where
  "clean_request m \<longleftrightarrow> (case m_request m of
       req_insert_book_e \<Rightarrow> book_req_ok m
     | req_update_book_e \<Rightarrow> book_req_ok m \<or> ident (m_user m) \<and> whole_shelf m
     | req_delete_book_e \<Rightarrow> ident (m_user m)
     | req_find_book_e \<Rightarrow> ident (m_user m)
     | req_count_book_e \<Rightarrow> ident (m_user m)
     | req_build_shelf_e \<Rightarrow> shelf_req_ok m
     | req_remove_shelf_e \<Rightarrow> ident (m_user m)
     | req_find_shelf_e \<Rightarrow> ident (m_user m)
     | req_count_shelf_e \<Rightarrow> ident (m_user m)
     | req_verify_account_e \<Rightarrow> ident (a_name (account_of m))
     | _ \<Rightarrow> True)"

lemma db_okD:
  assumes "db_ok dia d"
  shows "books d t = Some rows \<Longrightarrow> books_ok rows" and "shelves d t = Some hs \<Longrightarrow> shelves_ok hs"
    and "\<exists>rows. accounts d = Some rows \<and> accounts_ok dia rows"
  using assms by (auto simp: db_ok_def)

lemma accounts_with_tables [simp]:
  "accounts (with_books d t rows) = accounts d" "shelves (with_books d t rows) = shelves d"
  "accounts (with_shelves d t hs) = accounts d"
  by (simp_all add: with_books_def with_shelves_def)

lemma db_ok_with:
  "db_ok dia d \<Longrightarrow> books_ok rows \<Longrightarrow> db_ok dia (with_books d t rows)"
  "db_ok dia d \<Longrightarrow> shelves_ok hs \<Longrightarrow> db_ok dia (with_shelves d t hs)"
  "db_ok dia d \<Longrightarrow> accounts_ok dia as \<Longrightarrow> db_ok dia (with_accounts d as)"
  by (auto simp: db_ok_def split: if_splits)

lemma empty_tables_ok: "books_ok []" "shelves_ok []"
  by (simp_all add: books_ok_def shelves_ok_def limits)

section \<open>Statements\<close>

text \<open>A statement on a table that does not exist is an error; a query changes nothing.\<close>

lemma missing_table:
  "books d t = None \<Longrightarrow> on_books t d f = (Q_err 1146, d)"
  "shelves d t = None \<Longrightarrow> on_shelves t d g = (Q_err 1146, d)"
  by (simp_all add: on_books_def on_shelves_def)

fun is_select :: "stmt \<Rightarrow> bool" where
  "is_select (Select_books star t w n) = True"
| "is_select (Select_book_no star t n) = True"
| "is_select (Select_shelf star t n c k) = True"
| "is_select (Select_shelves star t n c k) = True"
| "is_select _ = False"

lemma on_table_unchanged:
  "(\<And>rows. snd (f rows) = rows) \<Longrightarrow> snd (on_books t d f) = d"
  "(\<And>rows. snd (g rows) = rows) \<Longrightarrow> snd (on_shelves t d g) = d"
  by (cases "books d t"; simp add: on_books_Some missing_table with_books_same)
     (cases "shelves d t"; simp add: on_shelves_Some missing_table with_shelves_same)

lemma select_unchanged: "is_select st \<Longrightarrow> snd (sql_exec dia st d) = d"
  by (cases st) (simp_all add: sql_exec.simps on_table_unchanged)

lemma keyword_plan_select:
  "(\<And>n a l. k n a l = Find_stmt st auto \<Longrightarrow> is_select st) \<Longrightarrow> keyword_plan api b k = Find_stmt st auto \<Longrightarrow> is_select st"
  by (auto simp: keyword_plan_def split: if_splits option.splits)

lemma plan_select: "book_find_plan api m = Find_stmt st auto \<Longrightarrow> is_select st"
  unfolding book_find_plan_def Let_def
  by (auto split: if_splits elim!: keyword_plan_select [rotated])

context mysql_server
begin

lemma query_missing:
  assumes "mysql_query api s st = (r, s')" and "stmt_in_scope st" and "sql_exec dia st (data s) = (Q_err e, data s)"
  shows "is_err r" and "data s' = data s"
  using query_cases [OF assms(2,1)] assms(3) by auto

lemma query_select:
  assumes "mysql_query api s st = (r, s')" and "stmt_in_scope st" and "is_select st"
  shows "data s' = data s"
  using query_cases [OF assms(2,1)] select_unchanged [OF assms(3), of dia "data s"]
  by (metis snd_conv)

section \<open>Requests on books\<close>

lemma book_find_keeps:
  assumes "ident (m_user m)" and run: "srvdb_book_find api s m = Some (ok, n, s')"
  shows "data s' = data s"
proof (cases "m_user m = '''' \<or> book_find_plan api m = Find_format_error")
  case True
  with run show ?thesis by (auto simp: srvdb_book_find_def split: find_plan.splits if_splits)
next
  case False
  then obtain st auto where plan: "book_find_plan api m = Find_stmt st auto"
    using run by (auto simp: srvdb_book_find_def split: find_plan.splits if_splits)
  obtain r s1 where q: "mysql_query api s st = (r, s1)" by fastforce
  have "data s1 = data s"
    using query_select [OF q plan_in_scope [OF assms(1) plan] plan_select [OF plan]] .
  with run plan q False show ?thesis
    by (auto simp: srvdb_book_find_def store_result_def split: if_splits option.splits reply.splits)
qed

lemma count_step_cases:
  assumes "count_step api s m k = Some (ok, m', s')" and "ident (m_user m)"
  obtains "data s' = data s" | n s1 where "k n s1 = Some (ok, m', s')" and "data s1 = data s"
  using assms(1) book_find_keeps [OF assms(2)]
  by (auto simp: count_step_def split: option.splits if_splits)

lemma book_count_keeps:
  assumes "srvdb_book_count api s m = Some (ok, m', s')" and "ident (m_user m)"
  shows "data s' = data s"
  using assms(1) unfolding srvdb_book_count_def Let_def
  by (elim count_step_cases) (simp_all add: assms(2))

lemma book_insert_keeps:
  assumes ok: "db_ok dia (data s)" and req: "book_req_ok m" and run: "srvdb_book_insert api s m = (done, m', s')"
  shows "db_ok dia (data s')"
proof (cases "books (data s) (book_table m)")
  case (Some rows)
  from book_insert_effect [OF req run Some db_okD(1) [OF ok Some]] show ?thesis
    by cases (simp_all add: ok db_ok_with)
next
  case None
  note miss = query_missing [where e = 1146]
  obtain r s1 where q1: "mysql_query api s (Select_min_bookno (book_table m) BOOK_DEL) = (r, s1)" by fastforce
  have 1: "is_err r" "data s1 = data s"
    using miss [OF q1] book_req_okD(3) [OF req] None by (simp_all add: sql_exec.simps missing_table)
  let ?s1 = "mysql_check_connection api s1"
  obtain r2 s2 where q2: "mysql_query api ?s1 (Select_max_bookno (book_table m)) = (r2, s2)" by fastforce
  have 2: "is_err r2" "data s2 = data s"
    using miss [OF q2] book_req_okD(3) [OF req] None 1 by (simp_all add: sql_exec.simps missing_table)
  have "data s' = data s"
    using run q1 q2 1 2 book_req_okD(1) [OF req]
    by (auto simp: srvdb_book_insert_def book_insert_reuse_def book_insert_number_def)
  with ok show ?thesis by simp
qed

text \<open>A handler that runs one statement and reports whether it succeeded.\<close>

lemma one_statement:
  assumes run: "(case mysql_query api s st of (r, s1) \<Rightarrow>
      if \<not> is_err r then (True, m, s1) else (False, m, mysql_check_connection api s1)) = (done, m', s')"
    and "stmt_in_scope st" and "sql_exec dia st (data s) = (x, d')"
  shows "data s' = data s \<or> data s' = d'"
proof -
  obtain r s1 where q: "mysql_query api s st = (r, s1)" by fastforce
  have "data s1 = data s \<or> data s1 = d'"
    using query_cases [OF assms(2) q] assms(3) by (metis snd_conv)
  with q run show ?thesis by (auto split: if_splits)
qed

lemma book_update_keeps:
  assumes ok: "db_ok dia (data s)" and req: "book_req_ok m \<or> ident (m_user m) \<and> whole_shelf m"
    and run: "srvdb_book_update api s m = (done, m', s')"
  shows "db_ok dia (data s')"
proof -
  have usr: "ident (m_user m)" using req by (auto simp: book_req_ok_def)
  have scope: "stmt_in_scope (book_update_stmt api m)"
    using req ident_book_table [OF usr] book_args_ok [of m]
    by (auto simp: book_update_stmt_def whole_shelf_def)
  have body: "(case mysql_query api s (book_update_stmt api m) of (r, s1) \<Rightarrow>
      if \<not> is_err r then (True, m, s1) else (False, m, mysql_check_connection api s1)) = (done, m', s')"
    using run ident_nonempty [OF usr] by (simp add: srvdb_book_update_def)
  show ?thesis
  proof (cases "books (data s) (book_table m)")
    case (Some rows)
    show ?thesis
    proof (cases "whole_shelf m")
      case True
      let ?rows = "map (\<lambda>r. if r_shelfno r = code0 (book_of m) then r\<lparr>r_cleaned := BOOK_UNSORTED\<rparr> else r) rows"
      have "snd (sql_exec dia (book_update_stmt api m) (data s)) = with_books (data s) (book_table m) ?rows"
        using True Some by (simp add: book_update_stmt_def whole_shelf_def sql_exec.simps on_books_Some updated_def
            update_where_def)
      then have "data s' = data s \<or> data s' = with_books (data s) (book_table m) ?rows"
        using one_statement [OF body scope surjective_pairing] by simp
      then show ?thesis
        using ok books_ok_clean [OF db_okD(1) [OF ok Some], of BOOK_UNSORTED]
        by (auto intro!: db_ok_with(1) [OF ok])
    next
      case False
      then have "book_req_ok m" using req by blast
      from book_update_effect [OF this run Some db_okD(1) [OF ok Some]] False show ?thesis
        by cases (simp_all add: ok db_ok_with)
    qed
  next
    case None
    then have "sql_exec dia (book_update_stmt api m) (data s) = (Q_err 1146, data s)"
      by (simp add: book_update_stmt_def sql_exec.simps missing_table)
    then have "data s' = data s"
      using one_statement [OF body scope] by blast
    with ok show ?thesis by simp
  qed
qed

lemma book_delete_keeps:
  assumes ok: "db_ok dia (data s)" and usr: "ident (m_user m)" and run: "srvdb_book_delete api s m = (done, m', s')"
  shows "db_ok dia (data s')"
proof (cases "books (data s) (book_table m)")
  case (Some rows)
  from book_delete_effect [OF usr run Some db_okD(1) [OF ok Some]] show ?thesis
    by cases (simp_all add: ok db_ok_with)
next
  case None
  have scope: "stmt_in_scope (book_delete_stmt m)"
    using ident_book_table [OF usr] by (auto simp: book_delete_stmt_def)
  have body: "(case mysql_query api s (book_delete_stmt m) of (r, s1) \<Rightarrow>
      if \<not> is_err r then (True, m, s1) else (False, m, mysql_check_connection api s1)) = (done, m', s')"
    using run ident_nonempty [OF usr] by (simp add: srvdb_book_delete_def)
  have "sql_exec dia (book_delete_stmt m) (data s) = (Q_err 1146, data s)"
    using None by (simp add: book_delete_stmt_def sql_exec.simps missing_table)
  then have "data s' = data s" using one_statement [OF body scope] by blast
  with ok show ?thesis by simp
qed

section \<open>Requests on shelves\<close>

lemma shelf_find_keeps:
  assumes "ident (m_user m)" and run: "srvdb_shelf_find api s m = (ok, n, s')"
  shows "data s' = data s"
proof -
  obtain r s1 where q: "mysql_query api s (shelf_find_stmt m) = (r, s1)" by fastforce
  have "data s1 = data s"
    using query_select [OF q] ident_shelf_table [OF assms(1)]
    by (simp add: shelf_find_stmt_def Let_def split: if_splits)
  with run q show ?thesis
    by (auto simp: srvdb_shelf_find_def store_result_def split: if_splits option.splits reply.splits)
qed

lemma shelf_count_keeps:
  assumes "ident (m_user m)" and run: "srvdb_shelf_count api s m = (ok, m', s')"
  shows "data s' = data s"
proof -
  let ?m = "set_shelf ((shelf_of m)\<lparr>s_code := BREAK_LIMIT_INT\<rparr>) m"
  obtain f n s1 where "srvdb_shelf_find api s ?m = (f, n, s1)" by (metis prod_cases3)
  with shelf_find_keeps [of ?m s f n s1] assms show ?thesis
    by (auto simp: srvdb_shelf_count_def Let_def split: if_splits)
qed

lemma shelf_remove_keeps:
  assumes ok: "db_ok dia (data s)" and usr: "ident (m_user m)" and run: "srvdb_shelf_remove api s m = (done, m', s')"
  shows "db_ok dia (data s')"
proof (cases "shelves (data s) (shelf_table m)")
  case (Some rows)
  from remove_refined [OF usr Some db_okD(2) [OF ok Some]] run show ?thesis
    by (auto split: if_splits intro: db_ok_with(2) [OF ok] ok)
next
  case None
  let ?st = "Update_shelf_cleaned (shelf_table m) SHELF_DEL (s_code (shelf_of m))"
  have body: "(case mysql_query api s ?st of (r, s1) \<Rightarrow>
      if \<not> is_err r then (True, m, s1) else (False, m, mysql_check_connection api s1)) = (done, m', s')"
    using run ident_nonempty [OF usr] by (simp add: srvdb_shelf_remove_def)
  have scope: "stmt_in_scope ?st" using ident_shelf_table [OF usr] by simp
  have "sql_exec dia ?st (data s) = (Q_err 1146, data s)"
    using None by (simp add: sql_exec.simps missing_table)
  then have "data s' = data s" using one_statement [OF body scope] by blast
  with ok show ?thesis by simp
qed

lemma shelf_build_keeps:
  assumes ok: "db_ok dia (data s)" and req: "shelf_req_ok m" and run: "srvdb_shelf_build api s m = Some (done, m', s')"
  shows "db_ok dia (data s')"
proof (cases "shelves (data s) (shelf_table m)")
  case (Some rows)
  from shelf_build_effect [OF req run Some db_okD(2) [OF ok Some]] show ?thesis
    by cases (simp_all add: ok db_ok_with)
next
  case None
  have usr: "ident (m_user m)" using req by (simp add: shelf_req_ok_def)
  note miss = query_missing [where e = 1146]
  obtain r s1 where q1: "mysql_query api s (Select_min_shelfno (shelf_table m) SHELF_DEL) = (r, s1)" by fastforce
  have 1: "is_err r" "data s1 = data s"
    using miss [OF q1] ident_shelf_table [OF usr] None by (simp_all add: sql_exec.simps missing_table)
  let ?s1 = "mysql_check_connection api s1"
  obtain r2 s2 where q2: "mysql_query api ?s1 (Select_max_shelfno (shelf_table m)) = (r2, s2)" by fastforce
  have 2: "is_err r2" "data s2 = data s"
    using miss [OF q2] ident_shelf_table [OF usr] None 1 by (simp_all add: sql_exec.simps missing_table)
  have "data s' = data s"
    using run q1 q2 1 2 ident_nonempty [OF usr]
    by (auto simp: srvdb_shelf_build_def shelf_build_reuse_def shelf_build_number_def split: option.splits)
  with ok show ?thesis by simp
qed

section \<open>Accounts\<close>

lemma register_keeps:
  assumes ok: "db_ok dia (data s)" and run: "srvdb_account_register api cr ent s m = Some (done, m', s')"
  shows "db_ok dia (data s')"
proof -
  obtain rows where rows: "accounts (data s) = Some rows" "accounts_ok dia rows" using db_okD(3) [OF ok] by blast
  from register_effect [OF run rows(1)] show ?thesis
  proof cases
    case 1
    with ok show ?thesis by simp
  next
    case (2 h)
    then show ?thesis using accounts_ok_register [OF rows(2)] by (simp add: db_ok_with(3) [OF ok])
  qed
qed

lemma create_table_keeps:
  assumes ok: "db_ok dia (data s)" and q: "mysql_query api s st = (r, s')"
    and st: "st = Create_shelves t \<or> st = Create_books t" and "ident t"
  shows "db_ok dia (data s')"
proof -
  have scope: "stmt_in_scope st" using st assms(4) by auto
  from query_cases [OF scope q] show ?thesis
  proof cases
    case 1
    with ok show ?thesis by simp
  next
    case 2
    then have "data s' = snd (sql_exec dia st (data s))" by (metis snd_conv)
    with st ok show ?thesis by (auto simp: sql_exec.simps db_ok_def empty_tables_ok split: if_splits)
  qed
qed

lemma archive_init_keeps:
  assumes ok: "db_ok dia (data s)" and "ident u" and run: "srvdb_user_archive_init api u s = (done, s')"
  shows "db_ok dia (data s')"
proof -
  have id: "ident (u @ ''_shelves'')" "ident (u @ ''_books'')"
    using assms(2) by (auto simp: ident_def is_digit_def)
  obtain r s1 where q1: "mysql_query api s (Create_shelves (u @ ''_shelves'')) = (r, s1)" by fastforce
  obtain r2 s2 where q2: "mysql_query api s1 (Create_books (u @ ''_books'')) = (r2, s2)" by fastforce
  have 1: "db_ok dia (data s1)" by (rule create_table_keeps [OF ok q1 _ id(1)]) simp
  then have "db_ok dia (data s2)" by (rule create_table_keeps [OF _ q2 _ id(2)]) simp
  with 1 run q1 q2 show ?thesis by (auto simp: srvdb_user_archive_init_def split: if_splits)
qed

end

section \<open>All requests\<close>

lemma verify_stuff:
  "srvdb_account_verify api cr s m = Some (ok, m', s') \<Longrightarrow> m_stuff m' = m_stuff m"
  by (auto simp: srvdb_account_verify_def verify_type_def Let_def split: if_splits option.splits prod.splits sum.splits)

lemma fetch_conn:
  "srvdb_book_fetch_result api s m = (res, m', s') \<Longrightarrow> my_connection s' = my_connection s"
  "srvdb_shelf_fetch_result api s m = (res, m', s') \<Longrightarrow> my_connection s' = my_connection s"
  by (auto simp: srvdb_book_fetch_result_def srvdb_shelf_fetch_result_def Let_def srvdb_free_result_def
      split: option.splits list.splits if_splits)

lemma reply_last_conn: "reply_last E m s = Some (ok, fs, s') \<Longrightarrow> s' = s"
  by (auto simp: reply_last_def split: option.splits)

lemma book_find_loop_conn:
  "book_find_loop E k s m = Some (ok, fs, s') \<Longrightarrow> my_connection s' = my_connection s"
proof (induction E k s m arbitrary: ok fs s' rule: book_find_loop.induct)
  case (1 E k s m)
  obtain res m1 s1 where f: "srvdb_book_fetch_result (e_api E) s m = (res, m1, s1)" by (metis prod_cases3)
  note c = fetch_conn(1) [OF f]
  show ?case
  proof (cases "res = FETCH_RESULT_CONT \<and> (\<exists>c. send_message E k (m1\<lparr>m_response := find_response res\<rparr>) = Some (Some c))")
    case True
    then obtain c' where snd: "send_message E k (m1\<lparr>m_response := find_response res\<rparr>) = Some (Some c')" and r: "res = FETCH_RESULT_CONT"
      by blast
    then obtain fs' where "book_find_loop E (Suc k) s1 (m1\<lparr>m_response := find_response res\<rparr>) = Some (ok, fs', s')"
      using "1.prems" f by (auto simp: book_find_loop.simps [of E k s m] Let_def split: prod.splits)
    with "1.IH" [OF f [symmetric] refl _ _ refl snd refl] r c show ?thesis by auto
  next
    case False
    with "1.prems" f c show ?thesis
      by (cases res) (auto simp: book_find_loop.simps [of E k s m] Let_def split: option.splits)
  qed
qed

lemma shelf_find_loop_conn:
  "shelf_find_loop E k s m = Some (ok, fs, s') \<Longrightarrow> my_connection s' = my_connection s"
proof (induction E k s m arbitrary: ok fs s' rule: shelf_find_loop.induct)
  case (1 E k s m)
  obtain res m1 s1 where f: "srvdb_shelf_fetch_result (e_api E) s m = (res, m1, s1)" by (metis prod_cases3)
  note c = fetch_conn(2) [OF f]
  show ?case
  proof (cases "res = FETCH_RESULT_CONT \<and> (\<exists>c. send_message E k (m1\<lparr>m_response := find_response res\<rparr>) = Some (Some c))")
    case True
    then obtain c' where snd: "send_message E k (m1\<lparr>m_response := find_response res\<rparr>) = Some (Some c')" and r: "res = FETCH_RESULT_CONT"
      by blast
    then obtain fs' where "shelf_find_loop E (Suc k) s1 (m1\<lparr>m_response := find_response res\<rparr>) = Some (ok, fs', s')"
      using "1.prems" f by (auto simp: shelf_find_loop.simps [of E k s m] Let_def split: prod.splits)
    with "1.IH" [OF f [symmetric] refl _ _ refl snd refl] r c show ?thesis by auto
  next
    case False
    with "1.prems" f c show ?thesis
      by (cases res) (auto simp: shelf_find_loop.simps [of E k s m] Let_def split: option.splits)
  qed
qed

context mysql_server
begin

lemma data_same_conn: "my_connection s' = my_connection s \<Longrightarrow> data s' = data s"
  by (simp add: data_def)

lemma verify_request_keeps:
  assumes ok: "db_ok dia (data s)" and api: "e_api E = api" and id: "ident (a_name (account_of m))"
    and run: "verify_request E s m = Some (done, m', s')"
  shows "db_ok dia (data s')"
proof -
  obtain rows where rows: "accounts (data s) = Some rows" using db_okD(3) [OF ok] by blast
  obtain v m1 s1 where ver: "srvdb_account_verify api (e_crypt E) s m = Some (v, m1, s1)"
    using run api by (auto simp: verify_request_def split: option.splits)
  have "data s1 = data s" using verify_effect [OF ver rows] by blast
  then have ok1: "db_ok dia (data s1)" using ok by simp
  obtain i s2 where ini: "srvdb_user_archive_init api (a_name (account_of m1)) s1 = (i, s2)" by fastforce
  have "db_ok dia (data s2)"
    by (rule archive_init_keeps [OF ok1 _ ini]) (use id verify_stuff [OF ver] in simp)
  with ok1 run ver ini api show ?thesis by (auto simp: verify_request_def split: if_splits)
qed

lemma simple_request_keeps:
  assumes ok: "db_ok dia (data s)" and api: "e_api E = api" and clean: "clean_request m"
    and run: "simple_request E s m = Some (done, m', s')"
  shows "db_ok dia (data s')"
  using run clean ok
    book_insert_keeps [OF ok] book_delete_keeps [OF ok] book_update_keeps [OF ok] book_count_keeps
    shelf_build_keeps [OF ok] shelf_remove_keeps [OF ok] shelf_count_keeps register_keeps [OF ok]
    verify_request_keeps [OF ok api]
  by (cases "m_request m") (auto simp: simple_request_def clean_request_def api)

lemma find_request_keeps:
  assumes "find_request (f, n, s1) loop E m = Some (done, fs, s')" and "data s1 = data s"
    and "\<And>k s m ok fs s'. loop k s m = Some (ok, fs, s') \<Longrightarrow> my_connection s' = my_connection s"
  shows "data s' = data s"
  using assms reply_last_conn by (fastforce simp: find_request_def data_def split: if_splits)

lemma clean_answer: "clean_request (msg\<lparr>m_response := r, m_error_text := t\<rparr>) = clean_request msg"
  by (cases "m_request msg") (simp_all add: clean_request_def book_req_ok_def shelf_req_ok_def whole_shelf_def)

lemma dispatch_keeps:
  assumes ok: "db_ok dia (data s)" and api: "e_api E = api" and clean: "clean_request msg"
    and run: "dispatch E s msg = Some (done, fs, s')"
  shows "db_ok dia (data s')"
proof -
  let ?m = "msg\<lparr>m_response := r_success, m_error_text := ''''\<rparr>"
  have c: "clean_request ?m" using clean clean_answer by simp
  consider (book) "m_request ?m = req_find_book_e" | (shelf) "m_request ?m = req_find_shelf_e"
    | (none) "m_request ?m = req_heartbeat_e \<or> (\<exists>n. m_request ?m = req_other_e n)"
    | (one) "m_request ?m \<notin> {req_find_book_e, req_find_shelf_e, req_heartbeat_e}" "\<forall>n. m_request ?m \<noteq> req_other_e n"
    by auto
  then show ?thesis
  proof cases
    case book
    then obtain f n s1 where fnd: "srvdb_book_find api s ?m = Some (f, n, s1)"
      and l: "find_request (f, n, s1) (book_find_loop E) E ?m = Some (done, fs, s')"
      using run api by (auto simp: dispatch_def Let_def split: option.splits)
    have "data s1 = data s" by (rule book_find_keeps [OF _ fnd]) (use c book in \<open>simp add: clean_request_def\<close>)
    then have "data s' = data s" by (rule find_request_keeps [OF l]) (rule book_find_loop_conn)
    with ok show ?thesis by simp
  next
    case shelf
    obtain f n s1 where fnd: "srvdb_shelf_find api s ?m = (f, n, s1)" by (metis prod_cases3)
    then have l: "find_request (f, n, s1) (shelf_find_loop E) E ?m = Some (done, fs, s')"
      using run shelf api by (simp add: dispatch_def Let_def)
    have "data s1 = data s" by (rule shelf_find_keeps [OF _ fnd]) (use c shelf in \<open>simp add: clean_request_def\<close>)
    then have "data s' = data s" by (rule find_request_keeps [OF l]) (rule shelf_find_loop_conn)
    with ok show ?thesis by simp
  next
    case none
    with run ok show ?thesis by (auto simp: dispatch_def Let_def)
  next
    case one
    then obtain o1 m1 s1 where sr: "simple_request E s ?m = Some (o1, m1, s1)"
      and r: "reply_last E (if o1 then m1 else m1\<lparr>m_response := r_failed\<rparr>) s1 = Some (done, fs, s')"
      using run by (cases "m_request msg") (auto simp: dispatch_def Let_def split: option.splits)
    show ?thesis using simple_request_keeps [OF ok api c sr] reply_last_conn [OF r] by simp
  qed
qed

end

text \<open>The packets whose content is a clean request.\<close>

definition clean_packet :: "('db, 'k) env \<Rightarrow> bytes option \<Rightarrow> bool" where
  "clean_packet E received \<longleftrightarrow> (case received of None \<Rightarrow> True | Some stream \<Rightarrow>
     (case decrypt (e_lib E) (e_aes E) stream of None \<Rightarrow> True
      | Some (res, plain) \<Rightarrow> res = -1 \<or> clean_request (get_message plain)))"

context mysql_server
begin

lemma process_request_keeps:
  assumes ok: "db_ok dia (data s)" and api: "e_api E = api" and clean: "clean_packet E received"
    and run: "socket_srv_process_request E k received m0 s = Some (done, fs, s')"
  shows "db_ok dia (data s')"
proof (cases "received")
  case (Some stream)
  show ?thesis
  proof (cases "server_sockfd k = -1 \<or> length stream = encrypt_size_hb \<or> length stream \<noteq> encrypted_size sizeof_message")
    case True
    then have "s' = s" using run Some reply_last_conn
      by (fastforce simp: socket_srv_process_request_def split: if_splits)
    with ok show ?thesis by simp
  next
    case False
    then obtain res plain where d: "decrypt (e_lib E) (e_aes E) stream = Some (res, plain)"
      using run Some by (auto simp: socket_srv_process_request_def split: option.splits)
    show ?thesis
    proof (cases "res = -1")
      case True
      with False d run Some ok show ?thesis by (simp add: socket_srv_process_request_def)
    next
      case r: False
      with False d run Some have "dispatch E s (get_message plain) = Some (done, fs, s')"
        by (simp add: socket_srv_process_request_def)
      with dispatch_keeps [OF ok api] clean d r Some show ?thesis by (simp add: clean_packet_def)
    qed
  qed
qed (use run ok in \<open>auto simp: socket_srv_process_request_def split: if_splits\<close>)

lemma data_close [simp]: "data (srvdb_close api s) = data s"
  by (simp add: data_def srvdb_close_def close_data)

lemma clean_packet_env: "clean_packet (E\<lparr>e_entropy := ent, e_send_ok := sends\<rparr>) = clean_packet E"
  by (auto simp: clean_packet_def fun_eq_iff split: option.splits)

lemma step_keeps:
  assumes "srv_step E (clean_packet E) v v'" and "e_api E = api" and "db_ok dia (data (sv_db v))"
  shows "db_ok dia (data (sv_db v'))"
  using assms(1)
proof cases
  case (serve acc avail fd k received ent sends m0 res frames s)
  then show ?thesis
    using process_request_keeps [OF assms(3) _ _ serve(5)] assms(2) by (simp add: clean_packet_env)
qed (use assms in \<open>simp_all add: safty_exit_def\<close>)

lemma run_keeps:
  assumes "(srv_step E (clean_packet E))\<^sup>*\<^sup>* v v'" and "e_api E = api" and "db_ok dia (data (sv_db v))"
  shows "db_ok dia (data (sv_db v'))"
  using assms(1) by (induction rule: rtranclp_induct) (use assms(2,3) step_keeps in blast)+

end

section \<open>The start of the server\<close>

definition db_start_ok :: "dialect \<Rightarrow> database \<Rightarrow> bool" where
  "db_start_ok dia d \<longleftrightarrow> db_ok dia (if accounts d = None then d\<lparr>accounts := Some []\<rparr> else d)"

context mysql_server
begin

lemma data_init [simp]: "srvdb_init api s = (ok, s') \<Longrightarrow> data s' = data s"
  using init_data [of "my_connection s"] by (auto simp: srvdb_init_def data_def split: prod.splits)

lemma accounts_init_keeps:
  assumes ok: "db_start_ok dia (data s)" and run: "srvdb_accounts_table_init api cr ent m0 s = Some (True, s')"
  shows "db_ok dia (data s')"
proof -
  obtain r s1 where q: "mysql_query api s Create_accounts = (r, s1)" by fastforce
  obtain fin m2 s2 where reg: "srvdb_account_register api cr ent s1 (admin_message m0) = Some (fin, m2, s2)"
    and r: "\<not> is_err r" "s' = s2"
    using run q by (auto simp: srvdb_accounts_table_init_def split: if_splits option.splits)
  have "(r, data s1) = sql_exec dia Create_accounts (data s)"
    using query_cases [OF _ q] r by auto
  then have "db_ok dia (data s1)" using ok by (auto simp: sql_exec.simps db_start_ok_def split: if_splits)
  then show ?thesis using register_keeps [OF _ reg] r by simp
qed

lemma main_keeps:
  assumes ok: "db_start_ok dia (data s)" and run: "server_main me api cr ent k a s = Some (Running s' k' a')"
  shows "db_ok dia (data s')"
proof -
  obtain go flag argv where opt: "get_option (me_opts me) 0 (me_argv me) = (go, flag, argv)" by (metis prod_cases3)
  obtain ok1 s1 where i: "srvdb_init api s = (ok1, s1)" by fastforce
  have "go" and "main_password me flag argv \<noteq> None" using run opt by (auto simp: server_main_def split: if_splits option.splits)
  then obtain pw where pw: "main_password me flag argv = Some pw" and "go" by blast
  obtain ok2 s2 where c: "srvdb_connect api ''127.0.0.1'' pw 0 s1 = (ok2, s2)" by fastforce
  obtain s3 where t: "srvdb_accounts_table_init api cr ent (me_msg me) s2 = Some (True, s3)"
    and m: "main_sockets me api k a s3 = Running s' k' a'"
    using run opt pw i c by (auto simp: server_main_def split: if_splits option.splits)
  have "data s2 = data s" using data_init [OF i] data_connect [of "''127.0.0.1''" pw 0 s1] c by simp
  with accounts_init_keeps [OF _ t] ok have "db_ok dia (data s3)" by simp
  moreover have "s' = s3" using m by (auto simp: main_sockets_def Let_def split: prod.splits if_splits)
  ultimately show ?thesis by simp
qed

end

context mysql_up
begin

lemma accounts_init_up:
  assumes "accounts (data s) = Some []" and "new_hash cr ent ADMIN_DEFAULT_PW = Some (Some h)" and "fits 200 h"
  shows "\<exists>s'. srvdb_accounts_table_init api cr ent m0 s = Some (True, s')"
proof -
  obtain r s1 where q: "mysql_query api s Create_accounts = (r, s1)" by fastforce
  have "(r, data s1) = sql_exec dia Create_accounts (data s)" using query_runs [OF q] by simp
  then have d: "\<not> is_err r" "accounts (data s1) = Some []" using assms(1) by (auto simp: sql_exec.simps)
  have acc: "account_of (admin_message m0) = \<lparr>a_type = account_admin_e, a_name = ADMIN_DEFAULT_ACCOUNT, a_password = ADMIN_DEFAULT_PW\<rparr>"
    "m_user (admin_message m0) \<noteq> ''''"
    by (simp_all add: admin_message_def ADMIN_DEFAULT_ACCOUNT_def)
  have "fits 200 ADMIN_DEFAULT_ACCOUNT" by code_simp
  then obtain s2 where "srvdb_account_register api cr ent s1 (admin_message m0)
      = Some (if MAX_USER_NUM \<le> int (length []) then (False, (admin_message m0)\<lparr>m_error_text := err_user_limit\<rparr>, s2)
      else if \<exists>a \<in> set []. same_name dia (a_name (account_of (admin_message m0))) a then (False, (admin_message m0)\<lparr>m_error_text := err_user_exists\<rparr>, s2)
      else (True, admin_message m0, s2))"
    using register_up [OF d(2) acc(2), of cr ent h] assms(2,3) by (auto simp: acc(1))
  then show ?thesis using q d by (simp add: srvdb_accounts_table_init_def split: option.splits prod.splits)
qed

end


definition sample_sock :: sock where
  "sample_sock = \<lparr>server_sockfd = -1, readfds = {}, recordfds = {}, max_fd_num = 0, fd_loop = 0\<rparr>"

definition sample_main :: main_env where
  "sample_main = \<lparr>me_opts = [Opt_p ''secret''], me_argv = replicate 136 NUL, me_tty = True, me_input = '''',
     me_reset = \<lparr>ri_tty = True, ri_old = '''', ri_new = '''', ri_again = ''''\<rparr>, me_msg = sample_msg (Account_un sample_account),
     me_fd = 3, me_setopt = True, me_bound = True, me_listening = True, me_keyfile = Some ''1,2'', me_junk = replicate 16 7\<rparr>"

definition no_aes :: aes_state where
  "no_aes = \<lparr>aes_key = [], aes_has_init = False\<rparr>"

lemma sample_main_runs:
  "\<exists>s1 k1 a1. server_main sample_main ref_up_api sample_crypt sample_entropy sample_sock no_aes (sample_srv [])
     = Some (Running s1 k1 a1)"
proof -
  let ?argv = "put_str MAX_ARGV_LEN ''secret'' @ drop MAX_ARGV_LEN (replicate 136 NUL)"
  have pw: "main_password sample_main (0 OR PASSWORD_FLAG) ?argv = Some ''secret''"
    by code_simp
  obtain ok1 s1 where i: "srvdb_init ref_up_api (sample_srv []) = (ok1, s1)" by fastforce
  obtain ok2 s2 where c: "srvdb_connect ref_up_api ''127.0.0.1'' ''secret'' 0 s1 = (ok2, s2)" by fastforce
  have ok: "ok1" "ok2" "accounts (srv_data rdb s2) = Some []"
    using i c by (auto simp: srvdb_init_def srvdb_connect_def sample_srv_def ref_up_api_def ref_api_def srv_data_def Let_def)
  have "new_hash sample_crypt sample_entropy ADMIN_DEFAULT_PW = Some (Some ''$2a$000000'')" by code_simp
  moreover have "fits 200 ''$2a$000000''" by code_simp
  ultimately obtain s3 where t: "srvdb_accounts_table_init ref_up_api sample_crypt sample_entropy
      (sample_msg (Account_un sample_account)) s2 = Some (True, s3)"
    using up.accounts_init_up [OF ok(3)] by blast
  have f: "0 OR PASSWORD_FLAG AND RESET_FLAG = 0" by code_simp
  show ?thesis
    using pw i c ok t f
    by (simp add: server_main_def sample_main_def main_sockets_def socket_srv_init_def AES_init_def no_aes_def Let_def)
qed


end
