(* ===== verification/Answers.thy ===== *)
theory Answers
  imports Db_Invariant
begin

text \<open>
  What the client finds in the packets of an answer.  A frame \<open>carries\<close> a message when it has the length of an
  encrypted message and decrypts to its bytes.  The lemmas follow the two result loops of
  \<^verbatim>\<open>socket_srv_process_request\<close>; the locale \<open>cipher\<close> is what both ends rely on: a lawful AES library
  and a key that was read.
\<close>

locale cipher =
  fixes lib :: "'k aes_lib" and aes :: aes_state
  assumes lawful: "aes_lawful lib" and ready: "aes_ready aes"

definition carries :: "'k aes_lib \<Rightarrow> aes_state \<Rightarrow> bytes \<Rightarrow> message_cs \<Rightarrow> bool" where
  "carries lib aes c m \<longleftrightarrow> length c = sizeof_message \<and> decrypt lib aes c = Some (1, put_message m)"

text \<open>The messages whose bytes fill the C structure.\<close>

definition sendable :: "message_cs \<Rightarrow> bool" where
  "sendable m \<longleftrightarrow> length (m_extra_info m) = EXTRA_INFO_SIZ \<and> length (put_stuff (m_stuff m)) = 516"

lemma length_sendable: "sendable m \<Longrightarrow> length (put_message m) = sizeof_message"
  by (simp add: sendable_def put_message_def length_concat_put_int sizeof_message_def limits)

lemma wf_sendable: "wf_message m \<Longrightarrow> sendable m"
  using length_put_stuff [of "m_request m" "m_stuff m"] by (simp add: wf_message_def sendable_def)

lemma sizes: "encrypted_size sizeof_message = sizeof_message" "encrypt_size_hb = sizeof_heartbeat"
  "sizeof_message \<noteq> sizeof_heartbeat" "sizeof_message mod AES_BLOCK_SIZE = 0" "sizeof_heartbeat mod AES_BLOCK_SIZE = 0"
  by (simp_all add: encrypted_size_def encrypt_size_hb_def sizeof_message_def sizeof_heartbeat_def AES_BLOCK_SIZE_def)

context cipher
begin

lemma frame:
  assumes "sendable m"
  obtains c where "encrypt lib aes (put_message m) = Some (int sizeof_message, c)" and "carries lib aes c m"
proof -
  have len: "length (put_message m) = sizeof_message" by (rule length_sendable [OF assms])
  then have "length (put_message m) mod AES_BLOCK_SIZE = 0" using sizes(4) by simp
  from encrypt_decrypt [OF lawful ready this] len that show thesis by (auto simp: carries_def)
qed

lemma send_frame:
  assumes "sendable m" and "e_lib E = lib" and "e_aes E = aes" and "e_send_ok E k"
  obtains c where "send_message E k m = Some (Some c)" and "carries lib aes c m"
proof -
  obtain c where "encrypt lib aes (put_message m) = Some (int sizeof_message, c)" and c: "carries lib aes c m"
    by (rule frame [OF assms(1)])
  then have "send_message E k m = Some (Some c)"
    using assms(2-4) by (simp add: send_message_def sizeof_message_def)
  then show thesis using c by (rule that)
qed

end

section \<open>The answers to a search\<close>

text \<open>One message per row, then the message that ends the page; fields that a row does not set keep what the
  request held.\<close>

fun book_answers :: "book_row list \<Rightarrow> server_response \<Rightarrow> message_cs \<Rightarrow> message_cs list" where
  "book_answers [] fin m = [m\<lparr>m_response := fin\<rparr>]"
| "book_answers (r # rs) fin m =
     (let m1 = (set_book (book_entry_of r) m)\<lparr>m_response := r_success\<rparr> in m1 # book_answers rs fin m1)"

fun shelf_answers :: "shelf_row list \<Rightarrow> server_response \<Rightarrow> message_cs \<Rightarrow> message_cs list" where
  "shelf_answers [] fin m = [m\<lparr>m_response := fin\<rparr>]"
| "shelf_answers (h # hs) fin m =
     (let m1 = (set_shelf (fetched_shelf h (shelf_of m)) m)\<lparr>m_response := r_success\<rparr> in m1 # shelf_answers hs fin m1)"

definition page_end :: "int \<Rightarrow> server_response" where
  "page_end n = (if n = DEFAULT_FINDS then r_find_end_more else r_find_end)"

lemma length_answers: "length (book_answers rs fin m) = length rs + 1" "length (shelf_answers hs fin m) = length hs + 1"
  by (induction rs arbitrary: m) (simp_all add: Let_def, induction hs arbitrary: m, simp_all add: Let_def)

lemma book_answers_rows:
  "map (\<lambda>a. (book_of a, m_response a)) (book_answers rs fin m)
     = map (\<lambda>r. (book_entry_of r, r_success)) rs @ [(if rs = [] then book_of m else book_entry_of (last rs), fin)]"
  by (induction rs arbitrary: m) (auto simp: Let_def)

lemma sendable_set [simp]:
  "sendable (m\<lparr>m_response := r\<rparr>) = sendable m" "sendable (m\<lparr>m_error_text := t\<rparr>) = sendable m"
  by (simp_all add: sendable_def)

lemma sendable_book: "sendable m \<Longrightarrow> sendable (set_book b m)"
  by (simp add: sendable_def)

lemma sendable_shelf: "sendable m \<Longrightarrow> length (ndepth e) = MAX_FLOORS \<Longrightarrow> sendable (set_shelf e m)"
  by (simp add: sendable_def length_put_shelf limits)

lemma sendable_rows: "sendable m \<Longrightarrow> sendable (set_rows n m)"
  by (simp add: sendable_def set_rows_def limits)

context cipher
begin

lemma book_loop_answers:
  assumes "result_ready (e_api E) rs s" and "sendable m" and E: "e_lib E = lib" "e_aes E = aes" "\<And>k. e_send_ok E k"
  shows "\<exists>fs s'. book_find_loop E k s m = Some (True, fs, s')
    \<and> list_all2 (carries lib aes) fs (book_answers rs (page_end (res_rows s)) m)"
  using assms(1,2)
proof (induction rs arbitrary: k s m)
  case Nil
  obtain c where c: "send_message E k (m\<lparr>m_response := page_end (res_rows s)\<rparr>) = Some (Some c)"
      "carries lib aes c (m\<lparr>m_response := page_end (res_rows s)\<rparr>)"
    using send_frame [of "m\<lparr>m_response := page_end (res_rows s)\<rparr>" E k] Nil E by auto
  then show ?case
    using fetch_end [OF Nil(1)] by (simp add: book_find_loop.simps [of E k s m] Let_def page_end_def split: if_splits)
next
  case (Cons r rs)
  let ?m1 = "(set_book (book_entry_of r) m)\<lparr>m_response := r_success\<rparr>"
  let ?s1 = "s\<lparr>res_ptr := Some (map book_cells rs)\<rparr>"
  have snd1: "sendable ?m1" using sendable_book [OF Cons.prems(2)] by simp
  obtain c where c: "send_message E k ?m1 = Some (Some c)" "carries lib aes c ?m1"
    by (rule send_frame [OF snd1 E(1,2)]) (rule E(3))
  obtain fs s' where "book_find_loop E (Suc k) ?s1 ?m1 = Some (True, fs, s')"
    and "list_all2 (carries lib aes) fs (book_answers rs (page_end (res_rows ?s1)) ?m1)"
    using Cons.IH [OF result_ready_next [OF Cons.prems(1)] snd1] by blast
  then show ?case
    using fetch_row [OF Cons.prems(1), of m] c by (simp add: book_find_loop.simps [of E k s m] Let_def)
qed

lemma shelf_loop_answers:
  assumes "shelf_result_ready (e_api E) hs s" and "sendable m" and "\<forall>h \<in> set hs. shelf_row_ok h"
    and "length (ndepth (shelf_of m)) = MAX_FLOORS" and E: "e_lib E = lib" "e_aes E = aes" "\<And>k. e_send_ok E k"
  shows "\<exists>fs s'. shelf_find_loop E k s m = Some (True, fs, s')
    \<and> list_all2 (carries lib aes) fs (shelf_answers hs (page_end (res_rows s)) m)"
  using assms(1-4)
proof (induction hs arbitrary: k s m)
  case Nil
  obtain c where c: "send_message E k (m\<lparr>m_response := page_end (res_rows s)\<rparr>) = Some (Some c)"
      "carries lib aes c (m\<lparr>m_response := page_end (res_rows s)\<rparr>)"
    using send_frame [of "m\<lparr>m_response := page_end (res_rows s)\<rparr>" E k] Nil E by auto
  then show ?case
    using shelf_fetch_end [OF Nil(1)] by (simp add: shelf_find_loop.simps [of E k s m] Let_def page_end_def split: if_splits)
next
  case (Cons h hs)
  let ?m1 = "(set_shelf (fetched_shelf h (shelf_of m)) m)\<lparr>m_response := r_success\<rparr>"
  let ?s1 = "s\<lparr>res_ptr := Some (map shelf_cells hs)\<rparr>"
  have row: "shelf_row_ok h" using Cons.prems(3) by simp
  have len: "length (ndepth (fetched_shelf h (shelf_of m))) = MAX_FLOORS"
    using row Cons.prems(4) by (intro length_fetched_ndepth) (simp_all add: shelf_row_ok_def)
  have snd1: "sendable ?m1" using sendable_shelf [OF Cons.prems(2) len] by simp
  obtain c where c: "send_message E k ?m1 = Some (Some c)" "carries lib aes c ?m1"
    by (rule send_frame [OF snd1 E(1,2)]) (rule E(3))
  obtain fs s' where "shelf_find_loop E (Suc k) ?s1 ?m1 = Some (True, fs, s')"
    and "list_all2 (carries lib aes) fs (shelf_answers hs (page_end (res_rows ?s1)) ?m1)"
    using Cons.IH [OF shelf_result_next [OF Cons.prems(1)] snd1, of "Suc k"] Cons.prems(3) len by auto
  then show ?case
    using shelf_fetch_row [OF Cons.prems(1) row Cons.prems(4)] c by (simp add: shelf_find_loop.simps [of E k s m] Let_def)
qed

end

section \<open>Requests on the wire\<close>

context cipher
begin

text \<open>A packet with a well-formed request is handled as that request.\<close>

lemma process_carried:
  assumes "carries lib aes c m" and "wf_message m" and "e_lib E = lib" and "e_aes E = aes" and "server_sockfd k \<noteq> -1"
  shows "socket_srv_process_request E k (Some c) m0 s = dispatch E s m"
  using assms sizes by (simp add: socket_srv_process_request_def carries_def get_put_message)

lemma heartbeat_frame:
  assumes "length (hb_extra_info h) = 2"
  obtains c where "encrypt lib aes (put_heartbeat h) = Some (int sizeof_heartbeat, c)" and "length c = encrypt_size_hb"
proof -
  have len: "length (put_heartbeat h) = sizeof_heartbeat" by (rule length_put_heartbeat [OF assms])
  then have "length (put_heartbeat h) mod AES_BLOCK_SIZE = 0" using sizes(5) by simp
  from encrypt_decrypt [OF lawful ready this] len that sizes(2) show thesis by auto
qed

lemma find_answered:
  assumes up: "mysql_up (e_api E) dia db_of" and E: "e_lib E = lib" "e_aes E = aes" "\<And>k. e_send_ok E k"
    and req: "m_request m = req_find_book_e" and usr: "ident (m_user m)" and snd: "sendable m"
    and plan: "book_find_plan (e_api E) m = Find_stmt (Select_books True (book_table m) w n) False"
    and rows: "books (srv_data db_of s) (book_table m) = Some rows"
  shows "\<exists>fs s'. dispatch E s m = Some (True, fs, s') \<and> srv_data db_of s' = srv_data db_of s \<and>
    list_all2 (carries lib aes) fs (book_answers (book_page dia w n rows) (page_end (int (length (book_page dia w n rows))))
      (set_rows (int (length (book_page dia w n rows))) (m\<lparr>m_response := r_success, m_error_text := ''''\<rparr>)))"
proof -
  let ?m = "m\<lparr>m_response := r_success, m_error_text := ''''\<rparr>" and ?page = "book_page dia w n rows"
  have plan1: "book_find_plan (e_api E) ?m = Find_stmt (Select_books True (book_table ?m) w n) False"
    using plan by (simp add: book_find_plan_def book_table_def)
  have rows1: "books (srv_data db_of s) (book_table ?m) = Some rows" using rows by (simp add: book_table_def)
  have usr1: "ident (m_user ?m)" using usr by simp
  obtain k s1 where f: "srvdb_book_find (e_api E) s ?m = Some (True, k, s1)"
    using mysql_up.find_up [OF up plan1 rows1 usr1] by blast
  note ok = mysql_server.find_ok [OF mysql_up.axioms(1) [OF up] usr1 f plan1 rows1]
  have ready: "result_ready (e_api E) ?page s1" "res_rows s1 = int (length ?page)" using ok by simp_all
  have "sendable (set_rows k ?m)" using snd by (intro sendable_rows) simp
  from book_loop_answers [OF ready(1) this E(1-3), of 0] obtain fs s'
    where l: "book_find_loop E 0 s1 (set_rows k ?m) = Some (True, fs, s')"
      and fs: "list_all2 (carries lib aes) fs (book_answers ?page (page_end (res_rows s1)) (set_rows k ?m))" by blast
  have "dispatch E s m = Some (True, fs, s')"
    using f l req by (simp add: dispatch_def Let_def find_request_def)
  moreover have "srv_data db_of s' = srv_data db_of s"
    using book_find_loop_conn [OF l] ok(1) by (simp add: srv_data_def)
  ultimately show ?thesis using fs ready(2) ok(2) by auto
qed

end

text \<open>A cipher that keeps the promises: each byte is combined with a byte of the key.\<close>

definition xor_char :: "char \<Rightarrow> char \<Rightarrow> char" where
  "xor_char a b = put_u8 (get_u8 a XOR get_u8 b)"

definition xor_lib :: "bytes aes_lib" where
  "xor_lib = \<lparr>aes_set_encrypt_key = (\<lambda>k. Some k), aes_set_decrypt_key = (\<lambda>k. Some k),
     aes_cbc_encrypt = (\<lambda>k iv x. map (\<lambda>i. xor_char (x ! i) (k ! (i mod 16))) [0..<length x]),
     aes_cbc_decrypt = (\<lambda>k iv x. map (\<lambda>i. xor_char (x ! i) (k ! (i mod 16))) [0..<length x])\<rparr>"

definition sample_aes :: aes_state where
  "sample_aes = snd (AES_init (Some (gen_aes_key [3, 1, 4, 1, 5, 9, 2, 6, 5, 3, 5, 8, 9, 7, 9, 300])) [] no_aes)"

lemma put_get_u8: "put_u8 (get_u8 c) = c"
proof -
  have "(of_char c :: nat) < 256" by simp
  then show ?thesis by (simp add: put_u8_def get_u8_def unat_of_nat)
qed

lemma xor_char_twice: "xor_char (xor_char a b) b = a"
  by (simp add: xor_char_def put_get_u8 xor.assoc)

lemma xor_lib_lawful: "aes_lawful xor_lib"
  by (auto simp: aes_lawful_def xor_lib_def xor_char_twice intro!: nth_equalityI)

lemma sample_aes_ready: "aes_ready sample_aes"
  by code_simp

interpretation ci: cipher xor_lib sample_aes
  by unfold_locales (rule xor_lib_lawful sample_aes_ready)+

section \<open>Properties\<close>


definition sample_search :: message_cs where
  "sample_search = (sample_msg (Book_un (sample_book\<lparr>b_name := ''-SICP'', b_author := ''-'', b_label := ''-''\<rparr>)))
     \<lparr>m_request := req_find_book_e\<rparr>"

definition answer_env :: "(ref_db, bytes) env" where
  "answer_env = \<lparr>e_api = ref_up_api, e_crypt = sample_crypt, e_entropy = sample_entropy, e_lib = xor_lib,
     e_aes = sample_aes, e_send_ok = (\<lambda>_. True)\<rparr>"

definition sample_where :: book_where where
  "sample_where = Where_keyword (CHR ''='') 2 0 (Some 1) (Name_like ''%SICP%'') (Or_like ''%%'') (Or_like ''%%'')"

lemma sample_search_plan:
  "book_find_plan ref_up_api sample_search = Find_stmt (Select_books True (book_table sample_search) sample_where DEFAULT_FINDS) False"
  by code_simp

lemma sample_search_page: "length (book_page ref_dialect sample_where DEFAULT_FINDS sample_rows) = 2"
  by code_simp


end
