(* ===== verification/End_To_End.thy ===== *)
theory End_To_End
  imports Answers Clishell
begin

text \<open>
  Client and server together.  \<open>wire\<close> is the state of a connection: the server's database and the bytes on
  their way to the client; \<open>wire_net\<close> is the network in which every packet the client sends is processed by
  \<^verbatim>\<open>socket_srv_process_request\<close> and the client receives the frames in order.  The locale \<open>connection\<close>
  collects what both ends rely on (a lawful cipher with the same key, sockets that are open, a dbm
  library that stores); its lemmas say what a request of the client gets, and the theorems at the
  end follow whole requests from the user interface to the tables and back into the cache.
\<close>

record 'db wire =
  w_db :: "'db srv"
  w_inbox :: bytes

definition wire_net :: "('db, 'k) env \<Rightarrow> sock \<Rightarrow> message_cs \<Rightarrow> 'db wire net" where
  "wire_net E k m0 = \<lparr>
     net_send = (\<lambda>w c. case socket_srv_process_request E k (Some c) m0 (w_db w) of
        None \<Rightarrow> (False, w)
      | Some (_, fs, s) \<Rightarrow> (True, \<lparr>w_db = s, w_inbox = w_inbox w @ concat fs\<rparr>)),
     net_recv = (\<lambda>w n. (Some (take n (w_inbox w)), w\<lparr>w_inbox := drop n (w_inbox w)\<rparr>))\<rparr>"

abbreviation server_of :: "('db wire, 'd) cli \<Rightarrow> 'db srv" where
  "server_of c \<equiv> w_db (cli_world (c_sock c))"

definition set_wire :: "'db srv \<Rightarrow> bytes \<Rightarrow> ('db wire, 'd) cli \<Rightarrow> ('db wire, 'd) cli" where
  "set_wire s b c = c\<lparr>c_sock := (c_sock c)\<lparr>cli_world := \<lparr>w_db = s, w_inbox = b\<rparr>\<rparr>\<rparr>"

text \<open>The client's socket is open and it holds the key \<open>aes\<close>.\<close>

definition linked :: "aes_state \<Rightarrow> ('db wire, 'd) cli \<Rightarrow> bool" where
  "linked aes c \<longleftrightarrow> client_sockfd (c_sock c) \<noteq> -1 \<and> cli_aes (c_sock c) = aes"

locale connection = cipher lib aes + dbm dlib contents
  for lib :: "'k aes_lib" and aes :: aes_state and dlib :: "'d dbm_lib" and contents :: "'d \<Rightarrow> bytes \<Rightarrow> bytes option" +
  fixes E :: "('db, 'k) env" and C :: "('db wire, 'd, 'k) cenv" and k :: sock and m0 :: message_cs
  assumes E: "e_lib E = lib" "e_aes E = aes" "\<And>i. e_send_ok E i"
    and C: "ce_lib C = lib" "ce_net C = wire_net E k m0" "ce_dbm C = dlib"
    and open_server: "server_sockfd k \<noteq> -1"
    and stores: "\<And>d key v. fst (dbm_store dlib d key v)"
begin

lemma linked_wire [simp]: "linked a (set_wire s b c) = linked a c"
  by (simp add: linked_def set_wire_def)

lemma wire_simps' [simp]:
  "server_of (set_wire s b c) = s" "w_inbox (cli_world (c_sock (set_wire s b c))) = b"
  "c_db (set_wire s b c) = c_db c" "set_wire s b (set_wire s' b' c) = set_wire s b c"
  "login_user (set_wire s b c) = login_user c" "new_mark (set_wire s b c) = new_mark c"
  "set_wire s b (c\<lparr>c_db := d\<rparr>) = (set_wire s b c)\<lparr>c_db := d\<rparr>"
  by (simp_all add: set_wire_def)

lemma request_delivered:
  assumes "linked aes c" and "wf_message m" and "dispatch E (server_of c) m = Some (r, fs, s')"
  shows "send_request C m c = Some (True, set_wire s' (w_inbox (cli_world (c_sock c)) @ concat fs) c)"
proof -
  obtain p where p: "encrypt lib aes (put_message m) = Some (int sizeof_message, p)" "carries lib aes p m"
    by (rule frame [OF wf_sendable [OF assms(2)]])
  then have "socket_srv_process_request E k (Some p) m0 (server_of c) = Some (r, fs, s')"
    using process_carried [OF p(2) assms(2) E(1,2) open_server] assms(3) by simp
  with p assms(1) C show ?thesis
    by (simp add: send_request_def socket_client_send_request_def client_send_def linked_def wire_net_def set_wire_def
        sizeof_message_def)
qed

lemma answer_read:
  assumes "linked aes c" and "w_inbox (cli_world (c_sock c)) = f @ rest" and "carries lib aes f a" and "wf_message a"
  shows "get_response C g c = Some (True, a, set_wire (server_of c) rest c)"
proof -
  have len: "length f = sizeof_message" and dec: "decrypt lib aes f = Some (1, put_message a)"
    using assms(3) by (simp_all add: carries_def)
  have "net_recv (wire_net E k m0) (cli_world (c_sock c)) (encrypted_size sizeof_message)
      = (Some f, \<lparr>w_db = server_of c, w_inbox = rest\<rparr>)"
    using assms(2) len sizes(1) by (cases "cli_world (c_sock c)") (simp add: wire_net_def)
  with len dec assms(1,4) C sizes(1) show ?thesis
    by (simp add: get_response_def socket_client_get_response_def linked_def set_wire_def get_put_message Let_def)
qed

text \<open>A request with one answer.\<close>

lemma one_answer:
  assumes "linked aes c" and "w_inbox (cli_world (c_sock c)) = []" and "wf_message m" and "m_request m \<noteq> req_find_book_e"
    and "dispatch E (server_of c) m = Some (r, [f], s')" and "carries lib aes f a" and "wf_message a"
    and "m_response a = r_success \<or> m_response a = r_failed" and "m_request a = m_request m"
  shows "find_from_server C m c = Some (if m_response a = r_failed then 0 else 1, a, set_wire s' [] c)"
proof -
  have "send_request C m c = Some (True, set_wire s' f c)"
    using request_delivered [OF assms(1,3,5)] assms(2) by simp
  moreover have "get_response C m (set_wire s' f c) = Some (True, a, set_wire s' [] c)"
    using answer_read [of "set_wire s' f c" f "[]" a m] assms(1,6,7) by simp
  ultimately show ?thesis
    using assms(4,8,9) by (auto simp: find_from_server_def find_loop.simps [of C _ 0 m "set_wire s' f c"])
qed

end

text \<open>Requests that are answered once.\<close>

definition single_request :: "client_request \<Rightarrow> bool" where
  "single_request r \<longleftrightarrow> (case r of req_find_book_e \<Rightarrow> False | req_find_shelf_e \<Rightarrow> False | req_heartbeat_e \<Rightarrow> False
     | req_other_e n \<Rightarrow> False | _ \<Rightarrow> True)"

definition final_answer :: "bool \<Rightarrow> message_cs \<Rightarrow> message_cs" where
  "final_answer ok m = (if ok then m else m\<lparr>m_response := r_failed\<rparr>)"

context cipher
begin

lemma dispatch_single:
  assumes "single_request (m_request m)" and "e_lib E = lib" and "e_aes E = aes" and "e_send_ok E 0"
    and "simple_request E s (m\<lparr>m_response := r_success, m_error_text := ''''\<rparr>) = Some (ok, m1, s1)" and "sendable m1"
  obtains f where "dispatch E s m = Some (True, [f], s1)" and "carries lib aes f (final_answer ok m1)"
proof -
  have "sendable (final_answer ok m1)" using assms(6) by (simp add: final_answer_def)
  then obtain f where f: "send_message E 0 (final_answer ok m1) = Some (Some f)" "carries lib aes f (final_answer ok m1)"
    by (rule send_frame [OF _ assms(2-4)])
  have "dispatch E s m = reply_last E (final_answer ok m1) s1"
    using assms(1,5) by (cases "m_request m") (simp_all add: single_request_def dispatch_def Let_def final_answer_def)
  with f that show thesis by (simp add: reply_last_def)
qed

end

section \<open>Building a shelf\<close>

lemma free_shelf_bounds:
  assumes "shelves_ok rows" and "card (dom (shelf_catalog rows)) < 15"
  shows "1 \<le> free_number (shelf_catalog rows)" and "free_number (shelf_catalog rows) \<le> MAX_SHELF_NUM"
proof -
  show "free_number (shelf_catalog rows) \<le> MAX_SHELF_NUM"
    using sf.free_le [OF assms(1)] assms(2) by (simp add: limits)
  show "1 \<le> free_number (shelf_catalog rows)"
  proof (cases "removed_shelves rows = {}")
    case True
    then show ?thesis using sf.free_next [OF assms(1)] by simp
  next
    case False
    have fin: "finite (removed_shelves rows)" by (simp add: removed_shelves_def)
    have "removed_shelves rows \<subseteq> {1..int (length rows)}" using assms(1) by (auto simp: removed_shelves_def shelves_ok_def)
    then have "1 \<le> Min (removed_shelves rows)" using Min_in [OF fin False] by auto
    then show ?thesis using sf.free_gone [OF assms(1) False] by simp
  qed
qed

context connection
begin

lemma cache_store:
  assumes ok: "cache_ok contents d" and e: "wf_shelf e" "1 \<le> s_code e" "s_code e \<le> MAX_SHELF_NUM"
  shows "\<exists>d'. clidb_shelf_insert dlib e d = Some (True, d') \<and> cache_ok contents d' \<and> record_saved contents d'
    \<and> shelf_cache contents d' = (shelf_cache contents d)(s_code e \<mapsto> e)"
proof -
  obtain x where x: "shelf_dbm_ptr d = Some x" using cache_okD(4) [OF ok] by blast
  obtain key rk where keys: "shelf_key (current_user d) (s_code e) = Some key" "record_key (current_user d) = Some rk"
    using shelf_key_fits [of "current_user d" "s_code e"] record_key_fits [of "current_user d"] cache_okD(1) [OF ok] e by auto
  obtain x1 where s1: "dbm_store dlib x key (put_shelf e) = (True, x1)"
    using stores [of x key "put_shelf e"] by (metis prod.collapse)
  let ?rec = "(shelf_record d)[nat (s_code e - 1) := 1]"
  obtain x2 where s2: "dbm_store dlib x1 rk (put_record ?rec) = (True, x2)"
    using stores [of x1 rk "put_record ?rec"] by (metis prod.collapse)
  have "\<exists>d'. clidb_shelf_insert dlib e d = Some (True, d')"
    using x keys s1 s2 e by (simp add: clidb_shelf_insert_def clidb_shelf_real_insert_def record_and_save_def
        shelf_record_put_def shelf_record_save_def SHELF_INSERT_MODE_def SHELF_SYNC_MODE_def Let_def)
  with insert_stores [OF ok e] show ?thesis by blast
qed

lemma build_shelf_effect:
  assumes up: "mysql_up (e_api E) dia db_of" and c: "linked aes c" "w_inbox (cli_world (c_sock c)) = []"
    and cache: "cache_ok contents (c_db c)" and usr: "c_str USER_NAME_LEN (login_user c)"
    and m: "m = new_request req_build_shelf_e (Shelf_un (e\<lparr>building_time := time_text t\<rparr>)) c"
    and e: "wf_shelf (e\<lparr>building_time := time_text t\<rparr>)" "shelf_req_ok m" "shelf_storable (shelf_of m)"
    and rows: "shelves (srv_data db_of (server_of c)) (shelf_table m) = Some rows" "shelves_ok rows"
      "card (dom (shelf_catalog rows)) < 15"
    and n: "n = free_number (shelf_catalog rows)" and e': "e' = e\<lparr>building_time := time_text t, s_code := n\<rparr>"
  shows "\<exists>c' rows'. client_build_shelf C t e err c = Some (1, err, c')
    \<and> srv_data db_of (server_of c') = with_shelves (srv_data db_of (server_of c)) (shelf_table m) rows'
    \<and> shelves_ok rows' \<and> shelf_catalog rows' = (shelf_catalog rows)(n \<mapsto> info_of_entry e')
    \<and> cache_ok contents (c_db c') \<and> shelf_cache contents (c_db c') = (shelf_cache contents (c_db c))(n \<mapsto> e')"
proof -
  have req: "m_request m = req_build_shelf_e" "m\<lparr>m_response := r_success, m_error_text := ''''\<rparr> = m"
    "shelf_of m = e\<lparr>building_time := time_text t\<rparr>"
    by (simp_all add: m new_request_def zero_message_def)
  have wf: "wf_message m" "m_extra_info m = replicate 7 0"
    using usr e(1) by (simp_all add: m new_request_def zero_message_def wf_message_def c_int_def int_request_def
        int_response_def limits list_all_length c_str_def)
  let ?m1 = "set_shelf e' m"
  obtain s1 rows' where run: "srvdb_shelf_build (e_api E) (server_of c) m = Some (True, ?m1, s1)"
    and db: "srv_data db_of s1 = with_shelves (srv_data db_of (server_of c)) (shelf_table m) rows'" "shelves_ok rows'"
      "shelf_catalog rows' = (shelf_catalog rows)(n \<mapsto> info_of_entry (shelf_of m))"
    using mysql_up.build_refined [OF up e(2,3) rows(1,2)] rows(3) n e' req(3) by (auto simp: Let_def)
  have bound: "1 \<le> n" "n \<le> MAX_SHELF_NUM" using free_shelf_bounds [OF rows(2,3)] n by simp_all
  have wfe: "wf_shelf e'" using e(1) bound by (simp add: e' wf_shelf_def c_int_def limits)
  have wf1: "wf_message ?m1" using wf(1) wfe req(1) by (simp add: wf_message_def)
  have sr: "simple_request E (server_of c) (m\<lparr>m_response := r_success, m_error_text := ''''\<rparr>) = Some (True, ?m1, s1)"
    using run req by (simp add: simple_request_def)
  obtain f where f: "dispatch E (server_of c) m = Some (True, [f], s1)" "carries lib aes f ?m1"
    by (rule dispatch_single [OF _ E(1,2) _ sr wf_sendable [OF wf1]])
      (simp_all add: req E(3) single_request_def final_answer_def)
  have "find_from_server C m c = Some (1, ?m1, set_wire s1 [] c)"
    using one_answer [OF c wf(1) _ f(1,2) wf1] req by (simp add: m new_request_def zero_message_def)
  moreover obtain d' where d': "clidb_shelf_insert dlib e' (c_db c) = Some (True, d')" "cache_ok contents d'"
      "shelf_cache contents d' = (shelf_cache contents (c_db c))(s_code e' \<mapsto> e')"
    using cache_store [OF cache wfe] bound by (auto simp: e')
  ultimately have "client_build_shelf C t e err c = Some (1, err, (set_wire s1 [] c)\<lparr>c_db := d'\<rparr>)"
    by (simp add: client_build_shelf_def m [symmetric] on_db_def C)
  moreover have "info_of_entry (shelf_of m) = info_of_entry e'" by (simp add: req e' info_of_entry_def)
  ultimately show ?thesis using db d' by (auto simp: e' set_wire_def)
qed

end

section \<open>Loading the books of a shelf\<close>

text \<open>The books of shelf \<open>sh\<close> with a number above \<open>b\<close>, in the order of their numbers.\<close>

definition shelf_listing :: "book_row list \<Rightarrow> int \<Rightarrow> int \<Rightarrow> book_row list" where
  "shelf_listing rows sh b = sort_key r_bookno (filter (\<lambda>r. r_cleaned r = BOOK_AVL \<and> r_shelfno r = sh \<and> b < r_bookno r) rows)"

definition loading_where :: "'db mysql_api \<Rightarrow> int \<Rightarrow> int \<Rightarrow> book_where" where
  "loading_where api sh b = Where_keyword (CHR ''='') sh b None (Name_like (like_text api ''''))
     (Or_like (like_text api '''')) (Or_like (like_text api ''''))"

lemma loading_plan:
  assumes "book_of m = loading_entry sh b" and "sh \<noteq> NON_SENSE_INT" and "0 \<le> b" and "b < BREAK_LIMIT_INT"
  shows "book_find_plan api m = Find_stmt (Select_books True (book_table m) (loading_where api sh b) DEFAULT_FINDS) False"
  using assms by (simp add: book_find_plan_def keyword_plan_def name_cond_of_def field_cond_of_def loading_entry_def
      loading_where_def find_flags limits Let_def zero_book_def)

context mysql_server
begin

lemma loading_page:
  "book_page dia (loading_where api sh b) DEFAULT_FINDS rows = take 30 (shelf_listing rows sh b)"
proof -
  have "lit dia (like_text api '''') = ''%%''" using lit_like [of "''''"] by (simp add: like_text_def)
  then have "book_where_holds dia (loading_where api sh b) = (\<lambda>r. r_cleaned r = BOOK_AVL \<and> r_shelfno r = sh \<and> b < r_bookno r)"
    by (auto simp: loading_where_def sym_cmp_def keyword_holds_def like_any fun_eq_iff)
  then show ?thesis by (simp add: book_page_def shelf_listing_def DEFAULT_FINDS_def)
qed

end

context connection
begin

lemma append_cached:
  assumes "book_cache contents d bs" and "wf_book b" and "int (length bs) + 1 < 2147483647"
  obtains d' where "clidb_book_insert dlib b (-1) d = Some (True, d')" and "book_cache contents d' (bs @ [b])"
    and "book_search_pos d' = book_search_pos d"
proof -
  obtain x where x: "book_dbm_ptr d = Some x" using book_cacheD(1) [OF assms(1)] by blast
  obtain key where key: "book_key (int (length bs)) = Some key" using book_key_fits [of "int (length bs)"] assms(3) by auto
  obtain x1 where "dbm_store dlib x key (put_book b) = (True, x1)"
    using stores [of x key "put_book b"] by (metis prod.collapse)
  then have "\<exists>d'. clidb_book_insert dlib b (-1) d = Some (True, d')"
    using x key book_cacheD(2) [OF assms(1)] by (simp add: clidb_book_insert_def Let_def)
  then show thesis using book_append_effect [OF assms] that by blast
qed

lemma wf_book_answer:
  "wf_message m \<Longrightarrow> m_request m = req_find_book_e \<Longrightarrow> wf_book b \<Longrightarrow> wf_message ((set_book b m)\<lparr>m_response := r_success\<rparr>)"
  by (simp add: wf_message_def c_int_def int_response_def)

text \<open>The loop reads exactly the answers of one search, caches their books and ends.\<close>

lemma find_loop_answers:
  assumes "linked aes c" and "w_inbox (cli_world (c_sock c)) = concat fs"
    and "list_all2 (carries lib aes) fs (book_answers page fin m)" and "wf_message m" and "m_request m = req_find_book_e"
    and "\<forall>r \<in> set page. wf_book (book_entry_of r)" and fin: "fin = r_find_end \<or> fin = r_find_end_more"
    and "book_cache contents (c_db c) bs" and "int (length bs + length page) < 2147483647"
  shows "\<exists>a c'. find_loop C False n g c = Some (if n = 0 \<and> page = [] \<and> fin = r_find_end then -1 else 1, a, c')
    \<and> book_cache contents (c_db c') (bs @ map book_entry_of page) \<and> server_of c' = server_of c
    \<and> w_inbox (cli_world (c_sock c')) = [] \<and> linked aes c'
    \<and> login_user c' = login_user c \<and> book_search_pos (c_db c') = book_search_pos (c_db c)"
  using assms
proof (induction page arbitrary: fs m n g c bs)
  case Nil
  then obtain f where fs: "fs = [f]" and f: "carries lib aes f (m\<lparr>m_response := fin\<rparr>)"
    by (auto simp: list_all2_Cons2)
  have "wf_message (m\<lparr>m_response := fin\<rparr>)" using Nil.prems(4) fin by (auto simp: wf_message_def c_int_def int_response_def)
  with answer_read [OF Nil.prems(1), of f "[]"] f fs Nil.prems(2)
  have "get_response C g c = Some (True, m\<lparr>m_response := fin\<rparr>, set_wire (server_of c) [] c)" by simp
  then show ?case using fin Nil.prems(1,8) by (auto simp: find_loop.simps [of C False n g c])
next
  case (Cons r page)
  let ?m1 = "(set_book (book_entry_of r) m)\<lparr>m_response := r_success\<rparr>"
  obtain f fs1 where fs: "fs = f # fs1" and f: "carries lib aes f ?m1"
    and fs1: "list_all2 (carries lib aes) fs1 (book_answers page fin ?m1)"
    using Cons.prems(3) by (auto simp: list_all2_Cons2 Let_def)
  have wfb: "wf_book (book_entry_of r)" using Cons.prems(6) by simp
  have wf1: "wf_message ?m1" by (rule wf_book_answer [OF Cons.prems(4,5) wfb])
  let ?c1 = "set_wire (server_of c) (concat fs1) c"
  have g1: "get_response C g c = Some (True, ?m1, ?c1)"
    using answer_read [OF Cons.prems(1) _ f wf1] Cons.prems(2) fs by simp
  obtain d' where d': "clidb_book_insert dlib (book_entry_of r) (-1) (c_db c) = Some (True, d')"
      "book_cache contents d' (bs @ [book_entry_of r])" "book_search_pos d' = book_search_pos (c_db c)"
    by (rule append_cached [OF Cons.prems(8) wfb]) (use Cons.prems(9) in simp)
  let ?c2 = "?c1\<lparr>c_db := d'\<rparr>"
  have step: "find_loop C False n g c = find_loop C False (Suc n) ?m1 ?c2"
    using g1 d'(1) Cons.prems(5) by (simp add: find_loop.simps [of C False n g c] on_db_def C)
  have lk: "linked aes ?c2" "w_inbox (cli_world (c_sock ?c2)) = concat fs1" "server_of ?c2 = server_of c" "c_db ?c2 = d'"
    "login_user ?c2 = login_user c"
    using Cons.prems(1) by (simp_all add: linked_def set_wire_def)
  from Cons.IH [OF lk(1,2) fs1 wf1 _ _ fin, of "bs @ [book_entry_of r]" "Suc n" ?m1] Cons.prems(5,6,9) d'(2,3) lk(3-5) step
  show ?case by auto
qed

lemma loading_effect:
  assumes up: "mysql_up (e_api E) dia db_of" and c: "linked aes c" "w_inbox (cli_world (c_sock c)) = []"
    and usr: "ident (login_user c)" "c_str USER_NAME_LEN (login_user c)"
    and sh: "sh \<noteq> NON_SENSE_INT" "c_int sh" and b: "0 \<le> b" "b < BREAK_LIMIT_INT"
    and rows: "books (srv_data db_of (server_of c)) (login_user c @ ''_books'') = Some rows"
    and page: "page = take 30 (shelf_listing rows sh b)" "\<forall>r \<in> set page. wf_book (book_entry_of r)"
    and cache: "book_cache contents (c_db c) bs" "int (length bs) + 30 < 2147483647"
  shows "\<exists>c'. client_shelf_loading_book C sh b c = Some (if page = [] then -1 else 1, c')
    \<and> book_cache contents (c_db c') (bs @ map book_entry_of page)
    \<and> srv_data db_of (server_of c') = srv_data db_of (server_of c)
    \<and> w_inbox (cli_world (c_sock c')) = [] \<and> linked aes c' \<and> login_user c' = login_user c
    \<and> book_search_pos (c_db c') = book_search_pos (c_db c)"
proof -
  let ?m = "new_request req_find_book_e (Book_un (loading_entry sh b)) c" and ?w = "loading_where (e_api E) sh b"
  have m: "m_request ?m = req_find_book_e" "m_user ?m = login_user c" "book_of ?m = loading_entry sh b"
    "?m\<lparr>m_response := r_success, m_error_text := ''''\<rparr> = ?m" "code2 (book_of ?m) = b"
    by (simp_all add: new_request_def zero_message_def loading_entry_def)
  have wfm: "wf_message ?m"
    using usr(2) sh(2) b by (simp add: new_request_def zero_message_def wf_message_def wf_book_def loading_entry_def
        zero_book_def c_int_def int_request_def int_response_def limits list_all_length c_str_def)
  have t: "book_table ?m = login_user c @ ''_books''" using m(2) by (simp add: book_table_def)
  note plan = loading_plan [OF m(3) sh(1) b, of "e_api E"]
  have pg: "book_page dia ?w DEFAULT_FINDS rows = page"
    using mysql_server.loading_page [OF mysql_up.axioms(1) [OF up]] page(1) by simp
  have rows1: "books (srv_data db_of (server_of c)) (book_table ?m) = Some rows" using rows t by simp
  let ?base = "set_rows (int (length page)) ?m"
  obtain fs s' where disp: "dispatch E (server_of c) ?m = Some (True, fs, s')" "srv_data db_of s' = srv_data db_of (server_of c)"
    and fs: "list_all2 (carries lib aes) fs (book_answers page (page_end (int (length page))) ?base)"
    using find_answered [OF up E m(1) _ wf_sendable [OF wfm] plan rows1] usr(1) m(2,4) pg by auto
  have len: "length page \<le> 30" using page(1) by simp
  have wfb: "wf_message ?base"
    using wfm len by (simp add: wf_message_def set_rows_def c_int_def limits new_request_def zero_message_def list_all_iff)
  have snd: "send_request C ?m c = Some (True, set_wire s' (concat fs) c)"
    using request_delivered [OF c(1) wfm disp(1)] c(2) by simp
  have fin: "page_end (int (length page)) = r_find_end \<or> page_end (int (length page)) = r_find_end_more"
    by (simp add: page_end_def)
  have req: "m_request ?base = req_find_book_e" using m(1) by (simp add: set_rows_def)
  have not_cached: "(m_request ?m = req_find_book_e \<and> code2 (book_of ?m) = BREAK_LIMIT_INT) = False" using b(2) m(5) by simp
  have room: "int (length bs + length page) < 2147483647" using cache(2) len by simp
  obtain a c' where l: "find_loop C False 0 ?m (set_wire s' (concat fs) c)
        = Some (if page = [] \<and> page_end (int (length page)) = r_find_end then -1 else 1, a, c')"
      "book_cache contents (c_db c') (bs @ map book_entry_of page)" "server_of c' = s'"
      "w_inbox (cli_world (c_sock c')) = []" "linked aes c'" "login_user c' = login_user c"
      "book_search_pos (c_db c') = book_search_pos (c_db c)"
    using find_loop_answers [OF _ _ fs wfb req page(2) fin _ room, of "set_wire s' (concat fs) c" 0 ?m] c(1) cache(1) by auto
  have "page = [] \<longrightarrow> page_end (int (length page)) = r_find_end" by (simp add: page_end_def DEFAULT_FINDS_def)
  with l snd not_cached disp(2) show ?thesis
    by (auto simp: client_shelf_loading_book_def find_from_server_def)
qed

end

section \<open>A connection that keeps the promises\<close>

definition sample_listening :: sock where
  "sample_listening = sample_sock\<lparr>server_sockfd := 3, recordfds := {3, 4}, max_fd_num := 4\<rparr>"

definition sample_cenv :: "(ref_db wire, bytes \<Rightarrow> bytes option, bytes) cenv" where
  "sample_cenv = \<lparr>ce_lib = xor_lib, ce_net = wire_net answer_env sample_listening zero_message, ce_dbm = map_dbm\<rparr>"

definition sample_cli :: "ref_db srv \<Rightarrow> (ref_db wire, bytes \<Rightarrow> bytes option) cli" where
  "sample_cli s = \<lparr>c_sock = \<lparr>client_sockfd = 4, cli_aes = sample_aes, cli_world = \<lparr>w_db = s, w_inbox = []\<rparr>\<rparr>,
     c_db = sample_cache, login_user = ''u'', new_mark = 0\<rparr>"

interpretation cn: connection xor_lib sample_aes map_dbm "\<lambda>d. d" answer_env sample_cenv sample_listening zero_message
  by unfold_locales (simp_all add: answer_env_def sample_cenv_def sample_listening_def map_dbm_def)

lemma sample_cli_simps:
  "linked sample_aes (sample_cli s)" "w_inbox (cli_world (c_sock (sample_cli s))) = []" "server_of (sample_cli s) = s"
  "c_db (sample_cli s) = sample_cache" "login_user (sample_cli s) = ''u''" "e_api answer_env = ref_up_api"
  "ident ''u''" "c_str USER_NAME_LEN ''u''"
  by (simp_all add: sample_cli_def linked_def answer_env_def ident_def c_str_def limits)

context connection
begin

lemma heartbeat_dropped:
  assumes "linked aes c"
  shows "socket_client_send_heartbeat (ce_lib C) (ce_net C) heartbeat (c_sock c) = Some (True, c_sock c)"
proof -
  obtain p where p: "encrypt lib aes (put_heartbeat heartbeat) = Some (int sizeof_heartbeat, p)" "length p = encrypt_size_hb"
    by (rule heartbeat_frame [of heartbeat]) (simp_all add: heartbeat_def)
  then have "socket_srv_process_request E k (Some p) m0 s = Some (True, [], s)" for s
    using open_server by (simp add: socket_srv_process_request_def)
  with p(1) C assms show ?thesis
    by (simp add: socket_client_send_heartbeat_def client_send_def linked_def wire_net_def sizeof_heartbeat_def)
qed

end

text \<open>The heartbeat packets of a connected client reach the server, change nothing in the database and
  get no answer, so they never disturb the answers to requests.\<close>

theorem heartbeat_ignored:
  assumes "connection lib aes dlib contents E C k m0" and "linked aes c"
  shows "socket_client_send_heartbeat (ce_lib C) (ce_net C) heartbeat (c_sock c) = Some (True, c_sock c)"
  by (rule connection.heartbeat_dropped [OF assms])

theorem heartbeat_ignored_witness:
  "socket_client_send_heartbeat xor_lib (ce_net sample_cenv) heartbeat (c_sock (sample_cli shelf_srv))
     = Some (True, c_sock (sample_cli shelf_srv))"
  using heartbeat_ignored [OF cn.connection_axioms sample_cli_simps(1), of shelf_srv] by (simp add: sample_cenv_def)


definition sample_tm :: tm where
  "sample_tm = \<lparr>tm_year = 120, tm_mon = 1, tm_mday = 2, tm_hour = 9\<rparr>"

lemma sample_time: "time_text sample_tm = ''20-02-02 09h''"
  by code_simp



lemma sample_listing: "take 30 (shelf_listing sample_rows 2 0) = [sample_row 1 BOOK_AVL, sample_row 3 BOOK_AVL]"
  by code_simp

lemma sample_row_wf: "wf_book (book_entry_of (sample_row 1 BOOK_AVL))" "wf_book (book_entry_of (sample_row 3 BOOK_AVL))"
  by (simp_all add: sample_row_def book_entry_of_def wf_book_def c_int_def c_str_def limits)


end
