(* ===== verification/Paging.thy ===== *)
theory Paging
  imports Ncgui_Books End_To_End
begin

text \<open>
  Turning the pages of a shelf, from the keys of the user interface to the tables of the server: what a page
  shows (\<open>dbm\<close>), how a page is fetched (\<open>connection\<close>), and the theorem that the pages of a shelf show all
  of its books.
\<close>

section \<open>A page of the cache\<close>

definition shown_line :: "book_entry \<Rightarrow> string" where
  "shown_line b = (case book_line b of None \<Rightarrow> '''' | Some l \<Rightarrow> l)"

definition showable :: "book_entry list \<Rightarrow> bool" where
  "showable bs \<longleftrightarrow> (\<forall>b \<in> set bs. book_line b \<noteq> None)"

context dbm
begin

lemma page_loop_shows:
  assumes "book_cache contents d bs" and "showable bs" and "book_search_pos d = int i" and "i \<le> length bs"
    and "book_search_step d = int (k + n)" and "book_search_cnt d = int k"
  shows "\<exists>d'. page_loop lib lines b d = Some (True, lines @ map shown_line (take n (drop i bs)),
      (if take n (drop i bs) = [] then b else last (take n (drop i bs))), d')
    \<and> book_cache contents d' bs \<and> book_search_pos d' = int (i + length (take n (drop i bs)))
    \<and> book_search_step d' = book_search_step d"
  using assms
proof (induction n arbitrary: d i k lines b)
  case 0
  then show ?case by (auto simp: page_loop.simps [of lib lines b d] book_get_effect)
next
  case (Suc n)
  show ?case
  proof (cases "length bs \<le> i")
    case True
    then show ?thesis using Suc.prems by (auto simp: page_loop.simps [of lib lines b d] book_get_effect)
  next
    case False
    let ?d = "d\<lparr>book_search_cnt := int (Suc k), book_search_pos := int (Suc i)\<rparr>"
    have get: "clidb_book_get lib b d = Some (1, bs ! i, ?d)"
      using Suc.prems False by (simp add: book_get_effect add.commute)
    have "book_line (bs ! i) = Some (shown_line (bs ! i))"
      using Suc.prems(2) False by (auto simp: showable_def shown_line_def split: option.splits)
    then have "page_loop lib lines b d = page_loop lib (lines @ [shown_line (bs ! i)]) (bs ! i) ?d"
      using get by (simp add: page_loop.simps [of lib lines b d])
    moreover have d: "take (Suc n) (drop i bs) = bs ! i # take n (drop (Suc i) bs)" using False by (simp add: Cons_nth_drop_Suc [symmetric])
    moreover obtain d' where "page_loop lib (lines @ [shown_line (bs ! i)]) (bs ! i) ?d
        = Some (True, (lines @ [shown_line (bs ! i)]) @ map shown_line (take n (drop (Suc i) bs)),
            (if take n (drop (Suc i) bs) = [] then bs ! i else last (take n (drop (Suc i) bs))), d')"
        "book_cache contents d' bs" "book_search_pos d' = int (Suc i + length (take n (drop (Suc i) bs)))"
        "book_search_step d' = book_search_step d"
      using Suc.IH [of ?d "Suc i" "Suc k" "lines @ [shown_line (bs ! i)]" "bs ! i"] Suc.prems False by auto
    ultimately show ?thesis unfolding d by (intro exI [of _ d']) simp
  qed
qed

lemma show_page_shows:
  assumes "book_cache contents d bs" and "showable bs" and "book_search_pos d = int i" and "i \<le> length bs"
  obtains d' where "show_page lib b d = Some (True, map shown_line (take 30 (drop i bs)),
      (if drop i bs = [] then b else last (take 30 (drop i bs))), d')"
    and "book_cache contents d' bs" and "book_search_pos d' = int (i + length (take 30 (drop i bs)))" and "book_search_step d' = 30"
proof -
  let ?d = "clidb_book_search_step PAD_HIGHT d"
  have d: "book_cache contents ?d bs" "book_search_pos ?d = int i" "book_search_step ?d = int (0 + 30)" "book_search_cnt ?d = int 0"
    using assms by (simp_all add: clidb_book_search_step_def PAD_HIGHT_def DEFAULT_FINDS_def)
  have "take 30 (drop i bs) = [] \<longleftrightarrow> drop i bs = []" by simp
  with page_loop_shows [OF d(1) assms(2) d(2) assms(4) d(3,4), of "[]" b] d(3) that
  show thesis unfolding show_page_def by (simp only: append_Nil) auto
qed

end

section \<open>A page of the server\<close>

text \<open>The number after which the next page starts when \<open>n\<close> books of the listing are known.\<close>

definition known_upto :: "book_row list \<Rightarrow> nat \<Rightarrow> int" where
  "known_upto listing n = (if n = 0 then 0 else r_bookno (listing ! (n - 1)))"

lemma shelf_listing_strict: "books_ok rows \<Longrightarrow> sorted_wrt (<) (map r_bookno (shelf_listing rows sh b))"
  by (simp add: books_ok_def shelf_listing_def strict_sorted_iff distinct_map inj_on_def)

lemma shelf_listing_rest:
  assumes "books_ok rows" and "n \<le> length (shelf_listing rows sh 0)"
  shows "shelf_listing rows sh (known_upto (shelf_listing rows sh 0) n) = drop n (shelf_listing rows sh 0)"
proof (cases n)
  case (Suc k)
  let ?l = "shelf_listing rows sh 0"
  have k: "k < length ?l" using assms(2) Suc by simp
  then have "0 < r_bookno (?l ! k)" using nth_mem [OF k] by (simp add: shelf_listing_def)
  then have "shelf_listing rows sh (r_bookno (?l ! k)) = filter (\<lambda>r. r_bookno (?l ! k) < r_bookno r) ?l"
    by (auto simp: shelf_listing_def filter_sort intro!: arg_cong [where f = "sort_key r_bookno"] filter_cong)
  then show ?thesis using drop_strict_sorted [OF shelf_listing_strict [OF assms(1)] k] Suc by (simp add: known_upto_def)
qed (simp add: known_upto_def)

lemma known_upto_bounds:
  assumes "books_ok rows" and "n \<le> length (shelf_listing rows sh 0)"
  shows "0 \<le> known_upto (shelf_listing rows sh 0) n \<and> known_upto (shelf_listing rows sh 0) n < BREAK_LIMIT_INT"
proof (cases n)
  case (Suc k)
  then have "shelf_listing rows sh 0 ! k \<in> set (shelf_listing rows sh 0)" using assms(2) by simp
  then have "shelf_listing rows sh 0 ! k \<in> set rows" by (simp add: shelf_listing_def)
  then have "r_bookno (shelf_listing rows sh 0 ! k) \<in> {1..int (length rows)}" using assms(1) unfolding books_ok_def by blast
  then show ?thesis using assms(1) Suc by (simp add: books_ok_def known_upto_def limits)
qed (simp add: known_upto_def limits)

text \<open>The user reads shelf \<open>sh\<close>: \<open>n\<close> books of its listing are cached, the cursor stands at \<open>i\<close>.\<close>

definition reading :: "('d \<Rightarrow> bytes \<Rightarrow> bytes option) \<Rightarrow> aes_state \<Rightarrow> ('db \<Rightarrow> database) \<Rightarrow> book_row list \<Rightarrow> int \<Rightarrow> nat \<Rightarrow> nat
    \<Rightarrow> int \<Rightarrow> ('db wire, 'd) cli \<Rightarrow> bool" where
  "reading contents aes db_of rows sh n i bookno c \<longleftrightarrow> linked aes c \<and> w_inbox (cli_world (c_sock c)) = []
     \<and> ident (login_user c) \<and> c_str USER_NAME_LEN (login_user c)
     \<and> books (srv_data db_of (server_of c)) (login_user c @ ''_books'') = Some rows
     \<and> n \<le> length (shelf_listing rows sh 0) \<and> i \<le> n
     \<and> book_cache contents (c_db c) (map book_entry_of (take n (shelf_listing rows sh 0)))
     \<and> book_search_pos (c_db c) = int i \<and> bookno = known_upto (shelf_listing rows sh 0) n"

definition shelf_shown :: "book_row list \<Rightarrow> int \<Rightarrow> bool" where
  "shelf_shown rows sh \<longleftrightarrow> books_ok rows \<and> sh \<noteq> NON_SENSE_INT \<and> c_int sh
     \<and> (\<forall>r \<in> set (shelf_listing rows sh 0). wf_book (book_entry_of r) \<and> book_line (book_entry_of r) \<noteq> None)"

lemma length_listing: "books_ok rows \<Longrightarrow> length (shelf_listing rows sh b) \<le> 10000"
  unfolding shelf_listing_def length_sort by (rule order_trans [OF length_filter_le]) (simp add: books_ok_def limits)

context connection
begin

lemma cached_page:
  assumes r: "reading contents aes db_of rows sh n i bookno c" and s: "shelf_shown rows sh" and i: "i < n"
  shows "\<exists>c'. next_page_bookinfo C junk sh bookno None c = Some \<lparr>pr_res = int (length (take 30 (drop i (take n (shelf_listing rows sh 0))))),
      pr_lines = map (shown_line \<circ> book_entry_of) (take 30 (drop i (take n (shelf_listing rows sh 0)))), pr_bookno = bookno, pr_search = None, pr_cli = c'\<rparr>
    \<and> reading contents aes db_of rows sh n (i + length (take 30 (drop i (take n (shelf_listing rows sh 0))))) bookno c' \<and> book_search_step (c_db c') = 30"
proof -
  let ?bs = "map book_entry_of (take n (shelf_listing rows sh 0))"
  have bc: "book_cache contents (c_db c) ?bs" "book_search_pos (c_db c) = int i" "i \<le> length ?bs" and n: "n \<le> length (shelf_listing rows sh 0)"
    using r by (auto simp: reading_def)
  have sh: "showable ?bs" using s by (auto simp: shelf_shown_def showable_def dest: in_set_takeD)
  obtain d' where d': "show_page dlib junk (c_db c) = Some (True, map shown_line (take 30 (drop i ?bs)),
      (if drop i ?bs = [] then junk else last (take 30 (drop i ?bs))), d')"
    "book_cache contents d' ?bs" "book_search_pos d' = int (i + length (take 30 (drop i ?bs)))" "book_search_step d' = 30"
    by (rule show_page_shows [OF bc(1) sh bc(2,3)])
  have ne: "take 30 (drop i ?bs) \<noteq> []" using i n by simp
  have m: "map shown_line (take 30 (drop i ?bs)) = map (shown_line \<circ> book_entry_of) (take 30 (drop i (take n (shelf_listing rows sh 0))))"
    by (simp add: take_map drop_map)
  show ?thesis
    using d' ne m r i n
    by (intro exI [of _ "c\<lparr>c_db := d'\<rparr>"]) (auto simp: next_page_bookinfo_def C reading_def linked_def take_map drop_map)
qed

lemma loaded_page:
  assumes up: "mysql_up (e_api E) dia db_of" and r: "reading contents aes db_of rows sh n n bookno c" and s: "shelf_shown rows sh"
    and page: "page = take 30 (drop n (shelf_listing rows sh 0))"
  shows "\<exists>c'. next_page_bookinfo C junk sh bookno None c = Some \<lparr>pr_res = int (length page), pr_lines = map (shown_line \<circ> book_entry_of) page,
      pr_bookno = known_upto (shelf_listing rows sh 0) (n + length page), pr_search = None, pr_cli = c'\<rparr>
    \<and> reading contents aes db_of rows sh (n + length page) (n + length page) (known_upto (shelf_listing rows sh 0) (n + length page)) c'
    \<and> (page \<noteq> [] \<longrightarrow> book_search_step (c_db c') = 30)"
proof -
  let ?l = "shelf_listing rows sh 0" and ?bs = "map book_entry_of (take n (shelf_listing rows sh 0))"
  have ok: "books_ok rows" and sh: "sh \<noteq> NON_SENSE_INT" "c_int sh" using s by (simp_all add: shelf_shown_def)
  have bc: "book_cache contents (c_db c) ?bs" "book_search_pos (c_db c) = int n" "n \<le> length ?bs" and n: "n \<le> length ?l"
    and bookno: "bookno = known_upto ?l n" using r by (auto simp: reading_def)
  have showl: "showable (map book_entry_of (take k ?l))" for k using s by (auto simp: shelf_shown_def showable_def dest: in_set_takeD)
  obtain d where d: "show_page dlib junk (c_db c) = Some (True, [], junk, d)" "book_cache contents d ?bs" "book_search_pos d = int n"
    by (rule show_page_shows [OF bc(1) showl bc(2,3), of junk]) (use n in simp)
  let ?c = "c\<lparr>c_db := d\<rparr>"
  have c: "linked aes ?c" "w_inbox (cli_world (c_sock ?c)) = []" "ident (login_user ?c)" "c_str USER_NAME_LEN (login_user ?c)"
    "books (srv_data db_of (server_of ?c)) (login_user ?c @ ''_books'') = Some rows" "book_cache contents (c_db ?c) ?bs"
    using r d by (auto simp: reading_def linked_def)
  have pg: "page = take 30 (shelf_listing rows sh bookno)" using page shelf_listing_rest [OF ok n] bookno by simp
  have wf: "\<forall>x \<in> set page. wf_book (book_entry_of x)" using s page by (auto simp: shelf_shown_def dest!: in_set_takeD in_set_dropD)
  have room: "int (length ?bs) + 30 < 2147483647" using length_listing [OF ok, of sh 0] n by simp
  have bnd: "0 \<le> bookno" "bookno < BREAK_LIMIT_INT" using known_upto_bounds [OF ok n] bookno by simp_all
  obtain c1 where c1: "client_shelf_loading_book C sh bookno ?c = Some (if page = [] then -1 else 1, c1)"
    "book_cache contents (c_db c1) (?bs @ map book_entry_of page)" "srv_data db_of (server_of c1) = srv_data db_of (server_of ?c)"
    "w_inbox (cli_world (c_sock c1)) = []" "linked aes c1" "login_user c1 = login_user ?c" "book_search_pos (c_db c1) = int n"
    using loading_effect [OF up c(1-4) sh bnd c(5) pg wf c(6) room] d(3) by auto
  have "take (length page) (drop n ?l) = page" unfolding page by (simp add: min_def)
  then have bs: "?bs @ map book_entry_of page = map book_entry_of (take (n + length page) ?l)" by (simp add: take_add)
  have len: "n + length page \<le> length ?l" using n page by simp
  have r1: "reading contents aes db_of rows sh (n + length page) n (known_upto ?l (n + length page)) c1"
    using c c1 bs len by (simp add: reading_def)
  show ?thesis
  proof (cases "page = []")
    case True
    then show ?thesis using d(1) c1(1) r1 bookno by (auto simp: next_page_bookinfo_def fetch_books_def C)
  next
    case False
    obtain d2 where d2: "show_page dlib junk (c_db c1) = Some (True, map shown_line (take 30 (drop n (?bs @ map book_entry_of page))),
        (if drop n (?bs @ map book_entry_of page) = [] then junk else last (take 30 (drop n (?bs @ map book_entry_of page)))), d2)"
      "book_cache contents d2 (?bs @ map book_entry_of page)"
      "book_search_pos d2 = int (n + length (take 30 (drop n (?bs @ map book_entry_of page))))" "book_search_step d2 = 30"
      by (rule show_page_shows [OF c1(2) _ c1(7)]) (use n showl bs in simp_all)
    have pg30: "take 30 (drop n (?bs @ map book_entry_of page)) = map book_entry_of page" using n page by simp
    have "last page = ?l ! (n + length page - 1)"
      using False page len by (simp add: last_conv_nth)
    then have "code2 (book_entry_of (last page)) = known_upto ?l (n + length page)"
      using False by (simp add: known_upto_def book_entry_of_def)
    then have "next_page_bookinfo C junk sh bookno None c = Some \<lparr>pr_res = int (length page), pr_lines = map (shown_line \<circ> book_entry_of) page,
      pr_bookno = known_upto ?l (n + length page), pr_search = None, pr_cli = c1\<lparr>c_db := d2\<rparr>\<rparr>"
      using d(1) c1(1) d2(1) False n unfolding pg30 by (simp add: next_page_bookinfo_def fetch_books_def C last_map)
    moreover have "min (length page) 30 = length page" using page by simp
    ultimately show ?thesis using r1 d2(2-4) unfolding pg30 bs by (auto simp: reading_def linked_def)
  qed
qed

lemma shown_and_turned:
  assumes up: "mysql_up (e_api E) dia db_of" and s: "shelf_shown rows sh" and i: "i = 30 * q"
    and r: "reading contents aes db_of rows sh n i bookno c" and n: "n = i \<or> n = min (i + 30) (length (shelf_listing rows sh 0))"
    and more: "i < length (shelf_listing rows sh 0)"
  obtains pr where "next_page_bookinfo C junk sh bookno None c = Some pr" and "0 < pr_res pr"
    and "pr_lines pr = map (shown_line \<circ> book_entry_of) (take 30 (drop i (shelf_listing rows sh 0)))"
    and "reading contents aes db_of rows sh (min (i + 30) (length (shelf_listing rows sh 0)))
      (min (i + 30) (length (shelf_listing rows sh 0))) (pr_bookno pr) (pr_cli pr)"
proof (cases "i < n")
  case True
  let ?l = "shelf_listing rows sh 0"
  have n': "n = min (i + 30) (length ?l)" using n True by auto
  then have t: "take 30 (drop i (take n ?l)) = take 30 (drop i ?l)" by (simp add: drop_take min_def)
  have "i + length (take 30 (drop i ?l)) = n" using n' more by simp
  moreover have "0 < length (take 30 (drop i ?l))" using more by simp
  ultimately show ?thesis using cached_page [OF r s True, of junk] that n' unfolding t by fastforce
next
  case False
  let ?l = "shelf_listing rows sh 0"
  have "n = i" using r False by (auto simp: reading_def)
  moreover have "i + length (take 30 (drop i ?l)) = min (i + 30) (length ?l)" using more by simp
  moreover have "0 < length (take 30 (drop i ?l))" using more by simp
  ultimately show ?thesis using loaded_page [OF up _ s refl, of i bookno c junk] r that by fastforce
qed

lemma page_turned:
  assumes up: "mysql_up (e_api E) dia db_of" and s: "shelf_shown rows sh" and n: "n = 30 * q"
    and r: "reading contents aes db_of rows sh n n bookno c" and more: "n < length (shelf_listing rows sh 0)"
  obtains pr where "turn_right C junk sh bookno None c = Some (pr_res pr, pr)" and "0 < pr_res pr"
    and "reading contents aes db_of rows sh (min (n + 30) (length (shelf_listing rows sh 0))) n (pr_bookno pr) (pr_cli pr)"
proof -
  let ?l = "shelf_listing rows sh 0" and ?page = "take 30 (drop n (shelf_listing rows sh 0))"
  have ne: "?page \<noteq> []" "0 < int (length ?page)" using more by simp_all
  have m: "n + length ?page = min (n + 30) (length ?l)" using more by simp
  obtain p where p: "next_page_bookinfo C junk sh bookno None c = Some p" "0 < pr_res p" "pr_bookno p = known_upto ?l (n + length ?page)"
    "reading contents aes db_of rows sh (n + length ?page) (n + length ?page) (pr_bookno p) (pr_cli p)" "book_search_step (c_db (pr_cli p)) = 30"
    using loaded_page [OF up r s refl, of junk] ne by fastforce
  let ?d = "(c_db (pr_cli p))\<lparr>book_search_pos := int n\<rparr>" and ?p = "p\<lparr>pr_cli := (pr_cli p)\<lparr>c_db := (c_db (pr_cli p))\<lparr>book_search_pos := int n\<rparr>\<rparr>\<rparr>"
  have "(int (n + length ?page) - 1) div 30 * 30 = int n" using n ne(2) by simp
  then have b: "clidb_book_backward_mode (c_db (pr_cli p)) = Some ?d"
    using backward_mode_page [of "c_db (pr_cli p)"] p(4,5) ne(2) by (simp add: reading_def)
  have "reading contents aes db_of rows sh (n + length ?page) n (pr_bookno p) ((pr_cli p)\<lparr>c_db := ?d\<rparr>)"
    using p(4) by (simp add: reading_def linked_def)
  moreover have "turn_right C junk sh bookno None c = Some (pr_res ?p, ?p)" using p(1,2) b by (simp add: turn_right_def)
  ultimately show ?thesis using that [of ?p] p(2) unfolding m by simp
qed

lemma pages_shown:
  assumes up: "mysql_up (e_api E) dia db_of" and s: "shelf_shown rows sh"
  shows "reading contents aes db_of rows sh n (30 * q) bookno c \<Longrightarrow> n = 30 * q \<or> n = min (30 * q + 30) (length (shelf_listing rows sh 0))
    \<Longrightarrow> length (shelf_listing rows sh 0) \<le> 30 * q + 30 * j
    \<Longrightarrow> \<exists>pgs. show_pages C junk sh j bookno c = Some pgs
      \<and> concat pgs = map (shown_line \<circ> book_entry_of) (drop (30 * q) (shelf_listing rows sh 0))"
proof (induction j arbitrary: n q bookno c)
  case (Suc j)
  let ?l = "shelf_listing rows sh 0"
  show ?case
  proof (cases "30 * q < length ?l")
    case True
    obtain pr where pr: "next_page_bookinfo C junk sh bookno None c = Some pr" "0 < pr_res pr"
      "pr_lines pr = map (shown_line \<circ> book_entry_of) (take 30 (drop (30 * q) ?l))"
      "reading contents aes db_of rows sh (min (30 * q + 30) (length ?l)) (min (30 * q + 30) (length ?l)) (pr_bookno pr) (pr_cli pr)"
      by (rule shown_and_turned [OF up s refl Suc.prems(1,2) True])
    show ?thesis
    proof (cases "30 * q + 30 < length ?l")
      case more: True
      then have m: "min (30 * q + 30) (length ?l) = 30 * (q + 1)" by simp
      obtain pr' where pr': "turn_right C junk sh (pr_bookno pr) None (pr_cli pr) = Some (pr_res pr', pr')" "0 < pr_res pr'"
        "reading contents aes db_of rows sh (min (30 * (q + 1) + 30) (length ?l)) (30 * (q + 1)) (pr_bookno pr') (pr_cli pr')"
        by (rule page_turned [OF up s refl, of "q + 1" "pr_bookno pr" "pr_cli pr" junk]) (use pr(4) m more in simp_all)
      have "length ?l \<le> 30 * (q + 1) + 30 * j" using Suc.prems(3) by simp
      then obtain pgs where "show_pages C junk sh j (pr_bookno pr') (pr_cli pr') = Some pgs"
          "concat pgs = map (shown_line \<circ> book_entry_of) (drop (30 * (q + 1)) ?l)" using Suc.IH [OF pr'(3)] by blast
      moreover have "take 30 (drop (30 * q) ?l) @ drop (30 * (q + 1)) ?l = drop (30 * q) ?l"
        using append_take_drop_id [of 30 "drop (30 * q) ?l"] by (simp add: add.commute)
      ultimately show ?thesis using pr pr' by (auto simp flip: map_append)
    next
      case False
      then have m: "min (30 * q + 30) (length ?l) = length ?l" by simp
      have "\<exists>pr'. turn_right C junk sh (pr_bookno pr) None (pr_cli pr) = Some (0, pr')"
        using loaded_page [OF up _ s refl, of "length ?l" "pr_bookno pr" "pr_cli pr" junk] pr(4) unfolding m by (auto simp: turn_right_def)
      then show ?thesis using pr False by auto
    qed
  next
    case False
    then have "n = 30 * q" "30 * q = length ?l" using Suc.prems(1) by (auto simp: reading_def)
    then show ?thesis using loaded_page [OF up _ s refl, of n bookno c junk] Suc.prems(1) by fastforce
  qed
qed simp

end

section \<open>All the pages\<close>

text \<open>C38: turning the pages of a shelf shows all of it: from an empty cache, with a server that answers, the user who
  opens the shelf and turns as many pages as its books need is shown every book of the shelf that the server
  holds, once each and in the order of their numbers, and the pages end.\<close>

theorem shelf_pages_complete:
  assumes "connection lib aes dlib contents E C k m0" and "mysql_up (e_api E) dia db_of" and "shelf_shown rows sh"
    and "reading contents aes db_of rows sh 0 0 0 c" and "length (shelf_listing rows sh 0) \<le> 30 * j"
  shows "\<exists>pgs. show_pages C junk sh j 0 c = Some pgs
    \<and> concat pgs = map (shown_line \<circ> book_entry_of) (shelf_listing rows sh 0)"
  using connection.pages_shown [OF assms(1,2,3), of 0 0 0 c j junk] assms(4,5) by simp

lemma sample_shelf_shown: "shelf_shown sample_rows 2"
proof -
  have "books_ok sample_rows" by (rule sample_rows_ok)
  moreover have "shelf_listing sample_rows 2 0 = [sample_row 1 BOOK_AVL, sample_row 3 BOOK_AVL]" by code_simp
  moreover have "book_line (book_entry_of (sample_row 1 BOOK_AVL)) \<noteq> None" "book_line (book_entry_of (sample_row 3 BOOK_AVL)) \<noteq> None" by code_simp+
  ultimately show ?thesis using sample_row_wf by (simp add: shelf_shown_def limits c_int_def)
qed

theorem shelf_pages_complete_witness:
  "show_pages sample_cenv zero_book 2 1 0 (sample_cli shelf_srv)
    = Some [map (shown_line \<circ> book_entry_of) [sample_row 1 BOOK_AVL, sample_row 3 BOOK_AVL]]"
proof -
  have up: "mysql_up (e_api answer_env) ref_dialect rdb" using up.mysql_up_axioms by (simp add: sample_cli_simps)
  have r: "reading (\<lambda>d. d) sample_aes rdb sample_rows 2 0 0 0 (sample_cli shelf_srv)"
    using sample_cli_simps by (simp add: reading_def known_upto_def srv_data_def shelf_srv_def sample_srv_def book_cache_def sample_cache_def)
  have l: "shelf_listing sample_rows 2 0 = [sample_row 1 BOOK_AVL, sample_row 3 BOOK_AVL]" by code_simp
  have "\<exists>pgs. show_pages sample_cenv zero_book 2 1 0 (sample_cli shelf_srv) = Some pgs
    \<and> concat pgs = map (shown_line \<circ> book_entry_of) (shelf_listing sample_rows 2 0)"
    by (rule shelf_pages_complete [OF cn.connection_axioms up sample_shelf_shown r]) (simp add: l)
  then show ?thesis by (auto simp: l split: option.splits if_splits)
qed

end
