(* ===== verification/Ncgui_Show.thy ===== *)
theory Ncgui_Show
  imports Ncgui_Books
begin

unbundle bit_operations_syntax

text \<open>
  What the pages print about a book, a new book and a search (\<^verbatim>\<open>show_book_info\<close>, \<^verbatim>\<open>show_newbook_info\<close>, \<^verbatim>\<open>show_searchbox_info\<close> and
  \<^verbatim>\<open>split_labels\<close> of \<^verbatim>\<open>bsdqclient/ncgui.c\<close>): the texts, without their places on the screen.  \<^const>\<open>None\<close> is undefined
  behaviour: an index outside \<^verbatim>\<open>HEX_ASC\<close>, more labels than \<^verbatim>\<open>slabel\<close> has room for, a text longer than its buffer.
\<close>

section \<open>Labels\<close>

text \<open>\<^verbatim>\<open>split_labels\<close>: every second comma ends a line; \<open>cur\<close> is the text since \<^verbatim>\<open>last_offset\<close>.\<close>

fun split_labels_loop :: "string \<Rightarrow> string \<Rightarrow> nat \<Rightarrow> string list" where
  "split_labels_loop [] cur index = [cur]"
| "split_labels_loop (ch # rest) cur index =
     (if ch = CHR '','' then
        if Suc index mod 2 = 0 then cur # split_labels_loop rest '''' (Suc index)
        else split_labels_loop rest (cur @ [ch]) (Suc index)
      else split_labels_loop rest (cur @ [ch]) index)"

definition SLABEL_ROWS :: nat where "SLABEL_ROWS = MAX_LABEL_NUM div 2"
definition SLABEL_SZ :: nat where "SLABEL_SZ = 38"

definition split_labels :: "string \<Rightarrow> string list option" where
  "split_labels label =
     (let rows = split_labels_loop label '''' 0 in
      if SLABEL_ROWS < length rows \<or> \<not> list_all (\<lambda>r. length r < SLABEL_SZ) rows then None
      else Some (rows @ replicate (SLABEL_ROWS - length rows) ''''))"

text \<open>\<^verbatim>\<open>while(slabel[j][0])\<close>: the loop leaves the array when every row holds a text.\<close>

definition label_lines :: "string \<Rightarrow> string list option" where
  "label_lines label = Option.bind (split_labels label) (\<lambda>rows.
     if '''' \<notin> set rows then None else Some (takeWhile (\<lambda>r. r \<noteq> '''') rows))"

section \<open>A book\<close>

definition HEX_ASC :: string where "HEX_ASC = ''0123456789ABCDEF''"

definition hex_asc :: "int \<Rightarrow> char option" where
  "hex_asc i = (if 0 \<le> i \<and> i < 16 then Some (HEX_ASC ! nat i) else None)"

definition unique_digits :: "book_entry \<Rightarrow> int list" where
  "unique_digits b = [code0 b smod 16, code1 b sdiv 16, code1 b smod 16, drop_bit 12 (code2 b) AND 0x0F,
     drop_bit 8 (code2 b) AND 0x0F, drop_bit 4 (code2 b) AND 0x0F, code2 b AND 0x0F]"

definition unique_code :: "book_entry \<Rightarrow> string option" where
  "unique_code b = those (map hex_asc (unique_digits b))"

record book_info =
  bs_unique :: string
  bs_author :: string
  bs_shelf :: "string option"
  bs_place :: "int \<times> int"
  bs_time :: string
  bs_marks :: "bool \<times> bool"
  bs_labels :: "string list"

text \<open>\<open>e\<close> is the uninitialised \<^verbatim>\<open>local_shelf\<close>; a deleted book has no information.\<close>

definition shelf_name_shown :: "'d dbm_lib \<Rightarrow> shelf_entry \<Rightarrow> int \<Rightarrow> 'd clidb \<Rightarrow> string option" where
  "shelf_name_shown lib e n d = Option.bind (clidb_shelf_get lib n e d) (\<lambda>(_, e1). limit_str_width (s_name e1) 18)"

definition show_book_info :: "'d dbm_lib \<Rightarrow> shelf_entry \<Rightarrow> 'd clidb \<Rightarrow> book_entry \<Rightarrow> bool \<Rightarrow> book_info option option" where
  "show_book_info lib e d b bShowShelf =
     (if encoding_time b = '''' then Some None
      else Option.bind (unique_code b) (\<lambda>unique.
        Option.bind (limit_str_width (b_author b) 18) (\<lambda>author.
        Option.bind (if bShowShelf then map_option Some (shelf_name_shown lib e (code0 b) d) else Some None) (\<lambda>shelf.
        Option.bind (label_lines (b_label b)) (\<lambda>rows.
        Option.bind (those (map (\<lambda>r. limit_str_width r 18) rows)) (\<lambda>labels.
          Some (Some \<lparr>bs_unique = unique, bs_author = author, bs_shelf = shelf, bs_place = (code1 b sdiv 16, code1 b smod 16),
            bs_time = encoding_time b, bs_marks = (on_reading b = CHR ''1'', borrowed b = CHR ''1''), bs_labels = labels\<rparr>)))))))"

text \<open>The name, the author, the place and the labels of a new book, as far as they have been entered.\<close>

definition shown_if :: "string \<Rightarrow> (string \<Rightarrow> 'a option) \<Rightarrow> 'a option option" where
  "shown_if s f = (if s = '''' then Some None else map_option Some (f s))"

definition show_newbook_info :: "book_entry \<Rightarrow> (string option \<times> string option \<times> (int \<times> int) option \<times> string list option) option" where
  "show_newbook_info b =
     Option.bind (shown_if (b_name b) (\<lambda>s. limit_str_width s 30)) (\<lambda>name.
     Option.bind (shown_if (b_author b) (\<lambda>s. limit_str_width s 30)) (\<lambda>author.
     Option.bind (shown_if (b_label b) label_lines) (\<lambda>labels.
       Some (name, author, if 0 < code1 b then Some (shown_floor b) else None, labels))))"

section \<open>A search\<close>

datatype search_line = Sl_borrowed | Sl_reading | Sl_like char string | Sl_exact char string | Sl_or | Sl_and

text \<open>The lines of one condition: \<open>c\<close> names the field, \<open>follows\<close> says that another condition follows.\<close>

definition condition_lines :: "char \<Rightarrow> char \<Rightarrow> string \<Rightarrow> bool \<Rightarrow> search_line list" where
  "condition_lines c op s follows =
     (if op = CHR ''-'' then Sl_like c s # (if follows then [Sl_or] else [])
      else if op = CHR ''+'' then Sl_like c s # (if follows then [Sl_and] else [])
      else if op = CHR ''='' then Sl_exact c s # (if follows then [Sl_and] else [])
      else [])"

definition label_shown :: "string \<Rightarrow> string option" where
  "label_shown label =
     (let s = tl label @ (if MAX_LABEL_NUM \<le> length label then ''...'' else '''') in
      if length s < STR_SHOW_SZ then Some s else None)"

definition label_condition :: "string \<Rightarrow> string \<Rightarrow> search_line list" where
  "label_condition label s = (if char_at0 label = CHR ''-'' \<or> char_at0 label = CHR ''+'' then [Sl_like (CHR ''l'') s] else [])"

definition show_searchbox_info :: "book_entry \<Rightarrow> search_line list option" where
  "show_searchbox_info b =
     (if borrowed b = CHR ''1'' then Some [Sl_borrowed]
      else if on_reading b = CHR ''1'' then Some [Sl_reading]
      else Option.bind (limit_str_width (tl (b_name b)) 38) (\<lambda>name.
        Option.bind (limit_str_width (tl (b_author b)) 38) (\<lambda>author.
        Option.bind (label_shown (b_label b)) (\<lambda>label.
          Some (condition_lines (CHR ''b'') (char_at0 (b_name b)) name (char_at0 (b_author b) \<noteq> CHR ''0'')
            @ condition_lines (CHR ''a'') (char_at0 (b_author b)) author (char_at0 (b_label b) \<noteq> CHR ''0'')
            @ label_condition (b_label b) label)))))"

section \<open>The main menu\<close>

text \<open>\<^verbatim>\<open>greet[20]\<close> of \<^verbatim>\<open>ncgui_display_mainmenu_page\<close>: a long name is cut to eight characters, and the three stars and the terminator
  are written from index 17 on.\<close>

definition greet_text :: "string \<Rightarrow> string option" where
  "greet_text usr =
     (let t = ''Welcome: '' @ (if length usr \<le> 8 then usr else take 8 usr @ ''***'') in
      if length t < 20 then Some t else None)"

definition details_text :: "shelf_count \<Rightarrow> book_count \<Rightarrow> string option" where
  "details_text sc bc =
     (let t = utf8 [228, 185, 166, 230, 158, 182] @ dec (shelves_all sc) @ utf8 [228, 184, 170, 44, 229, 155, 190, 228, 185, 166]
        @ dec (books_all bc) @ utf8 [229, 134, 140, 32, 229, 156, 168, 232, 175, 187] @ dec (books_on_reading bc)
        @ utf8 [229, 134, 140, 32, 229, 128, 159, 229, 135, 186] @ dec (books_borrowed bc)
        @ utf8 [229, 134, 140, 32, 230, 156, 170, 229, 189, 146, 230, 161, 163] @ dec (books_unsorted bc) @ utf8 [229, 134, 140] in
      if length t < 80 then Some t else None)"

section \<open>Properties of the texts\<close>

lemma and_15: "(x :: int) AND 15 = x mod 16"
  using take_bit_eq_mask [of 4 x] by (simp add: take_bit_eq_mod mask_eq_exp_minus_1)

lemma hex_asc_inj: "hex_asc i = hex_asc j \<Longrightarrow> hex_asc i \<noteq> None \<Longrightarrow> i = j"
proof -
  assume "hex_asc i = hex_asc j" "hex_asc i \<noteq> None"
  then have b: "nat i < length HEX_ASC" "nat j < length HEX_ASC" "0 \<le> i" "0 \<le> j" "HEX_ASC ! nat i = HEX_ASC ! nat j"
    by (auto simp: hex_asc_def HEX_ASC_def split: if_splits)
  moreover have "distinct HEX_ASC" by (simp add: HEX_ASC_def)
  ultimately have "nat i = nat j" using nth_eq_iff_index_eq by blast
  then show ?thesis using b by simp
qed

lemma those_hex_inj: "those (map hex_asc xs) = Some s \<Longrightarrow> those (map hex_asc ys) = Some s \<Longrightarrow> xs = ys"
proof (induction xs arbitrary: ys s)
  case Nil
  then show ?case by (cases ys) (auto split: option.splits)
next
  case (Cons x xs)
  obtain c r where s: "s = c # r" "hex_asc x = Some c" "those (map hex_asc xs) = Some r"
    using Cons.prems(1) by (auto split: option.splits)
  then obtain y zs where "ys = y # zs" "hex_asc y = Some c" "those (map hex_asc zs) = Some r"
    using Cons.prems(2) by (cases ys) (auto split: option.splits)
  then show ?case using Cons.IH s hex_asc_inj [of x y] by simp
qed

text \<open>The printed number identifies a book that is stored in the library.\<close>

definition in_library :: "book_entry \<Rightarrow> bool" where
  "in_library b \<longleftrightarrow> 0 \<le> code0 b \<and> code0 b < 16 \<and> 0 \<le> code1 b \<and> code1 b < 256 \<and> 0 \<le> code2 b \<and> code2 b < 65536"

lemma sdiv_nonneg: "0 \<le> (x :: int) \<Longrightarrow> x sdiv 16 = x div 16 \<and> x smod 16 = x mod 16"
  by (cases "x = 0") (simp_all add: signed_divide_int_def signed_modulo_int_def)

lemma hex_value: "(x :: int) = 4096 * (x div 4096) + 256 * (x div 256 mod 16) + 16 * (x div 16 mod 16) + x mod 16"
proof -
  have d: "x div 16 div 16 = x div 256" "x div 256 div 16 = x div 4096" by (simp_all flip: zdiv_zmult2_eq)
  have "x = 16 * (x div 16) + x mod 16" "x div 16 = 16 * (x div 256) + x div 16 mod 16"
    "x div 256 = 16 * (x div 4096) + x div 256 mod 16"
    using mult_div_mod_eq [of 16 x] mult_div_mod_eq [of 16 "x div 16"] mult_div_mod_eq [of 16 "x div 256"] unfolding d by simp_all
  then show ?thesis by linarith
qed

lemma unique_digits_value:
  assumes "in_library b"
  shows "code0 b = unique_digits b ! 0" and "code1 b = 16 * unique_digits b ! 1 + unique_digits b ! 2"
    and "code2 b = 4096 * unique_digits b ! 3 + 256 * unique_digits b ! 4 + 16 * unique_digits b ! 5 + unique_digits b ! 6"
proof -
  have sd: "code1 b sdiv 16 = code1 b div 16" "code1 b smod 16 = code1 b mod 16" "code0 b smod 16 = code0 b"
    using assms sdiv_nonneg by (simp_all add: in_library_def)
  show "code0 b = unique_digits b ! 0" "code1 b = 16 * unique_digits b ! 1 + unique_digits b ! 2"
    by (simp_all add: unique_digits_def sd)
  have "code2 b div 4096 mod 16 = code2 b div 4096"
    using assms by (intro mod_pos_pos_trivial) (auto simp: in_library_def)
  then have "unique_digits b ! 3 = code2 b div 4096" "unique_digits b ! 4 = code2 b div 256 mod 16"
    "unique_digits b ! 5 = code2 b div 16 mod 16" "unique_digits b ! 6 = code2 b mod 16"
    by (simp_all add: unique_digits_def drop_bit_eq_div and_15)
  then show "code2 b = 4096 * unique_digits b ! 3 + 256 * unique_digits b ! 4 + 16 * unique_digits b ! 5 + unique_digits b ! 6"
    using hex_value [of "code2 b"] by linarith
qed

lemma unique_code_defined: "in_library b \<Longrightarrow> unique_code b \<noteq> None"
  using sdiv_nonneg [of "code0 b"] sdiv_nonneg [of "code1 b"]
  by (auto simp: unique_code_def unique_digits_def and_15 hex_asc_def in_library_def)

lemma unique_code_identifies:
  assumes "in_library b" and "in_library b'" and "unique_code b = unique_code b'"
  shows "code0 b = code0 b' \<and> code1 b = code1 b' \<and> code2 b = code2 b'"
proof -
  have "unique_digits b = unique_digits b'"
    using unique_code_defined [OF assms(1)] assms(3) those_hex_inj unfolding unique_code_def by fastforce
  then show ?thesis using unique_digits_value [OF assms(1)] unique_digits_value [OF assms(2)] by simp
qed

text \<open>Labels as \<^verbatim>\<open>draw_bi_tagging_box\<close> joins them: the lines hold two labels each.\<close>

fun join_labels :: "string list \<Rightarrow> string" where
  "join_labels [] = ''''"
| "join_labels [t] = t"
| "join_labels (t # ts) = t @ CHR '','' # join_labels ts"

fun label_pairs :: "string list \<Rightarrow> string list" where
  "label_pairs (t # t' # ts) = (t @ CHR '','' # t') # label_pairs ts"
| "label_pairs [t] = [t]"
| "label_pairs [] = []"

lemma split_loop_tag:
  "CHR '','' \<notin> set t \<Longrightarrow> split_labels_loop (t @ r) cur n = split_labels_loop r (cur @ t) n"
  by (induction t arbitrary: cur) auto

lemma split_pairs:
  "\<forall>t \<in> set ts. CHR '','' \<notin> set t \<Longrightarrow> ts \<noteq> [] \<Longrightarrow> even n \<Longrightarrow> split_labels_loop (join_labels ts) '''' n = label_pairs ts"
proof (induction ts arbitrary: n rule: label_pairs.induct)
  case (1 t t' ts)
  have n: "Suc n mod 2 = 1" "Suc (Suc n) mod 2 = 0" using 1(4) by presburger+
  show ?case
  proof (cases ts)
    case Nil
    then show ?thesis using 1 split_loop_tag [of t "CHR '','' # t'" "''''" n] split_loop_tag [of t' "''''" "t @ '',''" "Suc n"] n
      by simp
  next
    case (Cons x xs)
    then have "split_labels_loop (join_labels ts) '''' (Suc (Suc n)) = label_pairs ts" using 1 by simp
    then show ?thesis using 1 Cons split_loop_tag [of t "CHR '','' # t' @ CHR '','' # join_labels ts" "''''" n]
        split_loop_tag [of t' "CHR '','' # join_labels ts" "t @ '',''" "Suc n"] n by simp
  qed
qed (use split_loop_tag [of _ "''''" "''''"] in auto)

lemma label_pairs_bounds:
  "\<forall>t \<in> set ts. t \<noteq> '''' \<and> length t \<le> LABEL_NAME_LEN \<Longrightarrow> r \<in> set (label_pairs ts) \<Longrightarrow> r \<noteq> '''' \<and> length r < SLABEL_SZ"
  by (induction ts rule: label_pairs.induct) (auto simp: limits SLABEL_SZ_def)

lemma length_label_pairs: "length (label_pairs ts) = (length ts + 1) div 2"
  by (induction ts rule: label_pairs.induct) auto

text \<open>Up to eight labels are shown, two in a line; the ninth fills the last row of \<^verbatim>\<open>slabel\<close>, and the loop that
  prints the rows runs past its end.\<close>

lemma label_lines_pairs:
  assumes "\<forall>t \<in> set ts. CHR '','' \<notin> set t \<and> t \<noteq> '''' \<and> length t \<le> LABEL_NAME_LEN" and "ts \<noteq> []"
  shows "label_lines (join_labels ts) = (if length ts \<le> 8 then Some (label_pairs ts) else None)"
proof -
  have s: "split_labels_loop (join_labels ts) '''' 0 = label_pairs ts" using split_pairs [of ts 0] assms by simp
  have b: "\<forall>r \<in> set (label_pairs ts). r \<noteq> '''' \<and> length r < SLABEL_SZ" using label_pairs_bounds assms(1) by blast
  have t: "takeWhile (\<lambda>r. r \<noteq> '''') (label_pairs ts @ replicate n '''') = label_pairs ts" for n
    using b by (subst takeWhile_append2) auto
  show ?thesis
    using s b t by (auto simp: label_lines_def split_labels_def Let_def length_label_pairs SLABEL_ROWS_def limits list_all_iff split: if_splits)
qed

text \<open>A comma typed inside a label counts as a separator: ten of them leave the array.\<close>

lemma typed_commas_undefined: "split_labels '',,,,,,,,,,'' = None"
  by code_simp

text \<open>A name of more than eight characters writes one byte behind \<^verbatim>\<open>greet\<close>.\<close>

lemma greeting_overflows: "greet_text name = None \<longleftrightarrow> 8 < length name"
  by (simp add: greet_text_def)

end
