(* ===== verification/Ui_Run.thy ===== *)
theory Ui_Run
  imports Prelude
begin

text \<open>
  The pages of the user interface as programs on its state \<open>'u\<close>.  A run of a page ends in one of three ways: it
  returns a value (\<^const>\<open>Inr\<close>), it stops where it waits for a key or an answer that does not come, or has
  undefined behaviour (\<^const>\<open>Inl\<close>, with the state it stopped in), or it goes on for ever (\<^const>\<open>None\<close>).
\<close>

section \<open>Runs\<close>

type_synonym ('u, 'a) run = "'u \<Rightarrow> ('u + 'a \<times> 'u) option"

definition ret :: "'a \<Rightarrow> ('u, 'a) run" where
  "ret x u = Some (Inr (x, u))"

definition stop :: "('u, 'a) run" where
  "stop u = Some (Inl u)"

definition bnd :: "('u, 'a) run \<Rightarrow> ('a \<Rightarrow> ('u, 'b) run) \<Rightarrow> ('u, 'b) run" where
  "bnd m f u = Option.bind (m u) (\<lambda>r. case r of Inl v \<Rightarrow> Some (Inl v) | Inr (x, v) \<Rightarrow> f x v)"

definition upd :: "('u \<Rightarrow> 'u) \<Rightarrow> ('u, unit) run" where
  "upd f u = Some (Inr ((), f u))"

definition look :: "('u \<Rightarrow> ('u, 'a) run) \<Rightarrow> ('u, 'a) run" where
  "look f u = f u u"

text \<open>A step that may be undefined: it stops then.\<close>

definition attempt :: "('u \<Rightarrow> ('a \<times> 'u) option) \<Rightarrow> ('u, 'a) run" where
  "attempt f u = (case f u of None \<Rightarrow> Some (Inl u) | Some (x, v) \<Rightarrow> Some (Inr (x, v)))"

lemma run_simps [simp]:
  "ret x u = Some (Inr (x, u))" "stop u = Some (Inl u)" "upd f u = Some (Inr ((), f u))" "look g u = g u u"
  "bnd (ret x) h = h x" "bnd stop h' u = Some (Inl u)"
  by (simp_all add: ret_def stop_def upd_def look_def bnd_def fun_eq_iff)

lemma bnd_mono [partial_function_mono]:
  fixes m :: "('f \<Rightarrow> 'g option) \<Rightarrow> ('u, 'a) run" and f :: "('f \<Rightarrow> 'g option) \<Rightarrow> 'a \<Rightarrow> ('u, 'b) run"
  assumes "\<And>u. mono_option (\<lambda>F. m F u)" and "\<And>x u. mono_option (\<lambda>F. f F x u)"
  shows "mono_option (\<lambda>F. bnd (m F) (f F) u)"
proof -
  have "mono_option (\<lambda>F. case r of Inl v \<Rightarrow> Some (Inl v) | Inr (x, v) \<Rightarrow> f F x v)" for r :: "'u + 'a \<times> 'u"
    using assms(2) by (cases r) (auto split: prod.split intro: option.const_mono)
  then show ?thesis unfolding bnd_def using assms(1) by (intro bind_mono) auto
qed

lemma sum_run_mono [partial_function_mono]:
  "(\<And>x. mono_option (\<lambda>F. f F x u)) \<Longrightarrow> (\<And>x. mono_option (\<lambda>F. g F x u)) \<Longrightarrow> mono_option (\<lambda>F. (case p of Inl x \<Rightarrow> f F x | Inr x \<Rightarrow> g F x) u)"
  by (cases p) simp_all

text \<open>A loop with the local variables \<open>'s\<close>: its body goes \<open>again\<close> with new values or \<open>quit\<close>s with the result.  Nothing
  says that it ends.\<close>

abbreviation again :: "'s \<Rightarrow> ('u, 's + 'r) run" where
  "again s \<equiv> ret (Inl s)"

abbreviation quit :: "'r \<Rightarrow> ('u, 's + 'r) run" where
  "quit x \<equiv> ret (Inr x)"

partial_function (option) loop :: "('s \<Rightarrow> ('u, 's + 'r) run) \<Rightarrow> 's \<Rightarrow> 'u \<Rightarrow> ('u + 'r \<times> 'u) option" where
  "loop body s u = bnd (body s) (\<lambda>r. case r of Inl s' \<Rightarrow> loop body s' | Inr x \<Rightarrow> ret x) u"

section \<open>Invariants of runs\<close>

text \<open>Whatever a run does, the states it stops or returns in satisfy \<open>J\<close> when the first one does.\<close>

definition final :: "('u \<Rightarrow> bool) \<Rightarrow> 'u + 'a \<times> 'u \<Rightarrow> bool" where
  "final J r = (case r of Inl v \<Rightarrow> J v | Inr (x, v) \<Rightarrow> J v)"

definition keeps :: "('u \<Rightarrow> bool) \<Rightarrow> ('u, 'a) run \<Rightarrow> bool" where
  "keeps J m \<longleftrightarrow> (\<forall>u r. J u \<longrightarrow> m u = Some r \<longrightarrow> final J r)"

named_theorems keeping

lemma final_simps [simp]: "final J (Inl v) = J v" "final J (Inr (x, v)) = J v"
  by (simp_all add: final_def)

lemma keepsD: "keeps J m \<Longrightarrow> m u = Some r \<Longrightarrow> J u \<longrightarrow> final J r"
  by (simp add: keeps_def)

lemma keepsI: "(\<And>u r. m u = Some r \<Longrightarrow> J u \<longrightarrow> final J r) \<Longrightarrow> keeps J m"
  by (simp add: keeps_def)

lemma keeps_ret [keeping]: "keeps J (ret x)"
  by (simp add: keeps_def)

lemma keeps_stop [keeping]: "keeps J stop"
  by (simp add: keeps_def)

lemma keeps_upd: "(\<And>u. J u \<Longrightarrow> J (f u)) \<Longrightarrow> keeps J (upd f)"
  by (simp add: keeps_def)

lemma keeps_bnd [keeping]: "keeps J m \<Longrightarrow> (\<And>x. keeps J (f x)) \<Longrightarrow> keeps J (bnd m f)"
  unfolding keeps_def bnd_def bind_eq_Some_conv by (force split: sum.splits)

lemma keeps_look [keeping]: "(\<And>v. keeps J (f v)) \<Longrightarrow> keeps J (look f)"
  by (simp add: keeps_def)

lemma keeps_attempt: "(\<And>u x v. J u \<Longrightarrow> f u = Some (x, v) \<Longrightarrow> J v) \<Longrightarrow> keeps J (attempt f)"
  by (fastforce simp: keeps_def attempt_def split: option.splits)

lemma keeps_if [keeping]: "(b \<Longrightarrow> keeps J m) \<Longrightarrow> (\<not> b \<Longrightarrow> keeps J m') \<Longrightarrow> keeps J (if b then m else m')"
  by simp

lemma keeps_prod [keeping]: "(\<And>x y. keeps J (f x y)) \<Longrightarrow> keeps J (case p of (x, y) \<Rightarrow> f x y)"
  by (cases p) simp

lemma keeps_option [keeping]: "keeps J m \<Longrightarrow> (\<And>x. keeps J (f x)) \<Longrightarrow> keeps J (case p of None \<Rightarrow> m | Some x \<Rightarrow> f x)"
  by (cases p) simp_all

lemma keeps_let [keeping]: "keeps J (f x) \<Longrightarrow> keeps J (let y = x in f y)"
  by simp

lemma keeps_sum [keeping]: "(\<And>x. keeps J (f x)) \<Longrightarrow> (\<And>x. keeps J (g x)) \<Longrightarrow> keeps J (case p of Inl x \<Rightarrow> f x | Inr x \<Rightarrow> g x)"
  by (cases p) simp_all

lemma keeps_loop [keeping]:
  assumes "\<And>s. keeps J (body s)"
  shows "keeps J (loop body s)"
proof (rule keepsI)
  fix u r
  assume "loop body s u = Some r"
  from _ this have "(\<forall>s. keeps J (body s)) \<longrightarrow> J u \<longrightarrow> final J r"
  proof (rule loop.raw_induct [where P = "\<lambda>body s u r. (\<forall>s. keeps J (body s)) \<longrightarrow> J u \<longrightarrow> final J r"], intro impI)
    fix self body s u r
    assume IH: "\<And>b s u r. self b s u = Some r \<Longrightarrow> (\<forall>s. keeps J (b s)) \<longrightarrow> J u \<longrightarrow> final J r"
      and run: "bnd (body s) (\<lambda>r. case r of Inl s' \<Rightarrow> self body s' | Inr x \<Rightarrow> ret x) u = Some r"
      and body: "\<forall>s. keeps J (body s)" and J: "J u"
    have "keeps J (self body s')" for s' using IH body by (blast intro: keepsI)
    then have "keeps J (bnd (body s) (\<lambda>r. case r of Inl s' \<Rightarrow> self body s' | Inr x \<Rightarrow> ret x))" using body by (intro keeping) auto
    then show "final J r" using run J by (auto dest: keepsD)
  qed
  then show "J u \<longrightarrow> final J r" using assms by blast
qed

text \<open>A run under a stronger invariant after a step that establishes it.\<close>

lemma keeps_after:
  assumes "\<And>u r. I u \<Longrightarrow> m u = Some r \<Longrightarrow> (case r of Inl v \<Rightarrow> I v | Inr (x, v) \<Rightarrow> if x then G v else I v)"
    and "keeps G n" and "keeps I n'" and "\<And>u. G u \<Longrightarrow> I u"
  shows "keeps I (bnd m (\<lambda>x. if x then n else n'))"
proof (rule keepsI, rule impI)
  fix u r
  assume r: "bnd m (\<lambda>x. if x then n else n') u = Some r" and I: "I u"
  then obtain s where s: "m u = Some s" by (auto simp: bnd_def bind_eq_Some_conv)
  have G: "G v \<Longrightarrow> n v = Some r \<Longrightarrow> final I r" for v
    using assms(2,4) by (cases r) (fastforce simp: keeps_def)+
  have I: "I v \<Longrightarrow> n' v = Some r \<Longrightarrow> final I r" for v
    using assms(3) by (simp add: keeps_def)
  show "final I r"
  proof (cases s)
    case (Inl v)
    then show ?thesis using r s assms(1) [OF \<open>I u\<close> s] by (auto simp: bnd_def)
  next
    case (Inr p)
    then show ?thesis using r s assms(1) [OF \<open>I u\<close> s] G I by (cases p) (auto simp: bnd_def split: if_splits)
  qed
qed

end
