(* ===== verification/Ncgui_Pages.thy ===== *)
theory Ncgui_Pages
  imports Ncgui_Show Ui_Run
begin

text \<open>
  The pages of \<^verbatim>\<open>bsdqclient/ncgui.c\<close> behind the login (shelves, books, new books, building, searching, deleting) and
  \<^verbatim>\<open>main\<close> of \<^verbatim>\<open>bsdqclient/bookMan.c\<close>, as runs on the state \<open>ui\<close>.
  \<open>ui\<close> holds the keys that will be pressed, the globals of \<^verbatim>\<open>ncgui.c\<close>, the static variables of
  \<^verbatim>\<open>display_bookinfo_page\<close> and the client; \<open>u_log\<close> is not in the program: it records the pages that were opened,
  the identity checks and the requests that change the library.
  \<open>uenv\<close> collects what is outside: the libraries of the client, \<^verbatim>\<open>wgetnstr\<close> of ncurses (a line of text and the
  keys left), the clock, whether the thread could be created, and what uninitialised variables hold.  The
  clock and the uninitialised variables are functions of the number of keys left, so they may differ
  from use to use.  Of what is drawn only the texts that a buffer of the program holds are computed
  (\<open>Ncgui_Show\<close>): a page stops where printing them is undefined.
\<close>

section \<open>The state of the user interface\<close>

record ('w, 'd, 'k) uenv =
  ue_cenv :: "('w, 'd, 'k) cenv"
  ue_getnstr :: "nat \<Rightarrow> int list \<Rightarrow> (string \<times> int list) option"
  ue_clock :: "nat \<Rightarrow> tm"
  ue_book :: "nat \<Rightarrow> book_entry"
  ue_shelf :: "nat \<Rightarrow> shelf_entry"
  ue_count :: "nat \<Rightarrow> book_count"
  ue_msg :: "nat \<Rightarrow> message_cs"
  ue_bytes :: "nat \<Rightarrow> nat \<Rightarrow> bytes"
  ue_starts :: "nat \<Rightarrow> nat \<Rightarrow> 'd cli_start"
  ue_crack :: crack
  ue_thread :: bool

datatype change =
    Ch_build | Ch_insert | Ch_collect | Ch_move | Ch_tag | Ch_delete | Ch_unsort | Ch_abandon | Ch_remove

datatype ui_event = Ev_page ui_page_type | Ev_password bool | Ev_check bool | Ev_change change

text \<open>The static variables of \<^verbatim>\<open>display_bookinfo_page\<close>.\<close>

record bi_static =
  local_shelfno :: int
  local_bookno :: int
  book_page_cnt :: int
  bcollect :: int
  bi_mark :: char
  no_next_page_flag :: bool

record ('w, 'd) ui =
  u_keys :: "int list"
  u_gui :: gui
  u_cli :: "('w, 'd) cli"
  u_sc :: shelf_count
  u_bc :: book_count
  u_new_book :: bool
  u_bi :: bi_static
  u_hb :: "'w hb option"
  u_log :: "ui_event list"

type_synonym ('w, 'd, 'a) page = "(('w, 'd) ui, 'a) run"

text \<open>\<open>left_keys\<close> numbers the moments of a run.\<close>

definition left_keys :: "('w, 'd) ui \<Rightarrow> nat" where
  "left_keys u = length (u_keys u)"

definition log_event :: "ui_event \<Rightarrow> ('w, 'd) ui \<Rightarrow> ('w, 'd) ui" where
  "log_event ev u = u\<lparr>u_log := u_log u @ [ev]\<rparr>"

section \<open>Steps of a page\<close>

definition on_keys :: "(int list \<Rightarrow> ('a \<times> int list) option) \<Rightarrow> ('w, 'd, 'a) page" where
  "on_keys f = attempt (\<lambda>u. map_option (\<lambda>(x, ks). (x, u\<lparr>u_keys := ks\<rparr>)) (f (u_keys u)))"

definition confirm :: "char \<Rightarrow> ('w, 'd, bool) page" where
  "confirm d = on_keys (get_confirm d)"

definition turn_to :: "ui_page_type \<Rightarrow> ('w, 'd) ui \<Rightarrow> ('w, 'd) ui" where
  "turn_to ptype u = (if current_page (u_gui u) = ptype then u
     else u\<lparr>u_gui := on_page ptype (u_gui u), u_log := u_log u @ [Ev_page ptype]\<rparr>)"

definition choice :: "ui_page_type \<Rightarrow> slider \<Rightarrow> int \<Rightarrow> ('w, 'd, int \<times> slider) page" where
  "choice ptype sld logic_row = attempt (\<lambda>u.
     case get_choice ptype (Some sld) logic_row (u_keys u) (u_gui u) of
       Some (key, Some s, ks, g) \<Rightarrow> Some ((key, s), (turn_to ptype u)\<lparr>u_keys := ks, u_gui := g\<rparr>)
     | _ \<Rightarrow> None)"

text \<open>\<^verbatim>\<open>get_choice(ptype, NULL, 0)\<close>: any key.\<close>

definition any_key :: "ui_page_type \<Rightarrow> ('w, 'd, int) page" where
  "any_key ptype = attempt (\<lambda>u.
     case get_choice ptype None 0 (u_keys u) (u_gui u) of
       Some (key, _, ks, g) \<Rightarrow> Some (key, (turn_to ptype u)\<lparr>u_keys := ks, u_gui := g\<rparr>)
     | None \<Rightarrow> None)"

text \<open>\<^verbatim>\<open>wgetnstr(win, buf, n)\<close>: a text that does not fit into \<open>buf\<close> stops the run.\<close>

definition read_line :: "('w, 'd, 'k) uenv \<Rightarrow> nat \<Rightarrow> bytes \<Rightarrow> ('w, 'd, bytes) page" where
  "read_line E n buf = bnd (on_keys (ue_getnstr E n)) (\<lambda>s.
     if length s < length buf then ret (s @ NUL # drop (Suc (length s)) buf) else stop)"

text \<open>\<^verbatim>\<open>string_filter(buf, '?')\<close> and the text behind the pointer it returns; the buffer may be used again.\<close>

definition filtered :: "bytes \<Rightarrow> ('w, 'd, string \<times> bytes) page" where
  "filtered buf = (case string_filter (CHR ''?'') buf of None \<Rightarrow> stop | Some (f, b) \<Rightarrow> ret (cstr (drop f b), b))"

definition on_client :: "(('w, 'd) cli \<Rightarrow> ('a \<times> ('w, 'd) cli) option) \<Rightarrow> ('w, 'd, 'a) page" where
  "on_client f = attempt (\<lambda>u. map_option (\<lambda>(x, c). (x, u\<lparr>u_cli := c\<rparr>)) (f (u_cli u)))"

definition with_cache :: "('d clidb \<Rightarrow> 'a option) \<Rightarrow> ('w, 'd, 'a) page" where
  "with_cache f = attempt (\<lambda>u. map_option (\<lambda>x. (x, u)) (f (c_db (u_cli u))))"

definition set_cache :: "('d clidb \<Rightarrow> 'd clidb option) \<Rightarrow> ('w, 'd, unit) page" where
  "set_cache f = on_client (\<lambda>c. map_option (\<lambda>d. ((), c\<lparr>c_db := d\<rparr>)) (f (c_db c)))"

definition draw :: "'a option \<Rightarrow> ('w, 'd, unit) page" where
  "draw t = (case t of None \<Rightarrow> stop | Some _ \<Rightarrow> ret ())"

definition request :: "change \<Rightarrow> (('w, 'd) cli \<Rightarrow> ('a \<times> ('w, 'd) cli) option) \<Rightarrow> ('w, 'd, 'a) page" where
  "request ch f = bnd (upd (log_event (Ev_change ch))) (\<lambda>_. on_client f)"

section \<open>Who the user is\<close>

text \<open>\<^verbatim>\<open>verify_identity\<close>: the server's answer is noted, then the result of the check.\<close>

definition checked :: "bool \<Rightarrow> ('w, 'd, bool) page" where
  "checked ok = bnd (upd (log_event (Ev_check ok))) (\<lambda>_. ret ok)"

definition verified_by_server :: "('w, 'd, 'k) uenv \<Rightarrow> bytes \<Rightarrow> ('w, 'd, bool) page" where
  "verified_by_server E pw =
     bnd (on_client (\<lambda>c. map_option (\<lambda>(res, _, c1). (res, c1))
       (client_verify_account (ue_cenv E) \<lparr>a_type = account_user_e, a_name = login_user c, a_password = cstr pw\<rparr> 0 '''' c))) (\<lambda>res.
     bnd (upd (\<lambda>u. log_event (Ev_password (res \<noteq> 0))
       (if res \<noteq> 0 then u\<lparr>u_gui := (u_gui u)\<lparr>global_pw_verified := True\<rparr>\<rparr> else u))) (\<lambda>_. ret (res \<noteq> 0)))"

definition verify_identity :: "('w, 'd, 'k) uenv \<Rightarrow> ('w, 'd, bool) page" where
  "verify_identity E = look (\<lambda>u.
     if global_pw_verified (u_gui u) then checked True
     else bnd (on_keys (\<lambda>ks. map_option (\<lambda>(ok, pw, ks'). ((ok, pw), ks')) (get_login_input lg_option_password ks (replicate ACCOUNT_SZ NUL))))
       (\<lambda>(ok, pw). if \<not> ok then checked False else bnd (verified_by_server E pw) checked))"

section \<open>Boxes of options\<close>

text \<open>\<^verbatim>\<open>draw_lt_option_box\<close> makes a slider of as many rows as there are options up to the next null pointer: of
  \<^verbatim>\<open>lookthrough_option\<close>, \<^verbatim>\<open>bookinfo_option\<close> and \<^verbatim>\<open>shelfdel_option\<close> only these numbers matter.\<close>

definition option_slider :: "int \<Rightarrow> slider" where
  "option_slider nline = \<lparr>current_row = 0, last_row = 0, max_row = nline - 1\<rparr>"

text \<open>\<^verbatim>\<open>draw_bi_tagging_box\<close>: the loop returns the label; \<open>buf\<close> is \<^verbatim>\<open>local_tag\<close>.\<close>

definition tag_loop :: "('w, 'd, 'k) uenv \<Rightarrow> bytes \<Rightarrow> ('w, 'd, string) page" where
  "tag_loop E local_tag = loop (\<lambda>(local_label, nlines, buf).
     bnd (read_line E LABEL_NAME_LEN buf) (\<lambda>b.
       if cstr b = '''' then quit local_label
       else bnd (filtered b) (\<lambda>(tag, b1).
         if tag = '''' then again (local_label, nlines, b1)
         else bnd (confirm (CHR ''Y'')) (\<lambda>yes.
           if \<not> yes then again (local_label, nlines, b1)
           else if Suc nlines < 10 then again (local_label @ tag @ '','', Suc nlines, b1)
           else quit (local_label @ tag @ '',''))))) ('''', 0 :: nat, local_tag)"

definition draw_bi_tagging_box :: "('w, 'd, 'k) uenv \<Rightarrow> book_entry \<Rightarrow> ('w, 'd, bool \<times> book_entry) page" where
  "draw_bi_tagging_box E b = look (\<lambda>u.
     bnd (tag_loop E (ue_bytes E (left_keys u) (LABEL_NAME_LEN + 1))) (\<lambda>local_label.
     bnd (confirm (CHR ''Y'')) (\<lambda>yes.
       if \<not> yes then ret (False, b)
       else if local_label = '''' \<or> LABEL_LEN < length local_label then stop
       else ret (True, b\<lparr>b_label := butlast local_label\<rparr>))))"

section \<open>A new book\<close>

definition set_text :: "int \<Rightarrow> string \<Rightarrow> book_entry \<Rightarrow> book_entry" where
  "set_text opt s b = (if opt = 0 then b\<lparr>b_name := s\<rparr> else if opt = 1 then b\<lparr>b_author := s\<rparr> else b)"

definition text_len :: "int \<Rightarrow> nat" where
  "text_len opt = (if opt = 1 then AUTHOR_NAME_LEN else BOOK_NAME_LEN)"

text \<open>\<^verbatim>\<open>get_newbook_info\<close>, which is told by \<^verbatim>\<open>code[2]\<close> what to ask for.\<close>

definition get_newbook_info :: "('w, 'd, 'k) uenv \<Rightarrow> book_entry \<Rightarrow> ('w, 'd, book_entry) page" where
  "get_newbook_info E b = look (\<lambda>u.
     bnd (read_line E (text_len (code2 b)) (ue_bytes E (left_keys u) (BOOK_NAME_LEN + 1))) (\<lambda>temp_str.
     bnd (filtered temp_str) (\<lambda>(s, _).
       if text_len (code2 b) < length s then stop else ret (set_text (code2 b) s b))))"

definition blank_book :: "shelf_entry \<Rightarrow> book_entry" where
  "blank_book sh = zero_book\<lparr>code0 := s_code sh, borrowed := CHR ''0'', on_reading := CHR ''0''\<rparr>"

text \<open>\<^verbatim>\<open>case nb_option_finish\<close>: the book, \<^verbatim>\<open>flag\<close> and \<^verbatim>\<open>nb_key\<close> afterwards.\<close>

definition nb_finish :: "('w, 'd, 'k) uenv \<Rightarrow> shelf_entry \<Rightarrow> book_entry \<Rightarrow> int \<Rightarrow> int \<Rightarrow> ('w, 'd, book_entry \<times> int \<times> int) page" where
  "nb_finish E sh b flag nb_key =
     bnd (confirm (CHR ''N'')) (\<lambda>sure.
       if \<not> sure then ret (b, flag, nb_key)
       else look (\<lambda>u.
         bnd (request Ch_insert (\<lambda>c. map_option (\<lambda>(res, b1, _, c1). ((res, b1), c1))
           (client_shelf_insert_book (ue_cenv E) (ue_clock E (left_keys u)) b '''' c))) (\<lambda>(res, b1).
         if res = 0 then ret (b1, flag, nb_key)
         else bnd (upd (\<lambda>u. u\<lparr>u_new_book := True\<rparr>)) (\<lambda>_.
           bnd (confirm (CHR ''Y'')) (\<lambda>more.
             if more then ret (blank_book sh, 2, nb_key) else ret (b1, flag, KEY_BACKSPACE))))))"

definition nb_shown :: "book_entry \<Rightarrow> int \<Rightarrow> int \<Rightarrow> ('w, 'd, book_entry \<times> int \<times> int) page" where
  "nb_shown b flag nb_key = bnd (draw (show_newbook_info b)) (\<lambda>_. ret (b, flag, nb_key))"

definition nb_row :: "('w, 'd, 'k) uenv \<Rightarrow> shelf_entry \<Rightarrow> int \<Rightarrow> book_entry \<Rightarrow> int \<Rightarrow> int \<Rightarrow> ('w, 'd, book_entry \<times> int \<times> int) page" where
  "nb_row E sh row b flag nb_key =
     (if row = 0 \<or> row = 1 then bnd (get_newbook_info E (b\<lparr>code2 := row\<rparr>)) (\<lambda>b1. nb_shown b1 flag nb_key)
      else if row = 2 then bnd (on_keys (\<lambda>ks. select_newbook_floor sh ks b)) (\<lambda>b1. nb_shown b1 flag nb_key)
      else if row = 3 then bnd (draw_bi_tagging_box E b) (\<lambda>(_, b1). nb_shown b1 flag nb_key)
      else if row = 4 then nb_finish E sh b flag nb_key
      else ret (b, flag, nb_key))"

text \<open>After a row, while \<^verbatim>\<open>flag\<close> is 1, the page goes to the next row by itself.\<close>

definition nb_next :: "slider \<Rightarrow> int \<Rightarrow> int \<Rightarrow> int \<times> int \<times> slider" where
  "nb_next sld flag nb_key =
     (if flag = 1 then
        if 3 \<le> current_row sld then (0, LOCAL_KEY_NON_SENSE, sld)
        else (1, KEY_ENTER, slide_to (current_row sld + 1) sld)
      else if flag = 2 then (1, KEY_ENTER, slide_to 0 sld)
      else (flag, nb_key, sld))"

definition nb_turn :: "('w, 'd, 'k) uenv \<Rightarrow> shelf_entry \<Rightarrow> int \<times> slider \<times> int \<times> book_entry
    \<Rightarrow> ('w, 'd, int \<times> slider \<times> int \<times> book_entry + unit) page" where
  "nb_turn E sh = (\<lambda>(nb_key, sld, flag, b).
     if nb_key = KEY_BACKSPACE then quit ()
     else bnd (if nb_key \<noteq> KEY_ENTER then choice page_newbook_e sld (max_row sld) else ret (nb_key, sld)) (\<lambda>(key, sld1).
       if key = KEY_BACKSPACE then
         bnd (confirm (CHR ''N'')) (\<lambda>yes. again (if yes then key else LOCAL_KEY_NON_SENSE, sld1, flag, b))
       else if key = KEY_ENTER \<or> key = NEWLINE then
         bnd (nb_row E sh (current_row sld1) b flag key) (\<lambda>(b1, flag1, key1).
           case nb_next sld1 flag1 key1 of (flag2, key2, sld2) \<Rightarrow> again (key2, sld2, flag2, b1))
       else again (key, sld1, flag, b)))"

definition add_newbook_page :: "('w, 'd, 'k) uenv \<Rightarrow> shelf_entry \<Rightarrow> ('w, 'd, int) page" where
  "add_newbook_page E sh = bnd (verify_identity E) (\<lambda>ok.
     if ok then bnd (loop (nb_turn E sh) (KEY_ENTER, option_slider 5, 1, blank_book sh)) (\<lambda>_. ret LOCAL_KEY_NON_SENSE)
     else ret LOCAL_KEY_NON_SENSE)"

section \<open>Deleting a shelf\<close>

definition LOCAL_KEY_CERTAIN_MEANING :: int where "LOCAL_KEY_CERTAIN_MEANING = -2"

text \<open>What to do with the books: the loop ends with any enter and with backspace.\<close>

definition ds_turn :: "('w, 'd, 'k) uenv \<Rightarrow> shelf_entry \<Rightarrow> slider \<Rightarrow> ('w, 'd, slider + unit) page" where
  "ds_turn E sh sld =
     bnd (choice page_lookthrough_e sld (max_row sld)) (\<lambda>(key, sld1).
       if key = NEWLINE \<or> key = KEY_ENTER then
         if current_row sld1 = 0 then bnd (request Ch_unsort (client_shelf_unsorted_books (ue_cenv E) (s_code sh))) (\<lambda>_. quit ())
         else if current_row sld1 = 1 then bnd (request Ch_abandon (client_shelf_abandon_books (ue_cenv E) (s_code sh))) (\<lambda>_. quit ())
         else quit ()
       else if key = KEY_BACKSPACE then quit ()
       else again sld1)"

definition delete_shelf_page :: "('w, 'd, 'k) uenv \<Rightarrow> shelf_entry \<Rightarrow> book_count \<Rightarrow> ('w, 'd, int) page" where
  "delete_shelf_page E sh bc = bnd (verify_identity E) (\<lambda>ok.
     if ok then
       bnd (confirm (CHR ''N'')) (\<lambda>sure.
         if \<not> sure then ret LOCAL_KEY_NON_SENSE
         else bnd (if 0 < books_all bc - books_unsorted bc then loop (ds_turn E sh) (option_slider 2) else ret ()) (\<lambda>_.
           bnd (request Ch_remove (client_shelf_delete_itself (ue_cenv E) (s_code sh))) (\<lambda>res.
             ret (if res \<noteq> 0 then LOCAL_KEY_CERTAIN_MEANING else LOCAL_KEY_NON_SENSE))))
     else ret LOCAL_KEY_NON_SENSE)"

section \<open>The books of a shelf\<close>

text \<open>Entering \<^verbatim>\<open>display_bookinfo_page\<close>: when another shelf, the place of unsorted books or a new search is opened, the
  static variables and the cache start afresh.\<close>

definition bi_fresh :: "bi_static \<Rightarrow> bi_static" where
  "bi_fresh s = s\<lparr>local_bookno := NON_SENSE_INT, book_page_cnt := 0, no_next_page_flag := False\<rparr>"

definition reset_books :: "('w, 'd) ui \<Rightarrow> ('w, 'd) ui" where
  "reset_books u = u\<lparr>u_cli := (u_cli u)\<lparr>c_db := clidb_book_reset (c_db (u_cli u))\<rparr>\<rparr>"

definition bi_enter :: "shelf_entry \<Rightarrow> int \<Rightarrow> book_entry option \<Rightarrow> ('w, 'd) ui \<Rightarrow> ('w, 'd) ui" where
  "bi_enter sh collect_mode search u =
     (case search of
        Some e \<Rightarrow>
          if bi_mark (u_bi u) \<noteq> char_at0 (encoding_time e)
          then reset_books (u\<lparr>u_bi := bi_fresh ((u_bi u)\<lparr>bi_mark := char_at0 (encoding_time e), local_shelfno := NON_SENSE_INT\<rparr>)\<rparr>)
          else u
      | None \<Rightarrow>
          if local_shelfno (u_bi u) \<noteq> s_code sh \<and> bcollect (u_bi u) = collect_mode
             \<or> bcollect (u_bi u) \<noteq> collect_mode \<or> u_new_book u
          then reset_books (u\<lparr>u_new_book := False, u_bi := bi_fresh ((u_bi u)\<lparr>local_shelfno := s_code sh, bcollect := collect_mode\<rparr>)\<rparr>)
          else u)"

record bi_page =
  bp_slider :: slider
  bp_book :: book_entry
  bp_search :: "book_entry option"

text \<open>The next page of books: \<^verbatim>\<open>local_bookno\<close> is updated.\<close>

definition next_page :: "('w, 'd, 'k) uenv \<Rightarrow> int \<Rightarrow> book_entry option \<Rightarrow> ('w, 'd, int \<times> book_entry option) page" where
  "next_page E mode_shelfno search = attempt (\<lambda>u.
     map_option (\<lambda>pr. ((pr_res pr, pr_search pr),
         u\<lparr>u_cli := pr_cli pr, u_bi := (u_bi u)\<lparr>local_bookno := pr_bookno pr\<rparr>\<rparr>))
       (next_page_bookinfo (ue_cenv E) (ue_book E (left_keys u)) mode_shelfno (local_bookno (u_bi u)) search (u_cli u)))"

definition peek :: "('w, 'd, 'k) uenv \<Rightarrow> book_entry \<Rightarrow> int \<Rightarrow> ('w, 'd, book_entry) page" where
  "peek E b pos = with_cache (\<lambda>d. map_option snd (clidb_book_peek (ce_dbm (ue_cenv E)) b pos d))"

definition show_book :: "('w, 'd, 'k) uenv \<Rightarrow> book_entry \<Rightarrow> bool \<Rightarrow> ('w, 'd, unit) page" where
  "show_book E b search_mode = look (\<lambda>u.
     draw (show_book_info (ce_dbm (ue_cenv E)) (ue_shelf E (left_keys u)) (c_db (u_cli u)) b search_mode))"

definition bi_pos :: "slider \<Rightarrow> ('w, 'd) ui \<Rightarrow> int" where
  "bi_pos sld u = book_page_cnt (u_bi u) * PAD_HIGHT + current_row sld"

text \<open>The switch over the options of a book, behind the identity check: \<^verbatim>\<open>local_book\<close> afterwards.\<close>

definition bi_option :: "('w, 'd, 'k) uenv \<Rightarrow> int \<Rightarrow> book_entry \<Rightarrow> int \<Rightarrow> ('w, 'd, book_entry) page" where
  "bi_option E opt b pos =
     (if opt = 0 then bnd (request Ch_move (client_shelf_moving_book (ue_cenv E) b pos 0)) (\<lambda>_. ret b)
      else if opt = 1 then bnd (request Ch_move (client_shelf_moving_book (ue_cenv E) b pos 1)) (\<lambda>_. ret b)
      else if opt = 2 then
        bnd (draw_bi_tagging_box E b) (\<lambda>(yes, b1).
          if yes then bnd (request Ch_tag (client_shelf_tagging_book (ue_cenv E) b1 pos)) (\<lambda>_. ret b1) else ret b1)
      else if opt = 3 then
        bnd (confirm (CHR ''N'')) (\<lambda>sure.
          if sure then look (\<lambda>u. request Ch_delete (\<lambda>c. map_option (\<lambda>(_, b1, c1). (b1, c1))
            (client_shelf_delete_book (ue_cenv E) (ue_book E (left_keys u)) b pos c)))
          else ret b)
      else ret b)"

definition bi_options_turn :: "('w, 'd, 'k) uenv \<Rightarrow> int \<Rightarrow> book_entry \<Rightarrow> int \<Rightarrow> slider \<Rightarrow> ('w, 'd, slider + book_entry) page" where
  "bi_options_turn E option_offset b pos sld =
     bnd (choice page_bookinfo_e sld (max_row sld)) (\<lambda>(key, sld1).
       if key = KEY_ENTER \<or> key = NEWLINE then
         bnd (verify_identity E) (\<lambda>ok.
           if ok then bnd (bi_option E (current_row sld1 + option_offset) b pos) quit else again sld1)
       else if key = KEY_BACKSPACE then quit b
       else again sld1)"

definition bi_options :: "('w, 'd, 'k) uenv \<Rightarrow> slider \<Rightarrow> int \<Rightarrow> book_entry \<Rightarrow> int \<Rightarrow> ('w, 'd, book_entry) page" where
  "bi_options E sld option_offset b pos = loop (bi_options_turn E option_offset b pos) sld"

text \<open>Enter on a book.  At the place of unsorted books it is put on the shelf, without an identity check.\<close>

definition bi_collect :: "('w, 'd, 'k) uenv \<Rightarrow> shelf_entry \<Rightarrow> book_entry \<Rightarrow> int \<Rightarrow> ('w, 'd, book_entry) page" where
  "bi_collect E sh b pos =
     (if byte_at (encoding_time b) 11 = CHR ''H'' then ret b
      else bnd (confirm (CHR ''Y'')) (\<lambda>yes.
        if \<not> yes then ret b
        else bnd (on_keys (\<lambda>ks. select_newbook_floor sh ks b)) (\<lambda>b1.
          look (\<lambda>u. request Ch_collect (\<lambda>c. map_option (\<lambda>(_, b2, c1). (b2, c1))
            (client_shelf_collecting_book (ue_cenv E) (local_shelfno (u_bi u)) b1 pos c))))))"

definition bi_enter_book :: "('w, 'd, 'k) uenv \<Rightarrow> shelf_entry \<Rightarrow> bool \<Rightarrow> book_entry \<Rightarrow> int \<Rightarrow> ('w, 'd, book_entry) page" where
  "bi_enter_book E sh search_mode b pos = look (\<lambda>u.
     if bcollect (u_bi u) = 1 then bi_collect E sh b pos
     else if encoding_time b = '''' then ret b
     else bnd (if on_reading b = CHR ''1'' \<or> borrowed b = CHR ''1''
               then bi_options E (option_slider 3) 1 b pos else bi_options E (option_slider 4) 0 b pos) (\<lambda>b1.
       if encoding_time b1 = '''' then ret b1
       else bnd (peek E b1 pos) (\<lambda>b2. bnd (show_book E b2 search_mode) (\<lambda>_. ret b2))))"

datatype bi_exit = Bi_stay bi_page | Bi_break int | Bi_return int

text \<open>The right arrow and the left arrow.\<close>

definition bi_right :: "('w, 'd, 'k) uenv \<Rightarrow> int \<Rightarrow> bi_page \<Rightarrow> ('w, 'd, bi_exit \<times> book_entry option) page" where
  "bi_right E mode_shelfno p = look (\<lambda>u.
     if no_next_page_flag (u_bi u) then ret (Bi_stay p, bp_search p)
     else bnd (next_page E mode_shelfno (bp_search p)) (\<lambda>(res, search).
       if res = -1 then ret (Bi_return (if search \<noteq> None then KEY_BACKSPACE else LOCAL_KEY_NON_SENSE), search)
       else if res = 0 then
         bnd (upd (\<lambda>u. u\<lparr>u_bi := (u_bi u)\<lparr>no_next_page_flag := True\<rparr>\<rparr>)) (\<lambda>_. ret (Bi_stay (p\<lparr>bp_search := search\<rparr>), search))
       else bnd (upd (\<lambda>u. u\<lparr>u_bi := (u_bi u)\<lparr>book_page_cnt := book_page_cnt (u_bi u) + 1\<rparr>\<rparr>)) (\<lambda>_.
         ret (Bi_break KEY_ENTER, search))))"

definition bi_left_static :: "bi_static \<Rightarrow> bi_static" where
  "bi_left_static s = s\<lparr>no_next_page_flag := (if 0 < book_page_cnt s then False else no_next_page_flag s),
     book_page_cnt := (if book_page_cnt s - 1 < 0 then 0 else book_page_cnt s - 1)\<rparr>"

definition bi_left :: "bi_page \<Rightarrow> ('w, 'd, bi_exit \<times> book_entry option) page" where
  "bi_left p = bnd (set_cache clidb_book_backward_mode) (\<lambda>_.
     bnd (upd (\<lambda>u. u\<lparr>u_bi := bi_left_static (u_bi u)\<rparr>)) (\<lambda>_. ret (Bi_break KEY_ENTER, bp_search p)))"

definition bi_turn :: "('w, 'd, 'k) uenv \<Rightarrow> shelf_entry \<Rightarrow> int \<Rightarrow> int \<Rightarrow> bi_page \<Rightarrow> ('w, 'd, bi_exit \<times> book_entry option) page" where
  "bi_turn E sh mode_shelfno logic_rows p =
     bnd (choice page_bookinfo_e (bp_slider p) logic_rows) (\<lambda>(key, sld).
       if key = KEY_BACKSPACE then ret (Bi_break LOCAL_KEY_NON_SENSE, bp_search p)
       else look (\<lambda>u. bnd (peek E (bp_book p) (bi_pos sld u)) (\<lambda>b.
         let p1 = p\<lparr>bp_slider := sld, bp_book := b\<rparr> in
         bnd (show_book E b (bp_search p \<noteq> None)) (\<lambda>_.
         if key = KEY_RIGHT then bi_right E mode_shelfno p1
         else if key = KEY_LEFT then bi_left p1
         else if key = KEY_ENTER \<or> key = NEWLINE then
           bnd (bi_enter_book E sh (bp_search p \<noteq> None) b (bi_pos sld u)) (\<lambda>b1. ret (Bi_stay (p1\<lparr>bp_book := b1\<rparr>), bp_search p))
         else ret (Bi_stay p1, bp_search p)))))"

definition bi_loop :: "('w, 'd, 'k) uenv \<Rightarrow> shelf_entry \<Rightarrow> int \<Rightarrow> int \<Rightarrow> bi_page \<Rightarrow> ('w, 'd, bi_exit \<times> book_entry option) page" where
  "bi_loop E sh mode_shelfno logic_rows = loop (\<lambda>p.
     bnd (bi_turn E sh mode_shelfno logic_rows p) (\<lambda>(ex, search).
       case ex of Bi_stay p1 \<Rightarrow> again p1 | _ \<Rightarrow> quit (ex, search)))"

text \<open>The counts are asked for again; failures are ignored.\<close>

definition sync_shelf_count :: "('w, 'd, 'k) uenv \<Rightarrow> ('w, 'd, unit) page" where
  "sync_shelf_count E = look (\<lambda>u.
     bnd (on_client (\<lambda>c. map_option (\<lambda>(_, sc, c1). (sc, c1))
       (client_shelves_count_sync (ue_cenv E) (ue_msg E (left_keys u)) (ue_msg E (left_keys u)) (u_sc u) c))) (\<lambda>sc.
     upd (\<lambda>u. u\<lparr>u_sc := sc\<rparr>)))"

definition sync_counts :: "('w, 'd, 'k) uenv \<Rightarrow> ('w, 'd, unit) page" where
  "sync_counts E = bnd (sync_shelf_count E) (\<lambda>_. look (\<lambda>u.
     bnd (on_client (\<lambda>c. map_option (\<lambda>(_, bc, c1). (bc, c1))
       (client_books_count_sync (ue_cenv E) (ue_msg E (left_keys u)) (ue_msg E (left_keys u)) (u_bc u) c))) (\<lambda>bc.
     upd (\<lambda>u. u\<lparr>u_bc := bc\<rparr>))))"

definition bi_leave :: "('w, 'd, 'k) uenv \<Rightarrow> int \<Rightarrow> book_entry option \<Rightarrow> ('w, 'd, int \<times> book_entry option) page" where
  "bi_leave E rt_key search =
     bnd (set_cache clidb_book_backward_mode) (\<lambda>_.
       if search = None then ret (rt_key, search)
       else bnd (sync_counts E) (\<lambda>_. ret (if rt_key = LOCAL_KEY_NON_SENSE then KEY_BACKSPACE else rt_key, search)))"

definition mode_shelf :: "('w, 'd) ui \<Rightarrow> int" where
  "mode_shelf u = (if bcollect (u_bi u) = 1 then NON_SENSE_INT else local_shelfno (u_bi u))"

text \<open>The page returns the key for its caller and the search entry.\<close>

definition display_bookinfo_page :: "('w, 'd, 'k) uenv \<Rightarrow> shelf_entry \<Rightarrow> int \<Rightarrow> book_entry option
    \<Rightarrow> ('w, 'd, int \<times> book_entry option) page" where
  "display_bookinfo_page E sh collect_mode search =
     (if collect_mode = 1 \<and> search \<noteq> None then ret (LOCAL_KEY_NON_SENSE, search)
      else bnd (upd (bi_enter sh collect_mode search)) (\<lambda>_.
        look (\<lambda>u. bnd (next_page E (mode_shelf u) search) (\<lambda>(nbooks, search1).
          if nbooks \<le> 0 then ret (if search \<noteq> None then KEY_BACKSPACE else LOCAL_KEY_NON_SENSE, search1)
          else bnd (peek E (ue_book E (left_keys u)) (book_page_cnt (u_bi u) * PAD_HIGHT)) (\<lambda>b.
            bnd (show_book E b (search \<noteq> None)) (\<lambda>_.
            bnd (bi_loop E sh (mode_shelf u) (nbooks - 1) \<lparr>bp_slider = list_slider nbooks, bp_book = b, bp_search = search1\<rparr>) (\<lambda>(ex, search2).
              case ex of Bi_return key \<Rightarrow> ret (key, search2)
              | Bi_break key \<Rightarrow> bi_leave E key search2
              | Bi_stay _ \<Rightarrow> stop)))))))"

section \<open>The shelves\<close>

text \<open>\<^verbatim>\<open>pad_fill_shelves_info\<close>: the number of lines, or nothing when a recorded shelf cannot be read.\<close>

fun shelf_lines :: "'d dbm_lib \<Rightarrow> int list \<Rightarrow> shelf_entry \<Rightarrow> 'd clidb \<Rightarrow> int \<Rightarrow> int option option" where
  "shelf_lines lib [] e d n = Some (Some n)"
| "shelf_lines lib (i # is) e d n =
     (case clidb_shelf_exists i d of None \<Rightarrow> None
      | Some False \<Rightarrow> shelf_lines lib is e d n
      | Some True \<Rightarrow>
          (case clidb_shelf_get lib i e d of None \<Rightarrow> None
           | Some (False, _) \<Rightarrow> Some None
           | Some (True, e1) \<Rightarrow>
               (case limit_str_width (s_name e1) 24 of None \<Rightarrow> None | Some _ \<Rightarrow> shelf_lines lib is e1 d (n + 1))))"

definition pad_fill_shelves_info :: "('w, 'd, 'k) uenv \<Rightarrow> ('w, 'd, int option) page" where
  "pad_fill_shelves_info E = look (\<lambda>u.
     with_cache (\<lambda>d. shelf_lines (ce_dbm (ue_cenv E)) [1..MAX_SHELF_NUM] (ue_shelf E (left_keys u)) d 0))"

record lt_page =
  lt_slider :: slider
  lt_shelf :: shelf_entry
  lt_count :: book_count

text \<open>The shelf of the current row and its counts; \<^const>\<open>None\<close> when the server does not answer.\<close>

definition lt_load :: "('w, 'd, 'k) uenv \<Rightarrow> lt_page \<Rightarrow> ('w, 'd, lt_page option) page" where
  "lt_load E p =
     bnd (with_cache (\<lambda>d. Option.bind (clidb_shelf_realno d (current_row (lt_slider p) + 1)) (\<lambda>n.
       map_option snd (clidb_shelf_get (ce_dbm (ue_cenv E)) n (lt_shelf p) d)))) (\<lambda>sh.
     bnd (on_client (\<lambda>c. map_option (\<lambda>(res, bc, c1). ((res, bc), c1))
       (client_shelf_count_book (ue_cenv E) (s_code sh) (lt_count p) c))) (\<lambda>(res, bc).
     ret (if res = 0 then None else Some (p\<lparr>lt_shelf := sh, lt_count := bc\<rparr>))))"

definition profile_scroll :: "int \<Rightarrow> int \<Rightarrow> int \<Rightarrow> int" where
  "profile_scroll profile_hight start_hight key =
     (let st = (if profile_hight \<le> 7 then 0 else start_hight) in
      if key = KEY_DOWN then (if profile_hight - 7 < st + 2 then profile_hight - 7 else st + 2)
      else if key = KEY_UP then (if st - 2 \<le> 0 then 0 else st - 2)
      else st)"

definition profile_loop :: "int \<Rightarrow> int \<Rightarrow> ('w, 'd, int) page" where
  "profile_loop profile_hight = loop (\<lambda>start_hight.
     bnd (any_key page_buildshelf_e) (\<lambda>key.
       if key = KEY_BACKSPACE then quit LOCAL_KEY_NON_SENSE
       else again (profile_scroll profile_hight start_hight key)))"

definition display_shelfprofile_page :: "shelf_entry \<Rightarrow> ('w, 'd, int) page" where
  "display_shelfprofile_page sh =
     (let profile_hight = 2 * floors_of sh + 2 in
      profile_loop profile_hight (if profile_hight \<le> 7 then 0 else profile_hight - 7))"

text \<open>The switch over the options of a shelf: \<^verbatim>\<open>op_key\<close> afterwards.\<close>

definition lt_option :: "('w, 'd, 'k) uenv \<Rightarrow> lt_page \<Rightarrow> int \<Rightarrow> int \<Rightarrow> ('w, 'd, int) page" where
  "lt_option E p opt op_key =
     (if opt = 0 then bnd (display_bookinfo_page E (lt_shelf p) 0 None) (\<lambda>(key, _). ret key)
      else if opt = 1 then add_newbook_page E (lt_shelf p)
      else if opt = 2 then display_shelfprofile_page (lt_shelf p)
      else if opt = 4 then bnd (display_bookinfo_page E (lt_shelf p) 1 None) (\<lambda>(key, _). ret key)
      else if opt = 3 then delete_shelf_page E (lt_shelf p) (lt_count p)
      else ret op_key)"

text \<open>The loop over the options of a shelf; \<^const>\<open>True\<close> when the shelf was deleted, which leaves the page.\<close>

definition lt_options_turn :: "('w, 'd, 'k) uenv \<Rightarrow> lt_page \<Rightarrow> int \<Rightarrow> slider \<times> int \<Rightarrow> ('w, 'd, slider \<times> int + bool) page" where
  "lt_options_turn E p option_offset = (\<lambda>(sld, op_key).
     if op_key = KEY_BACKSPACE then quit False
     else bnd (if op_key \<noteq> KEY_ENTER then choice page_lookthrough_e sld (max_row sld) else ret (op_key, sld)) (\<lambda>(key, sld1).
       if key = KEY_ENTER \<or> key = NEWLINE then
         bnd (lt_option E p (current_row sld1 + option_offset) key) (\<lambda>key1.
           if current_row sld1 + option_offset = 3 \<and> key1 = LOCAL_KEY_CERTAIN_MEANING then quit True
           else if key1 = LOCAL_KEY_NON_SENSE then quit False
           else again (sld1, key1))
       else again (sld1, key)))"

definition lt_options :: "('w, 'd, 'k) uenv \<Rightarrow> lt_page \<Rightarrow> slider \<Rightarrow> int \<Rightarrow> ('w, 'd, bool) page" where
  "lt_options E p sld option_offset = loop (lt_options_turn E p option_offset) (sld, LOCAL_KEY_NON_SENSE)"

text \<open>The box of options: with unsorted books it has a last row for them, and an empty shelf cannot be opened.\<close>

definition lt_box :: "lt_page \<Rightarrow> ('w, 'd) ui \<Rightarrow> slider \<times> int" where
  "lt_box p u =
     (let empty = books_all (lt_count p) - books_unsorted (lt_count p) \<le> 0;
          rows = (if 0 < books_unsorted (u_bc u) then 5 else 4)
      in (option_slider (if empty then rows - 1 else rows), if empty then 1 else 0))"

datatype lt_exit = Lt_stay lt_page | Lt_leave int | Lt_return int

definition menu_code :: "ui_menu \<Rightarrow> int" where
  "menu_code m = (case m of menu_look_through_e \<Rightarrow> 0 | menu_build_shelf_e \<Rightarrow> 1 | menu_search_book_e \<Rightarrow> 2 | menu_quit_e \<Rightarrow> 3
     | menu_non_sense_e \<Rightarrow> 4 | menu_cycle_e \<Rightarrow> 5 | menu_login_e \<Rightarrow> 6 | menu_register_e \<Rightarrow> 7)"

definition lt_rest :: "int \<Rightarrow> int" where
  "lt_rest select_mode = (if select_mode = 1 then NON_SENSE_INT else menu_code menu_non_sense_e)"

definition lt_reload :: "('w, 'd, 'k) uenv \<Rightarrow> lt_page \<Rightarrow> ('w, 'd, lt_exit) page" where
  "lt_reload E p = bnd (lt_load E p) (\<lambda>r. ret (case r of None \<Rightarrow> Lt_return (menu_code menu_non_sense_e) | Some p1 \<Rightarrow> Lt_stay p1))"

definition lt_turn :: "('w, 'd, 'k) uenv \<Rightarrow> int \<Rightarrow> int \<Rightarrow> lt_page \<Rightarrow> ('w, 'd, lt_exit) page" where
  "lt_turn E select_mode logic_rows p =
     bnd (choice page_lookthrough_e (lt_slider p) logic_rows) (\<lambda>(key, sld).
       let p1 = p\<lparr>lt_slider := sld\<rparr> in
       if key = KEY_UP \<or> key = KEY_DOWN then lt_reload E p1
       else if key = KEY_ENTER \<or> key = NEWLINE then
         if select_mode = 1 then
           bnd (confirm (CHR ''Y'')) (\<lambda>yes. ret (if yes then Lt_return (s_code (lt_shelf p1)) else Lt_stay p1))
         else look (\<lambda>u. case lt_box p1 u of (op_slider, option_offset) \<Rightarrow>
           bnd (lt_options E p1 op_slider option_offset) (\<lambda>deleted.
             if deleted then ret (Lt_leave (menu_code menu_cycle_e)) else lt_reload E p1))
       else if key = KEY_BACKSPACE then ret (Lt_leave (lt_rest select_mode))
       else ret (Lt_stay p1))"

definition lt_loop :: "('w, 'd, 'k) uenv \<Rightarrow> int \<Rightarrow> int \<Rightarrow> lt_page \<Rightarrow> ('w, 'd, lt_exit) page" where
  "lt_loop E select_mode logic_rows = loop (\<lambda>p.
     bnd (lt_turn E select_mode logic_rows p) (\<lambda>ex.
       case ex of Lt_stay p1 \<Rightarrow> again p1 | _ \<Rightarrow> quit ex))"

text \<open>The function returns an \<^verbatim>\<open>ui_menu_e\<close>, in the mode that selects a shelf the number of the shelf.\<close>

definition display_lookthrough_page :: "('w, 'd, 'k) uenv \<Rightarrow> int \<Rightarrow> ('w, 'd, int) page" where
  "display_lookthrough_page E select_mode = look (\<lambda>u.
     if shelves_all (u_sc u) = 0 then ret (menu_code menu_non_sense_e)
     else bnd (pad_fill_shelves_info E) (\<lambda>n.
       case n of None \<Rightarrow> ret (menu_code menu_non_sense_e)
       | Some nshelves \<Rightarrow>
           bnd (lt_load E \<lparr>lt_slider = list_slider nshelves, lt_shelf = ue_shelf E (left_keys u), lt_count = ue_count E (left_keys u)\<rparr>) (\<lambda>r.
             case r of None \<Rightarrow> ret (menu_code menu_non_sense_e)
             | Some p \<Rightarrow>
                 bnd (lt_loop E select_mode (nshelves - 1) p) (\<lambda>ex.
                   case ex of Lt_return code \<Rightarrow> ret code
                   | Lt_leave code \<Rightarrow>
                       if select_mode \<noteq> 1 then bnd (sync_counts E) (\<lambda>_. ret code) else ret code
                   | Lt_stay _ \<Rightarrow> stop))))"

section \<open>Searching\<close>

definition keyword_loop :: "('w, 'd, 'k) uenv \<Rightarrow> bytes \<Rightarrow> book_entry \<Rightarrow> ('w, 'd, book_entry) page" where
  "keyword_loop E buf user_book = loop (\<lambda>(keyword, b).
     bnd (read_line E sub_len keyword) (\<lambda>keyword1.
       case handle_searchbook_keyword (cstr keyword1) b of None \<Rightarrow> stop
       | Some (n, b1) \<Rightarrow> if n = 0 then again (keyword1, b1) else quit b1)) (buf, user_book)"

definition found_loop :: "('w, 'd, 'k) uenv \<Rightarrow> shelf_entry \<Rightarrow> book_entry option \<Rightarrow> ('w, 'd, unit) page" where
  "found_loop E sh = loop (\<lambda>search.
     bnd (display_bookinfo_page E sh 0 search) (\<lambda>(op_key, search1).
       if op_key = KEY_BACKSPACE then quit () else again search1))"

definition run_search :: "('w, 'd, 'k) uenv \<Rightarrow> book_entry \<Rightarrow> ('w, 'd, unit) page" where
  "run_search E b = look (\<lambda>u.
     bnd (on_client (\<lambda>c. map_option (\<lambda>(_, b1, c1). (b1, c1)) (client_searching_book (ue_cenv E) BREAK_LIMIT_INT b c))) (\<lambda>b1.
       found_loop E ((ue_shelf E (left_keys u))\<lparr>s_code := code0 b\<rparr>) (Some b1)))"

text \<open>\<^verbatim>\<open>draw_searchbook_page_framework\<close> reads the chosen shelf for its name.\<close>

definition draw_search_frame :: "('w, 'd, 'k) uenv \<Rightarrow> int \<Rightarrow> ('w, 'd, unit) page" where
  "draw_search_frame E shelfno = look (\<lambda>u.
     if shelfno = NON_SENSE_INT then ret ()
     else draw (clidb_shelf_get (ce_dbm (ue_cenv E)) shelfno (ue_shelf E (left_keys u)) (c_db (u_cli u))))"

definition sb_turn :: "('w, 'd, 'k) uenv \<Rightarrow> slider \<times> book_entry \<Rightarrow> ('w, 'd, slider \<times> book_entry + unit) page" where
  "sb_turn E = (\<lambda>(sld, b).
     bnd (choice page_searchbook_e sld (max_row sld)) (\<lambda>(key, sld1).
       if key = NEWLINE \<or> key = KEY_ENTER then
         if current_row sld1 = 0 then
           bnd (display_lookthrough_page E 1) (\<lambda>shelfno.
             let b1 = (if shelfno \<noteq> NON_SENSE_INT then b\<lparr>code0 := shelfno\<rparr> else b) in
             bnd (draw_search_frame E (code0 b1)) (\<lambda>_. bnd (draw (show_searchbox_info b1)) (\<lambda>_. again (sld1, b1))))
         else if current_row sld1 = 1 then bnd (run_search E b) quit
         else again (sld1, b)
       else if key = KEY_BACKSPACE then quit ()
       else again (sld1, b)))"

definition ncgui_display_searchbook_page :: "('w, 'd, 'k) uenv \<Rightarrow> ('w, 'd, int) page" where
  "ncgui_display_searchbook_page E =
     bnd (keyword_loop E (replicate TEMP_STR_SZ NUL) (zero_book\<lparr>code0 := NON_SENSE_INT\<rparr>)) (\<lambda>b.
     bnd (draw (show_searchbox_info b)) (\<lambda>_.
     bnd (loop (sb_turn E) (option_slider 2, b)) (\<lambda>_. ret (menu_code menu_non_sense_e))))"

section \<open>Building a shelf\<close>

fun name_free :: "'d dbm_lib \<Rightarrow> int list \<Rightarrow> shelf_entry \<Rightarrow> string \<Rightarrow> 'd clidb \<Rightarrow> bool option" where
  "name_free lib [] e name d = Some True"
| "name_free lib (i # is) e name d =
     (case clidb_shelf_exists i d of None \<Rightarrow> None
      | Some False \<Rightarrow> name_free lib is e name d
      | Some True \<Rightarrow>
          (case clidb_shelf_get lib i e d of None \<Rightarrow> None
           | Some (_, e1) \<Rightarrow> if s_name e1 = name then Some False else name_free lib is e1 name d))"

definition check_shelf_name :: "('w, 'd, 'k) uenv \<Rightarrow> string \<Rightarrow> ('w, 'd, bool) page" where
  "check_shelf_name E name =
     (if name = '''' then ret False
      else look (\<lambda>u. with_cache (\<lambda>d. name_free (ce_dbm (ue_cenv E)) [1..MAX_SHELF_NUM] (ue_shelf E (left_keys u)) name d)))"

text \<open>The typed name is printed with \<^verbatim>\<open>mvwprintw(nbwin, 0, 0, tsptr)\<close>: a percent sign in it is undefined behaviour.\<close>

definition name_loop :: "('w, 'd, 'k) uenv \<Rightarrow> ('w, 'd, string) page" where
  "name_loop E = loop (\<lambda>_.
     bnd (read_line E SHELF_NAME_LEN (replicate (SHELF_NAME_LEN + 1) NUL)) (\<lambda>temp_str.
     bnd (filtered temp_str) (\<lambda>(name, _).
       if CHR ''%'' \<in> set name then stop
       else bnd (confirm (CHR ''N'')) (\<lambda>sure.
         if \<not> sure then again ()
         else bnd (check_shelf_name E name) (\<lambda>ok. if ok then quit name else again ()))))) ()"

definition height_loop :: "('w, 'd, int) page" where
  "height_loop = loop (\<lambda>_.
     bnd (on_keys (\<lambda>ks. floors_loop ks 1)) (\<lambda>n.
     bnd (upd (turn_to page_buildshelf_e)) (\<lambda>_.
     bnd (confirm (CHR ''N'')) (\<lambda>sure. if sure then quit n else again ())))) ()"

definition depths_loop :: "int \<Rightarrow> u8 list \<Rightarrow> ('w, 'd, u8 list) page" where
  "depths_loop n = loop (\<lambda>ds.
     bnd (on_keys (set_shelf_parameter n ds)) (\<lambda>ds1.
     bnd (upd (turn_to page_buildshelf_e)) (\<lambda>_.
     bnd (confirm (CHR ''N'')) (\<lambda>sure. if sure then quit ds1 else again ds1))))"

definition built_shelf :: "shelf_entry \<Rightarrow> string \<Rightarrow> int \<Rightarrow> u8 list \<Rightarrow> shelf_entry" where
  "built_shelf e name n ds = e\<lparr>s_name := name, nfloors := word_of_int n, ndepth := take (nat n) ds @ drop (nat n) (ndepth e)\<rparr>"

definition start_building :: "('w, 'd, 'k) uenv \<Rightarrow> shelf_entry \<Rightarrow> ('w, 'd, int) page" where
  "start_building E sh =
     bnd (confirm (CHR ''Y'')) (\<lambda>yes.
       if yes then look (\<lambda>u.
         bnd (request Ch_build (\<lambda>c. map_option (\<lambda>(res, _, c1). (res, c1))
           (client_build_shelf (ue_cenv E) (ue_clock E (left_keys u)) sh '''' c))) (\<lambda>_. ret (menu_code menu_non_sense_e)))
       else bnd (confirm (CHR ''N'')) (\<lambda>again. ret (menu_code (if again then menu_cycle_e else menu_non_sense_e))))"

definition build_page :: "('w, 'd, 'k) uenv \<Rightarrow> ('w, 'd, int) page" where
  "build_page E = look (\<lambda>u.
     bnd (name_loop E) (\<lambda>name.
     bnd height_loop (\<lambda>n.
     bnd (depths_loop n (replicate MAX_FLOORS 0)) (\<lambda>ds.
     bnd (start_building E (built_shelf (ue_shelf E (left_keys u)) name n ds)) (\<lambda>rt_menu.
     bnd (sync_shelf_count E) (\<lambda>_. ret rt_menu))))))"

definition ncgui_display_buildshelf_page :: "('w, 'd, 'k) uenv \<Rightarrow> ('w, 'd, int) page" where
  "ncgui_display_buildshelf_page E = bnd (verify_identity E) (\<lambda>ok.
     if ok then build_page E else ret (menu_code menu_non_sense_e))"

section \<open>The client's main\<close>

definition ncgui_display_mainmenu_page :: "('w, 'd, unit) page" where
  "ncgui_display_mainmenu_page = look (\<lambda>u.
     bnd (draw (greet_text (login_user (u_cli u)))) (\<lambda>_. draw (details_text (u_sc u) (u_bc u))))"

definition ncgui_get_choice :: "('w, 'd, int) page" where
  "ncgui_get_choice = bnd (choice page_mainmenu_e (option_slider 3) 2) (\<lambda>(op_key, sld).
     if op_key = NEWLINE \<or> op_key = KEY_ENTER then ret (current_row sld)
     else if op_key = KEY_BACKSPACE then
       bnd (confirm (CHR ''N'')) (\<lambda>yes. ret (menu_code (if yes then menu_quit_e else menu_non_sense_e)))
     else ret (menu_code menu_non_sense_e))"

definition ncgui_sync_from_server :: "('w, 'd, 'k) uenv \<Rightarrow> ('w, 'd, bool) page" where
  "ncgui_sync_from_server E = look (\<lambda>u. let m = ue_msg E (left_keys u) in
     bnd (on_client (\<lambda>c. map_option (\<lambda>(ok, sc, c1). ((ok, sc), c1)) (client_shelves_info_sync (ue_cenv E) m m m m (u_sc u) c))) (\<lambda>(ok, sc).
     bnd (upd (\<lambda>u. u\<lparr>u_sc := sc\<rparr>)) (\<lambda>_.
       if \<not> ok then ret False
       else bnd (on_client (\<lambda>c. map_option (\<lambda>(ok1, bc, c1). ((ok1, bc), c1)) (client_books_count_sync (ue_cenv E) m m (u_bc u) c))) (\<lambda>(ok1, bc).
         bnd (upd (\<lambda>u. u\<lparr>u_bc := bc\<rparr>)) (\<lambda>_.
           if \<not> ok1 then ret False
           else bnd (upd (\<lambda>u. u\<lparr>u_hb := client_start_heartbeat_thread (ue_thread E) (c_sock (u_cli u))\<rparr>)) (\<lambda>_. ret True))))))"

definition ncgui_close :: "('w, 'd) ui \<Rightarrow> ('w, 'd) ui" where
  "ncgui_close u = u\<lparr>u_hb := map_option client_stop_heartbeat_thread (u_hb u)\<rparr>"

definition login_step :: "('w, 'd, 'k) uenv \<Rightarrow> ('w, 'd, ui_menu) page" where
  "login_step E = attempt (\<lambda>u. map_option (\<lambda>(menu, p, ks). (menu, u\<lparr>u_keys := ks, u_gui := lp_gui p, u_cli := lp_cli p\<rparr>))
     (ncgui_display_login_page (ue_cenv E) (ue_starts E (left_keys u)) (u_gui u) (u_cli u) (u_keys u)))"

definition register_step :: "('w, 'd, 'k) uenv \<Rightarrow> ('w, 'd, unit) page" where
  "register_step E = attempt (\<lambda>u. map_option (\<lambda>(p, ks). ((), u\<lparr>u_keys := ks, u_gui := rp_gui p, u_cli := rp_cli p\<rparr>))
     (ncgui_display_register_page (ue_cenv E) (ue_crack E) (ue_starts E (left_keys u)) (ue_bytes E (left_keys u) ACCOUNT_SZ)
       (u_gui u) (u_cli u) (u_keys u)))"

text \<open>The first loop of \<^verbatim>\<open>main\<close>: \<^const>\<open>False\<close> when the user quits.\<close>

definition login_part :: "('w, 'd, 'k) uenv \<Rightarrow> ('w, 'd, bool) page" where
  "login_part E = loop (\<lambda>_.
     bnd (login_step E) (\<lambda>menu.
       if menu = menu_quit_e then quit False
       else if menu = menu_register_e then bnd (register_step E) (\<lambda>_. again ())
       else if menu = menu_login_e then again ()
       else quit True)) ()"

text \<open>The second loop.\<close>

definition menu_page :: "('w, 'd, 'k) uenv \<Rightarrow> int \<Rightarrow> int \<Rightarrow> ('w, 'd, int) page" where
  "menu_page E op_menu ret_menu =
     (if op_menu = menu_code menu_look_through_e then display_lookthrough_page E 0
      else if op_menu = menu_code menu_build_shelf_e then ncgui_display_buildshelf_page E
      else if op_menu = menu_code menu_search_book_e then ncgui_display_searchbook_page E
      else ret ret_menu)"

definition menu_loop :: "('w, 'd, 'k) uenv \<Rightarrow> int \<Rightarrow> int \<Rightarrow> ('w, 'd, unit) page" where
  "menu_loop E op ret_m = loop (\<lambda>(op_menu, ret_menu).
     bnd (if ret_menu \<noteq> menu_code menu_cycle_e then bnd ncgui_display_mainmenu_page (\<lambda>_. ncgui_get_choice) else ret op_menu) (\<lambda>op1.
       if op1 = menu_code menu_quit_e then quit ()
       else bnd (menu_page E op1 ret_menu) (\<lambda>r. again (op1, r)))) (op, ret_m)"

text \<open>\<^verbatim>\<open>main\<close>: the exit status.\<close>

definition client_main :: "('w, 'd, 'k) uenv \<Rightarrow> ('w, 'd, int) page" where
  "client_main E = bnd (login_part E) (\<lambda>inside.
     if \<not> inside then bnd (upd ncgui_close) (\<lambda>_. ret 0)
     else bnd (ncgui_sync_from_server E) (\<lambda>synced.
       if \<not> synced then ret 1
       else bnd (menu_loop E (menu_code menu_non_sense_e) (menu_code menu_non_sense_e)) (\<lambda>_.
         bnd (upd ncgui_close) (\<lambda>_. ret 0))))"

end
