(* ===== verification/Page_Safety.thy ===== *)
theory Page_Safety
  imports Ncgui_Pages
begin

text \<open>
  What the pages of the user interface ask of the user before they change the library.  The proofs are about
  invariants of runs: \<open>page_invariant\<close> is the interface of an invariant that no page breaks as long as it
  changes nothing, \<open>change_invariant\<close> adds that the requests for changes keep it, and \<open>guarded_pages\<close> puts an
  invariant of the whole program and one of the time after an identity check together.
\<close>

section \<open>Invariants of pages\<close>

lemma keeps_bi_exit [keeping]:
  "(\<And>p. keeps J (f p)) \<Longrightarrow> (\<And>k. keeps J (g k)) \<Longrightarrow> (\<And>k. keeps J (h k))
    \<Longrightarrow> keeps J (case ex of Bi_stay p \<Rightarrow> f p | Bi_break k \<Rightarrow> g k | Bi_return k \<Rightarrow> h k)"
  by (cases ex) simp_all

lemma keeps_lt_exit [keeping]:
  "(\<And>p. keeps J (f p)) \<Longrightarrow> (\<And>k. keeps J (g k)) \<Longrightarrow> (\<And>k. keeps J (h k))
    \<Longrightarrow> keeps J (case ex of Lt_stay p \<Rightarrow> f p | Lt_leave k \<Rightarrow> g k | Lt_return k \<Rightarrow> h k)"
  by (cases ex) simp_all

lemma choice_gui:
  "get_choice ptype sld l keys g = Some (key, s, ks, g') \<Longrightarrow> g' = on_page ptype g"
  by (auto simp: get_choice_def on_page_def Let_def split: option.splits list.splits if_splits)

lemma turn_to_gui [simp]: "u_gui (turn_to ptype u) = on_page ptype (u_gui u)"
  by (simp add: turn_to_def on_page_def)

locale page_invariant =
  fixes J :: "('w, 'd) ui \<Rightarrow> bool"
  assumes same: "J u \<Longrightarrow> u_gui v = u_gui u \<Longrightarrow> u_log v = u_log u \<Longrightarrow> J v"
    and page: "J u \<Longrightarrow> J (turn_to ptype u)"
begin

lemma upd_keeps: "(\<And>u. u_gui (f u) = u_gui u) \<Longrightarrow> (\<And>u. u_log (f u) = u_log u) \<Longrightarrow> keeps J (upd f)"
  using same by (auto intro!: keeps_upd)

lemma attempt_keeps: "(\<And>u x v. f u = Some (x, v) \<Longrightarrow> u_gui v = u_gui u \<and> u_log v = u_log u) \<Longrightarrow> keeps J (attempt f)"
  using same by (blast intro: keeps_attempt)

lemma turn_keeps [keeping]: "keeps J (upd (turn_to ptype))"
  using page by (rule keeps_upd)

lemma set_counts_keep [keeping]:
  "keeps J (upd (u_sc_update f))" "keeps J (upd (u_bc_update g))" "keeps J (upd (u_new_book_update h))"
  "keeps J (upd (u_bi_update k))" "keeps J (upd (\<lambda>u. u\<lparr>u_bi := s (u_bi u)\<rparr>))"
  by (rule upd_keeps; simp)+

lemma on_keys_keeps [keeping]: "keeps J (on_keys f)"
  unfolding on_keys_def by (rule attempt_keeps) auto

lemma on_client_keeps [keeping]: "keeps J (on_client f)"
  unfolding on_client_def by (rule attempt_keeps) auto

lemma with_cache_keeps [keeping]: "keeps J (with_cache f)"
  unfolding with_cache_def by (rule attempt_keeps) auto

lemma set_cache_keeps [keeping]: "keeps J (set_cache f)"
  unfolding set_cache_def by (rule on_client_keeps)

lemma confirm_keeps [keeping]: "keeps J (confirm d)"
  unfolding confirm_def by (rule on_keys_keeps)

lemma choice_keeps [keeping]: "keeps J (choice ptype sld l)"
  unfolding choice_def
proof (rule keeps_attempt)
  fix u x v
  assume J: "J u" and "(case get_choice ptype (Some sld) l (u_keys u) (u_gui u) of
       Some (key, Some s, ks, g) \<Rightarrow> Some ((key, s), (turn_to ptype u)\<lparr>u_keys := ks, u_gui := g\<rparr>) | _ \<Rightarrow> None) = Some (x, v)"
  then have "u_gui v = u_gui (turn_to ptype u)" "u_log v = u_log (turn_to ptype u)"
    using choice_gui by (fastforce split: option.splits)+
  then show "J v" by (rule same [OF page [OF J]])
qed

lemma any_key_keeps [keeping]: "keeps J (any_key ptype)"
  unfolding any_key_def
proof (rule keeps_attempt)
  fix u x v
  assume J: "J u" and "(case get_choice ptype None 0 (u_keys u) (u_gui u) of
       Some (key, s, ks, g) \<Rightarrow> Some (key, (turn_to ptype u)\<lparr>u_keys := ks, u_gui := g\<rparr>) | None \<Rightarrow> None) = Some (x, v)"
  then have "u_gui v = u_gui (turn_to ptype u)" "u_log v = u_log (turn_to ptype u)"
    using choice_gui by (fastforce split: option.splits)+
  then show "J v" by (rule same [OF page [OF J]])
qed

lemma read_line_keeps [keeping]: "keeps J (read_line E n buf)"
  unfolding read_line_def by (intro keeping)

lemma filtered_keeps [keeping]: "keeps J (filtered buf)"
  unfolding filtered_def by (intro keeping)

lemma draw_keeps [keeping]: "keeps J (draw t)"
  unfolding draw_def by (intro keeping)

lemma tag_loop_keeps [keeping]: "keeps J (tag_loop E buf)"
  unfolding tag_loop_def by (intro keeping)

lemma tagging_box_keeps [keeping]: "keeps J (draw_bi_tagging_box E b)"
  unfolding draw_bi_tagging_box_def by (intro keeping)

lemma newbook_info_keeps [keeping]: "keeps J (get_newbook_info E b)"
  unfolding get_newbook_info_def by (intro keeping)

lemma enter_keeps [keeping]: "keeps J (upd (bi_enter sh collect_mode search))"
  by (rule upd_keeps) (auto simp: bi_enter_def reset_books_def split: option.split)

lemma next_page_keeps [keeping]: "keeps J (next_page E n search)"
  unfolding next_page_def by (rule attempt_keeps) auto

lemma peek_keeps [keeping]: "keeps J (peek E b pos)"
  unfolding peek_def by (intro keeping)

lemma show_book_keeps [keeping]: "keeps J (show_book E b mode)"
  unfolding show_book_def by (intro keeping)

lemma right_keeps [keeping]: "keeps J (bi_right E n p)"
  unfolding bi_right_def by (intro keeping)

lemma left_keeps [keeping]: "keeps J (bi_left p)"
  unfolding bi_left_def by (intro keeping)

lemma sync_shelf_count_keeps [keeping]: "keeps J (sync_shelf_count E)"
  unfolding sync_shelf_count_def by (intro keeping)

lemma sync_counts_keeps [keeping]: "keeps J (sync_counts E)"
  unfolding sync_counts_def by (intro keeping)

lemma leave_keeps [keeping]: "keeps J (bi_leave E key search)"
  unfolding bi_leave_def by (intro keeping)

lemma pad_fill_keeps [keeping]: "keeps J (pad_fill_shelves_info E)"
  unfolding pad_fill_shelves_info_def by (intro keeping)

lemma load_keeps [keeping]: "keeps J (lt_load E p)"
  unfolding lt_load_def by (intro keeping)

lemma reload_keeps [keeping]: "keeps J (lt_reload E p)"
  unfolding lt_reload_def by (intro keeping)

lemma profile_loop_keeps [keeping]: "keeps J (profile_loop h st)"
  unfolding profile_loop_def by (intro keeping)

lemma profile_keeps [keeping]: "keeps J (display_shelfprofile_page sh)"
  unfolding display_shelfprofile_page_def by (intro keeping)

lemma keyword_loop_keeps [keeping]: "keeps J (keyword_loop E buf b)"
  unfolding keyword_loop_def by (intro keeping)

lemma search_frame_keeps [keeping]: "keeps J (draw_search_frame E n)"
  unfolding draw_search_frame_def by (intro keeping)

lemma check_name_keeps [keeping]: "keeps J (check_shelf_name E name)"
  unfolding check_shelf_name_def by (intro keeping)

lemma name_loop_keeps [keeping]: "keeps J (name_loop E)"
  unfolding name_loop_def by (intro keeping)

lemma height_loop_keeps [keeping]: "keeps J height_loop"
  unfolding height_loop_def by (intro keeping)

lemma depths_loop_keeps [keeping]: "keeps J (depths_loop n ds)"
  unfolding depths_loop_def by (intro keeping)

lemma mainmenu_keeps [keeping]: "keeps J ncgui_display_mainmenu_page"
  unfolding ncgui_display_mainmenu_page_def by (intro keeping)

lemma menu_choice_keeps [keeping]: "keeps J ncgui_get_choice"
  unfolding ncgui_get_choice_def by (intro keeping)

lemma heartbeat_keeps [keeping]: "keeps J (upd (\<lambda>u. u\<lparr>u_hb := f u\<rparr>))"
  by (rule upd_keeps) simp_all

lemma sync_keeps [keeping]: "keeps J (ncgui_sync_from_server E)"
  unfolding ncgui_sync_from_server_def by (intro keeping)

lemma close_keeps [keeping]: "keeps J (upd ncgui_close)"
  by (rule upd_keeps) (simp_all add: ncgui_close_def)

end

locale change_invariant = page_invariant +
  assumes change: "J u \<Longrightarrow> J (log_event (Ev_change ch) u)"
begin

lemma request_keeps [keeping]: "keeps J (request ch f)"
  unfolding request_def by (intro keeping keeps_upd change)

lemma nb_finish_keeps [keeping]: "keeps J (nb_finish E sh b flag key)"
  unfolding nb_finish_def by (intro keeping)

lemma nb_row_keeps [keeping]: "keeps J (nb_row E sh row b flag key)"
  unfolding nb_row_def nb_shown_def by (intro keeping)

lemma nb_turn_keeps [keeping]: "keeps J (nb_turn E sh st)"
  unfolding nb_turn_def by (intro keeping)

lemma ds_turn_keeps [keeping]: "keeps J (ds_turn E sh sld)"
  unfolding ds_turn_def by (intro keeping)

lemma option_keeps [keeping]: "keeps J (bi_option E opt b pos)"
  unfolding bi_option_def by (intro keeping)

lemma building_keeps [keeping]: "keeps J (start_building E sh)"
  unfolding start_building_def by (intro keeping)

lemma build_page_keeps [keeping]: "keeps J (build_page E)"
  unfolding build_page_def by (intro keeping)

end

section \<open>Pages behind the identity check\<close>

text \<open>A successful identity check establishes \<open>G\<close>, an unsuccessful one keeps \<open>I\<close>.\<close>

definition check_result :: "('u \<Rightarrow> bool) \<Rightarrow> ('u \<Rightarrow> bool) \<Rightarrow> 'u + bool \<times> 'u \<Rightarrow> bool" where
  "check_result I G r = (case r of Inl v \<Rightarrow> I v | Inr (x, v) \<Rightarrow> if x then G v else I v)"

locale guarded_pages = inv: page_invariant I + grant: change_invariant G
  for I :: "('w, 'd) ui \<Rightarrow> bool" and G :: "('w, 'd) ui \<Rightarrow> bool" +
  assumes weaker: "G u \<Longrightarrow> I u"
    and passed: "I u \<Longrightarrow> global_pw_verified (u_gui u) \<Longrightarrow> G (log_event (Ev_check True) u)"
    and refused: "I u \<Longrightarrow> \<not> global_pw_verified (u_gui u) \<Longrightarrow> I (log_event (Ev_check False) u)"
    and accepted: "I u \<Longrightarrow> I (log_event (Ev_password True) (u\<lparr>u_gui := (u_gui u)\<lparr>global_pw_verified := True\<rparr>\<rparr>))"
    and rejected: "I u \<Longrightarrow> I (log_event (Ev_password False) u)"
    and collect: "I u \<Longrightarrow> I (log_event (Ev_change Ch_collect) u)"
begin

lemma checked_result:
  "I u \<Longrightarrow> global_pw_verified (u_gui u) = ok \<Longrightarrow> checked ok u = Some r \<Longrightarrow> check_result I G r"
  using passed refused by (auto simp: checked_def bnd_def check_result_def)

lemma server_result:
  assumes "verified_by_server E pw u = Some r" and "I u" and "\<not> global_pw_verified (u_gui u)"
  shows "case r of Inl v \<Rightarrow> I v | Inr (x, v) \<Rightarrow> I v \<and> global_pw_verified (u_gui v) = x"
proof -
  have same: "I (u\<lparr>u_cli := c\<rparr>)" for c by (rule inv.same [OF assms(2)]) simp_all
  note answers = accepted [OF same] rejected [OF same]
  show ?thesis
    using assms same answers
    by (auto simp: verified_by_server_def bnd_def on_client_def attempt_def log_event_def split: option.splits if_splits)
qed

lemma verify_result:
  assumes "verify_identity E u = Some r" and "I u"
  shows "check_result I G r"
proof (cases "global_pw_verified (u_gui u)")
  case True
  then show ?thesis using assms checked_result by (simp add: verify_identity_def)
next
  case False
  have k: "I (u\<lparr>u_keys := ks\<rparr>)" "\<not> global_pw_verified (u_gui (u\<lparr>u_keys := ks\<rparr>))" for ks
    using False by (auto intro: inv.same [OF assms(2)])
  show ?thesis
  proof (cases "get_login_input lg_option_password (u_keys u) (replicate ACCOUNT_SZ NUL)")
    case None
    then show ?thesis using assms False by (auto simp: verify_identity_def bnd_def on_keys_def attempt_def check_result_def)
  next
    case (Some p)
    obtain ok pw ks where p: "p = (ok, pw, ks)" by (cases p)
    have r: "(if \<not> ok then checked False else bnd (verified_by_server E pw) checked) (u\<lparr>u_keys := ks\<rparr>) = Some r"
      using assms(1) False Some by (simp add: verify_identity_def bnd_def on_keys_def attempt_def p)
    show ?thesis
    proof (cases ok)
      case True
      with r obtain s where s: "verified_by_server E pw (u\<lparr>u_keys := ks\<rparr>) = Some s" by (auto simp: bnd_def bind_eq_Some_conv)
      show ?thesis
      proof (cases s)
        case (Inl v)
        then show ?thesis using server_result [OF s k] r True s by (auto simp: bnd_def check_result_def)
      next
        case (Inr q)
        then obtain x v where q: "s = Inr (x, v)" by (cases q) simp
        then have "checked x v = Some r" using r True s by (simp add: bnd_def)
        then show ?thesis using server_result [OF s k] q by (auto intro: checked_result)
      qed
    qed (use r checked_result [OF k(1)] k(2) in simp)
  qed
qed

lemma guard_keeps [keeping]:
  assumes "keeps G m" and "keeps I m'"
  shows "keeps I (bnd (verify_identity E) (\<lambda>ok. if ok then m else m'))"
  by (rule keeps_after [OF _ assms weaker]) (rule verify_result [unfolded check_result_def])

lemma newbook_page_keeps [keeping]: "keeps I (add_newbook_page E sh)"
  unfolding add_newbook_page_def by (intro keeping)

lemma delete_page_keeps [keeping]: "keeps I (delete_shelf_page E sh bc)"
  unfolding delete_shelf_page_def by (intro keeping)

lemma buildshelf_page_keeps [keeping]: "keeps I (ncgui_display_buildshelf_page E)"
  unfolding ncgui_display_buildshelf_page_def by (intro keeping)

lemma options_keeps [keeping]: "keeps I (bi_options E sld offset b pos)"
  unfolding bi_options_def bi_options_turn_def by (intro keeping)

lemma collect_keeps [keeping]: "keeps I (request Ch_collect f)"
  unfolding request_def by (intro keeping keeps_upd collect)

lemma bi_collect_keeps [keeping]: "keeps I (bi_collect E sh b pos)"
  unfolding bi_collect_def by (intro keeping)

lemma enter_book_keeps [keeping]: "keeps I (bi_enter_book E sh mode b pos)"
  unfolding bi_enter_book_def by (intro keeping)

lemma bi_turn_keeps [keeping]: "keeps I (bi_turn E sh n rows p)"
  unfolding bi_turn_def by (intro keeping)

lemma bi_loop_keeps [keeping]: "keeps I (bi_loop E sh n rows p)"
  unfolding bi_loop_def by (intro keeping)

lemma bookinfo_page_keeps [keeping]: "keeps I (display_bookinfo_page E sh mode search)"
  unfolding display_bookinfo_page_def by (intro keeping)

lemma lt_option_keeps [keeping]: "keeps I (lt_option E p opt key)"
  unfolding lt_option_def by (intro keeping)

lemma lt_options_keeps [keeping]: "keeps I (lt_options E p sld offset)"
  unfolding lt_options_def lt_options_turn_def by (intro keeping)

lemma lt_turn_keeps [keeping]: "keeps I (lt_turn E mode rows p)"
  unfolding lt_turn_def by (intro keeping)

lemma lt_loop_keeps [keeping]: "keeps I (lt_loop E mode rows p)"
  unfolding lt_loop_def by (intro keeping)

lemma lookthrough_page_keeps [keeping]: "keeps I (display_lookthrough_page E mode)"
  unfolding display_lookthrough_page_def by (intro keeping)

lemma found_loop_keeps [keeping]: "keeps I (found_loop E sh search)"
  unfolding found_loop_def by (intro keeping)

lemma run_search_keeps [keeping]: "keeps I (run_search E b)"
  unfolding run_search_def by (intro keeping)

lemma sb_turn_keeps [keeping]: "keeps I (sb_turn E st)"
  unfolding sb_turn_def by (intro keeping)

lemma searchbook_page_keeps [keeping]: "keeps I (ncgui_display_searchbook_page E)"
  unfolding ncgui_display_searchbook_page_def by (intro keeping)

lemma menu_page_keeps [keeping]: "keeps I (menu_page E op r)"
  unfolding menu_page_def by (intro keeping)

lemma menu_loop_keeps [keeping]: "keeps I (menu_loop E op r)"
  unfolding menu_loop_def by (intro keeping)

end

section \<open>The order of the events\<close>

text \<open>Whether the server has accepted a password since the current page was opened, and the latest result of
  an identity check.\<close>

definition verified_in :: "ui_event list \<Rightarrow> bool" where
  "verified_in log = foldl (\<lambda>f ev. case ev of Ev_page _ \<Rightarrow> False | Ev_password ok \<Rightarrow> f \<or> ok | _ \<Rightarrow> f) False log"

definition last_check :: "ui_event list \<Rightarrow> bool" where
  "last_check log = foldl (\<lambda>f ev. case ev of Ev_check ok \<Rightarrow> ok | _ \<Rightarrow> f) False log"

definition allowed :: "ui_event list \<Rightarrow> ui_event \<Rightarrow> bool" where
  "allowed before ev = (case ev of Ev_change ch \<Rightarrow> ch = Ch_collect \<or> last_check before
     | Ev_check ok \<Rightarrow> ok = verified_in before | _ \<Rightarrow> True)"

definition orderly :: "ui_event list \<Rightarrow> bool" where
  "orderly log \<longleftrightarrow> (\<forall>before ev rest. log = before @ ev # rest \<longrightarrow> allowed before ev)"

lemma log_snoc [simp]:
  "verified_in (log @ [Ev_page p]) = False" "verified_in (log @ [Ev_password ok]) = (verified_in log \<or> ok)"
  "verified_in (log @ [Ev_check ok]) = verified_in log" "verified_in (log @ [Ev_change ch]) = verified_in log"
  "last_check (log @ [Ev_page p]) = last_check log" "last_check (log @ [Ev_password ok]) = last_check log"
  "last_check (log @ [Ev_check ok]) = ok" "last_check (log @ [Ev_change ch]) = last_check log"
  by (simp_all add: verified_in_def last_check_def)

lemma orderly_snoc [simp]: "orderly (log @ [ev]) \<longleftrightarrow> orderly log \<and> allowed log ev"
proof
  assume o: "orderly (log @ [ev])"
  have "allowed before x" if "log = before @ x # rest" for before x rest
    using o that unfolding orderly_def by (metis append_Cons append_assoc)
  then show "orderly log \<and> allowed log ev" using o by (auto simp: orderly_def)
next
  assume o: "orderly log \<and> allowed log ev"
  show "orderly (log @ [ev])" unfolding orderly_def
  proof (intro allI impI)
    fix before x rest
    assume l: "log @ [ev] = before @ x # rest"
    show "allowed before x"
      by (cases rest rule: rev_cases) (use l o in \<open>auto simp: orderly_def\<close>)
  qed
qed

lemma orderly_Nil [simp]: "orderly []"
  by (simp add: orderly_def)

definition log_inv :: "('w, 'd) ui \<Rightarrow> bool" where
  "log_inv u \<longleftrightarrow> orderly (u_log u) \<and> global_pw_verified (u_gui u) = verified_in (u_log u)"

definition log_granted :: "('w, 'd) ui \<Rightarrow> bool" where
  "log_granted u \<longleftrightarrow> log_inv u \<and> last_check (u_log u)"

interpretation log: page_invariant log_inv
  by unfold_locales (auto simp: log_inv_def turn_to_def on_page_def allowed_def)

interpretation gr: change_invariant log_granted
  by unfold_locales (auto simp: log_granted_def log_inv_def turn_to_def on_page_def allowed_def log_event_def)

interpretation pages: guarded_pages log_inv log_granted
  by unfold_locales (auto simp: log_granted_def log_inv_def allowed_def log_event_def)

section \<open>The login\<close>

definition not_verified :: "('w, 'd) ui \<Rightarrow> bool" where
  "not_verified u \<longleftrightarrow> u_log u = [] \<and> \<not> global_pw_verified (u_gui u)"

lemma on_page_not_verified: "\<not> global_pw_verified g \<Longrightarrow> \<not> global_pw_verified (on_page ptype g)"
  by (simp add: on_page_def)

lemma log_row_gui: "log_row E sts keys q = Some (menu, p, ks) \<Longrightarrow> lp_gui p = lp_gui q"
  by (auto simp: log_row_def log_login_def Let_def split: option.splits prod.splits if_splits)

lemma log_turn_gui:
  assumes "log_turn E sts keys q = Some (menu, p, ks)"
  shows "lp_gui p = lp_gui q \<or> lp_gui p = on_page page_login_e (lp_gui q)"
  using assms
  by (auto simp: log_turn_def Let_def dest!: log_row_gui choice_gui split: option.splits prod.splits if_splits)

lemma log_loop_gui:
  "log_loop E sts keys q = Some (menu, p, ks) \<Longrightarrow> \<not> global_pw_verified (lp_gui q) \<Longrightarrow> \<not> global_pw_verified (lp_gui p)"
proof (induction E sts keys q arbitrary: menu rule: log_loop.induct)
  case (1 E sts keys q)
  then show ?case using log_turn_gui [of E sts keys q] on_page_not_verified
    by (auto simp: log_loop.simps [of E sts keys q] split: option.splits) metis+
qed

lemma reg_password_gui: "reg_password cr keys q = Some (p, ks) \<Longrightarrow> rp_gui p = rp_gui q"
  by (auto simp: reg_password_def Let_def split: option.splits prod.splits if_splits verdict.splits)

definition outcome_page :: "'a outcome \<Rightarrow> 'a" where
  "outcome_page r = (case r of Leave p \<Rightarrow> p | Stay p \<Rightarrow> p)"

lemma reg_turn_gui:
  assumes "reg_turn E cr sts keys q = Some (r, ks)"
  shows "rp_gui (outcome_page r) = on_page page_register_e (rp_gui q)"
proof -
  obtain key sld ks1 g where g: "get_choice page_register_e (Some (rp_slider q)) 3 keys (rp_gui q) = Some (key, Some sld, ks1, g)"
    using assms by (auto simp: reg_turn_def split: option.splits)
  then have "g = on_page page_register_e (rp_gui q)" by (rule choice_gui)
  with assms g show ?thesis
    by (auto simp: reg_turn_def Let_def outcome_page_def dest!: reg_password_gui split: if_splits)
qed

lemma reg_loop_gui:
  "reg_loop E cr sts keys q = Some (p, ks) \<Longrightarrow> \<not> global_pw_verified (rp_gui q) \<Longrightarrow> \<not> global_pw_verified (rp_gui p)"
proof (induction E cr sts keys q rule: reg_loop.induct)
  case (1 E cr sts keys q)
  then obtain r ks1 where t: "reg_turn E cr sts keys q = Some (r, ks1)"
    by (auto simp: reg_loop.simps [of E cr sts keys q] split: option.splits)
  then have v: "\<not> global_pw_verified (rp_gui (outcome_page r))"
    using reg_turn_gui [OF t] on_page_not_verified 1(3) by simp
  show ?case
  proof (cases r)
    case (Leave p')
    then show ?thesis using 1(2) t v by (simp add: reg_loop.simps [of E cr sts keys q] outcome_page_def)
  next
    case (Stay p')
    then have "reg_loop E cr sts ks1 p' = Some (p, ks)" using 1(2) t by (simp add: reg_loop.simps [of E cr sts keys q])
    then show ?thesis using 1(1) [OF t refl Stay] v Stay by (simp add: outcome_page_def)
  qed
qed

lemma login_step_keeps [keeping]: "keeps not_verified (login_step E)"
  unfolding login_step_def ncgui_display_login_page_def
  by (rule keeps_attempt) (auto simp: not_verified_def dest!: log_loop_gui)

lemma register_step_keeps [keeping]: "keeps not_verified (register_step E)"
  unfolding register_step_def ncgui_display_register_page_def
  by (rule keeps_attempt) (auto simp: not_verified_def dest!: reg_loop_gui)

lemma login_part_keeps [keeping]: "keeps not_verified (login_part E)"
  unfolding login_part_def by (intro keeping)

section \<open>The whole program\<close>

definition final_state :: "'u + 'a \<times> 'u \<Rightarrow> 'u" where
  "final_state r = (case r of Inl v \<Rightarrow> v | Inr (x, v) \<Rightarrow> v)"

lemma final_iff: "final J r \<longleftrightarrow> J (final_state r)"
  by (simp add: final_def final_state_def split: sum.split prod.split)

lemma keeps_then:
  assumes "keeps K m" and "\<And>x. keeps I (f x)" and "\<And>u. K u \<Longrightarrow> I u" and "K u" and "bnd m f u = Some r"
  shows "final I r"
proof -
  obtain s where s: "m u = Some s" using assms(5) by (auto simp: bnd_def bind_eq_Some_conv)
  have K: "final K s" using assms(1,4) s by (simp add: keeps_def)
  show ?thesis
  proof (cases s)
    case (Inl v)
    then show ?thesis using assms(3,5) s K by (auto simp: bnd_def)
  next
    case (Inr p)
    obtain x v where p: "p = (x, v)" by (cases p)
    then have "I v" "f x v = Some r" using assms(3,5) s K Inr by (auto simp: bnd_def)
    then show ?thesis using assms(2) by (auto simp: keeps_def)
  qed
qed

end
