(* ===== verification/Page_Runs.thy ===== *)
theory Page_Runs
  imports Page_Safety
begin

text \<open>
  Theorems about whole runs of the pages (C39, C40).  The runs that show them at work: a server that accepts everything, a
  library with one shelf, and a user who deletes it.
\<close>

section \<open>Runs on a server that accepts everything\<close>

lemma bnd_Inr: "m u = Some (Inr (x, v)) \<Longrightarrow> bnd m f u = f x v"
  by (simp add: bnd_def)

lemma confirm_yes: "u_keys u = 121 # ks \<Longrightarrow> confirm (CHR ''N'') u = Some (Inr (True, u\<lparr>u_keys := ks\<rparr>))"
  by (simp add: confirm_def on_keys_def attempt_def get_confirm_def)

lemma choice_key:
  assumes "current_page (u_gui u) = ptype" and "ptype \<noteq> page_mainmenu_e" and "u_keys u = key # ks"
    and "key \<in> {KEY_DOWN, KEY_BACKSPACE, NEWLINE}"
  shows "choice ptype sld l u = Some (Inr ((key, if key = KEY_DOWN then slider_down l sld else sld), u\<lparr>u_keys := ks\<rparr>))"
  using assms by (auto simp: choice_def attempt_def get_choice_def turn_to_def key_codes)

lemma request_run: "f (u_cli u) = Some (x, c) \<Longrightarrow> request ch f u = Some (Inr (x, u\<lparr>u_cli := c, u_log := u_log u @ [Ev_change ch]\<rparr>))"
  by (simp add: request_def bnd_def on_client_def attempt_def log_event_def)

definition echo_uenv :: "(unit, bytes \<Rightarrow> bytes option, unit) uenv" where
  "echo_uenv = \<lparr>ue_cenv = echo_cenv accepted_message, ue_getnstr = (\<lambda>n ks. None), ue_clock = (\<lambda>_. \<lparr>tm_year = 118, tm_mon = 0, tm_mday = 1, tm_hour = 0\<rparr>),
     ue_book = (\<lambda>_. zero_book), ue_shelf = (\<lambda>_. zero_shelf), ue_count = (\<lambda>_. count_of_message zero_message), ue_msg = (\<lambda>_. zero_message),
     ue_bytes = (\<lambda>_ n. replicate n NUL), ue_starts = (\<lambda>_ _. sample_start), ue_crack = \<lparr>dict_open = [], fascist_check = (\<lambda>_. None)\<rparr>, ue_thread = True\<rparr>"

definition echo_ui :: "gui \<Rightarrow> int list \<Rightarrow> (unit, bytes \<Rightarrow> bytes option) ui" where
  "echo_ui g keys = \<lparr>u_keys = keys, u_gui = g, u_cli = echo_cli, u_sc = \<lparr>shelves_all = 0\<rparr>, u_bc = count_of_message zero_message,
     u_new_book = False, u_bi = \<lparr>local_shelfno = 0, local_bookno = 0, book_page_cnt = 0, bcollect = 0, bi_mark = NUL, no_next_page_flag = False\<rparr>,
     u_hb = None, u_log = []\<rparr>"

lemma accepted_ask:
  assumes "length (put_message m) = 704" and "client_sockfd (c_sock c) \<noteq> -1" and "aes_has_init (cli_aes (c_sock c))"
  shows "ask (echo_cenv accepted_message) m g c = Some (True, accepted_message, c)"
proof -
  have len: "length (put_message accepted_message) = 704" "length (put_message m) = 704"
    using length_put_message [OF wf_accepted] assms(1) by (simp_all add: sizeof_message_def)
  have "send_request (echo_cenv accepted_message) m c = Some (True, c)"
    using len assms by (simp add: send_request_def socket_client_send_request_def client_send_def encrypt_def echo_cenv_def
        echo_net_def plain_lib_def AES_BLOCK_SIZE_def)
  moreover have "get_response (echo_cenv accepted_message) g c = Some (True, accepted_message, c)"
    using len get_put_message [OF wf_accepted] assms
    by (simp add: get_response_def socket_client_get_response_def decrypt_def echo_cenv_def echo_net_def
        plain_lib_def AES_BLOCK_SIZE_def encrypted_size_def sizeof_message_def Let_def)
  ultimately show ?thesis by (simp add: ask_def)
qed

definition one_shelf_cache :: "(bytes \<Rightarrow> bytes option) clidb" where
  "one_shelf_cache = sample_cache\<lparr>shelf_dbm_ptr := Some (\<lambda>k. Some (put_shelf sample_cached_shelf)), shelf_record := (replicate 15 0)[2 := 1]\<rparr>"

definition one_shelf_cli :: "(unit, bytes \<Rightarrow> bytes option) cli" where
  "one_shelf_cli = echo_cli\<lparr>c_db := one_shelf_cache\<rparr>"

lemma one_shelf_get: "wf_shelf e \<Longrightarrow> clidb_shelf_get map_dbm 3 e one_shelf_cache = Some (True, sample_cached_shelf)"
proof -
  assume e: "wf_shelf e"
  have "length (put_shelf e) = 236" "length (put_shelf sample_cached_shelf) = 236"
    using e sample_cached_wf by (simp_all add: wf_shelf_def length_put_shelf limits)
  moreover have "\<exists>k. shelf_key ''u'' 3 = Some k" by (simp add: shelf_key_def key_buf_def dec_def dec_nat.simps)
  ultimately show ?thesis using sample_cached_wf
    by (auto simp: clidb_shelf_get_def one_shelf_cache_def sample_cache_def map_dbm_def memcpy_over_def get_put_shelf_all)
qed

lemma one_shelf_exists: "clidb_shelf_exists i one_shelf_cache = Some (i = 3)" if "1 \<le> i" "i \<le> 15"
proof -
  show ?thesis using that by (auto simp: clidb_shelf_exists_def one_shelf_cache_def limits nth_list_update nat_eq_iff)
qed

lemma zero_shelf_wf: "wf_shelf zero_shelf"
  by (simp add: wf_shelf_def zero_shelf_def c_str_def c_int_def limits)

lemma one_shelf_lines: "shelf_lines map_dbm [1..MAX_SHELF_NUM] zero_shelf one_shelf_cache 0 = Some (Some 1)"
proof -
  have "[1..MAX_SHELF_NUM] = [1, 2, 3, 4, 5, 6, 7, 8, 9, 10, 11, 12, 13, 14, 15]" by (simp add: limits upto_rec1)
  moreover have "\<not> Option.is_none (limit_str_width (s_name sample_cached_shelf) 24)" by code_simp
  ultimately show ?thesis using one_shelf_get [OF zero_shelf_wf] by (auto simp: one_shelf_exists Option.is_none_def)
qed

lemma one_shelf_realno: "clidb_shelf_realno one_shelf_cache 1 = Some 3"
  by code_simp

lemma one_shelf_load:
  assumes "wf_shelf e"
  shows "Option.bind (clidb_shelf_realno one_shelf_cache 1) (\<lambda>n. map_option snd (clidb_shelf_get map_dbm n e one_shelf_cache)) = Some sample_cached_shelf"
  using one_shelf_get [OF assms] by (simp add: one_shelf_realno)

lemma one_shelf_answers:
  shows "client_shelf_count_book (echo_cenv accepted_message) 3 bc one_shelf_cli = Some (1, count_of_message zero_message, one_shelf_cli)"
    and "client_verify_account (echo_cenv accepted_message) \<lparr>a_type = account_user_e, a_name = ''u'', a_password = ''secret''\<rparr> 0 '''' one_shelf_cli
      = Some (1, '''', one_shelf_cli)"
    and "\<exists>c. client_shelf_delete_itself (echo_cenv accepted_message) 3 one_shelf_cli = Some (1, c) \<and> c_sock c = c_sock echo_cli \<and> login_user c = ''u''"
proof -
  have s: "client_sockfd (c_sock one_shelf_cli) \<noteq> -1" "aes_has_init (cli_aes (c_sock one_shelf_cli))" by (simp_all add: one_shelf_cli_def echo_cli_def)
  have "wf_message (new_request req_count_book_e (Book_un (zero_book\<lparr>code0 := 3, code1 := NON_SENSE_INT\<rparr>)) one_shelf_cli)"
    by (simp add: new_request_def zero_message_def zero_book_def wf_message_def wf_book_def c_int_def int_request_def
        int_response_def limits c_str_def list_all_length one_shelf_cli_def echo_cli_def)
  from accepted_answer [OF this s] show "client_shelf_count_book (echo_cenv accepted_message) 3 bc one_shelf_cli = Some (1, count_of_message zero_message, one_shelf_cli)"
    by (simp add: client_shelf_count_book_def accepted_message_def count_of_message_def)
  let ?a = "\<lparr>a_type = account_user_e, a_name = ''u'', a_password = ''secret''\<rparr>"
  have "wf_message ((new_request req_verify_account_e (Account_un ?a) one_shelf_cli)\<lparr>m_user := a_name ?a\<rparr>)"
    by (rule wf_account_request) (simp_all add: c_str_def)
  from accepted_answer [OF this s] show "client_verify_account (echo_cenv accepted_message) ?a 0 '''' one_shelf_cli = Some (1, '''', one_shelf_cli)"
    by (simp add: client_verify_account_def account_error_def)
  have "wf_message (new_request req_remove_shelf_e (Shelf_un (zero_shelf\<lparr>s_code := 3\<rparr>)) one_shelf_cli)"
    by (simp add: new_request_def zero_message_def zero_shelf_def wf_message_def wf_shelf_def c_int_def int_request_def
        int_response_def limits c_str_def list_all_length one_shelf_cli_def echo_cli_def)
  note r = accepted_answer [OF this s]
  have "\<not> Option.is_none (clidb_shelf_delete map_dbm 3 one_shelf_cache)"
    by (simp add: clidb_shelf_delete_def one_shelf_cache_def sample_cache_def map_dbm_def shelf_key_def key_buf_def dec_def dec_nat.simps
        record_and_save_def shelf_record_put_def shelf_record_save_def record_key_def limits Let_def)
  then obtain ok d where "clidb_shelf_delete map_dbm 3 one_shelf_cache = Some (ok, d)" by (auto simp: Option.is_none_def)
  then show "\<exists>c. client_shelf_delete_itself (echo_cenv accepted_message) 3 one_shelf_cli = Some (1, c) \<and> c_sock c = c_sock echo_cli \<and> login_user c = ''u''"
    using r by (simp add: client_shelf_delete_itself_def on_db_def echo_cenv_def one_shelf_cli_def echo_cli_def)
qed

lemma accepted_counts:
  assumes "c_sock c = c_sock echo_cli" and "login_user c = ''u''"
  shows "client_shelves_count_sync (echo_cenv accepted_message) zero_message zero_message sc c = Some (True, \<lparr>shelves_all = 0\<rparr>, c)"
    and "client_books_count_sync (echo_cenv accepted_message) zero_message zero_message bc c = Some (True, count_of_message zero_message, c)"
proof -
  have s: "client_sockfd (c_sock c) \<noteq> -1" "aes_has_init (cli_aes (c_sock c))" using assms(1) by (simp_all add: echo_cli_def)
  have "wf_stuff req_count_book_e (Book_un zero_book)"
    by (simp add: zero_book_def wf_book_def c_int_def limits c_str_def)
  from length_put_stuff [OF this] have len: "length (put_message (zero_message\<lparr>m_user := ''u'', m_request := req_count_shelf_e\<rparr>)) = 704"
    "length (put_message (zero_message\<lparr>m_user := ''u'', m_request := req_count_book_e,
          m_stuff := Book_un ((book_of zero_message)\<lparr>code0 := NON_SENSE_INT, code1 := NON_SENSE_INT\<rparr>)\<rparr>)) = 704"
    using length_concat_put_int [of "replicate 7 0"] by (simp_all add: put_message_def zero_message_def zero_book_def limits)
  show "client_shelves_count_sync (echo_cenv accepted_message) zero_message zero_message sc c = Some (True, \<lparr>shelves_all = 0\<rparr>, c)"
    "client_books_count_sync (echo_cenv accepted_message) zero_message zero_message bc c = Some (True, count_of_message zero_message, c)"
    using accepted_ask [OF len(1) s] accepted_ask [OF len(2) s] assms(2)
    by (simp_all add: client_shelves_count_sync_def client_books_count_sync_def accepted_message_def zero_message_def count_of_message_def limits)
qed

definition delete_keys :: "int list" where
  "delete_keys = [NEWLINE, NEWLINE, KEY_DOWN, KEY_DOWN, NEWLINE] @ type_keys ''secret'' @ [121]"

definition library_ui :: "ui_page_type \<Rightarrow> bool \<Rightarrow> int list \<Rightarrow> ui_event list \<Rightarrow> (unit, bytes \<Rightarrow> bytes option) ui" where
  "library_ui ptype verified keys log = (echo_ui \<lparr>current_page = ptype, global_pw_verified = verified\<rparr> keys)
     \<lparr>u_sc := \<lparr>shelves_all = 1\<rparr>, u_cli := one_shelf_cli, u_log := log\<rparr>"

lemma library_keys [simp]: "u_keys (library_ui p v ks l) = ks" "(library_ui p v ks l)\<lparr>u_keys := ks'\<rparr> = library_ui p v ks' l"
  "current_page (u_gui (library_ui p v ks l)) = p" "global_pw_verified (u_gui (library_ui p v ks l)) = v"
  "u_cli (library_ui p v ks l) = one_shelf_cli" "u_log (library_ui p v ks l) = l" "log_event ev (library_ui p v ks l) = library_ui p v ks (l @ [ev])"
  "shelves_all (u_sc (library_ui p v ks l)) = 1" "books_unsorted (u_bc (library_ui p v ks l)) = 0"
  "(library_ui p v ks l)\<lparr>u_gui := (u_gui (library_ui p v ks l))\<lparr>global_pw_verified := v'\<rparr>\<rparr> = library_ui p v' ks l"
  "(library_ui p v ks l)\<lparr>u_log := l'\<rparr> = library_ui p v ks l'" 
  by (simp_all add: library_ui_def echo_ui_def log_event_def count_of_message_def zero_message_def limits)

lemma turn_to_library: "turn_to p (library_ui q v ks l) = (if p = q then library_ui p v ks l else library_ui p False ks (l @ [Ev_page p]))"
  by (auto simp: turn_to_def on_page_def library_ui_def echo_ui_def)

lemma library_choice:
  assumes "key \<in> {KEY_DOWN, KEY_BACKSPACE, NEWLINE}" and "key = KEY_DOWN \<longrightarrow> p \<noteq> page_mainmenu_e"
  shows "choice p sld n (library_ui q v (key # ks) l) = Some (Inr ((key, if key = KEY_DOWN then slider_down n sld else sld), turn_to p (library_ui q v ks l)))"
  using assms by (auto simp: choice_def attempt_def get_choice_def key_codes library_ui_def echo_ui_def turn_to_def on_page_def)

lemma library_client: "f one_shelf_cli = Some (x, one_shelf_cli) \<Longrightarrow> on_client f (library_ui q v ks l) = Some (Inr (x, library_ui q v ks l))"
  by (simp add: on_client_def attempt_def library_ui_def)

lemma library_load:
  assumes "current_row (lt_slider p) = 0" and "wf_shelf (lt_shelf p)"
  shows "lt_load echo_uenv p (library_ui q v ks l)
    = Some (Inr (Some (p\<lparr>lt_shelf := sample_cached_shelf, lt_count := count_of_message zero_message\<rparr>), library_ui q v ks l))"
proof -
  have 1: "with_cache (\<lambda>d. Option.bind (clidb_shelf_realno d (current_row (lt_slider p) + 1)) (\<lambda>n.
       map_option snd (clidb_shelf_get (ce_dbm (ue_cenv echo_uenv)) n (lt_shelf p) d))) (library_ui q v ks l)
     = Some (Inr (sample_cached_shelf, library_ui q v ks l))"
    using one_shelf_load [OF assms(2)] assms(1) by (simp add: with_cache_def attempt_def one_shelf_cli_def echo_uenv_def echo_cenv_def)
  have 2: "on_client (\<lambda>c. map_option (\<lambda>(res, bc, c1). ((res, bc), c1)) (client_shelf_count_book (ue_cenv echo_uenv) (s_code sample_cached_shelf) (lt_count p) c)) (library_ui q v ks l)
    = Some (Inr ((1, count_of_message zero_message), library_ui q v ks l))"
    by (rule library_client) (simp add: one_shelf_answers(1) echo_uenv_def sample_cached_shelf_def)
  show ?thesis unfolding lt_load_def using 1 2 by (simp add: bnd_Inr)
qed

lemma library_verify:
  "verify_identity echo_uenv (library_ui q False (type_keys ''secret'' @ ks) l) = Some (Inr (True, library_ui q True ks (l @ [Ev_password True, Ev_check True])))"
proof -
  have "login_text lg_option_password ''secret''" "MIN_PW_LEN \<le> length ''secret''"
    by (simp_all add: login_text_def typed_char_def DEFAULT_INPUT_LEN_def MIN_PW_LEN_def)
  then obtain b where b: "get_login_input lg_option_password (type_keys ''secret'' @ ks) (replicate ACCOUNT_SZ NUL) = Some (True, b, ks)" "cstr b = ''secret''"
    by (rule input_types)
  have "login_user one_shelf_cli = ''u''" by (simp add: one_shelf_cli_def echo_cli_def)
  then have "on_client (\<lambda>c. map_option (\<lambda>(res, _, c1). (res, c1)) (client_verify_account (ue_cenv echo_uenv)
      \<lparr>a_type = account_user_e, a_name = login_user c, a_password = cstr b\<rparr> 0 '''' c)) (library_ui q False ks l) = Some (Inr (1, library_ui q False ks l))"
    by (intro library_client) (simp add: b one_shelf_answers(2) echo_uenv_def)
  moreover have "on_keys (\<lambda>ks. map_option (\<lambda>(ok, pw, ks'). ((ok, pw), ks')) (get_login_input lg_option_password ks (replicate ACCOUNT_SZ NUL)))
      (library_ui q False (type_keys ''secret'' @ ks) l) = Some (Inr ((True, b), library_ui q False ks l))"
    by (simp add: on_keys_def attempt_def b)
  ultimately show ?thesis
    by (simp add: verify_identity_def bnd_Inr verified_by_server_def checked_def)
qed

lemma library_delete:
  "\<exists>c. delete_shelf_page echo_uenv sample_cached_shelf (count_of_message zero_message) (library_ui q False (type_keys ''secret'' @ [121]) l)
      = Some (Inr (LOCAL_KEY_CERTAIN_MEANING, (library_ui q True [] (l @ [Ev_password True, Ev_check True, Ev_change Ch_remove]))\<lparr>u_cli := c\<rparr>))
    \<and> c_sock c = c_sock echo_cli \<and> login_user c = ''u''"
proof -
  obtain c where c: "client_shelf_delete_itself (echo_cenv accepted_message) 3 one_shelf_cli = Some (1, c)" "c_sock c = c_sock echo_cli" "login_user c = ''u''"
    using one_shelf_answers(3) by blast
  have "request Ch_remove (client_shelf_delete_itself (ue_cenv echo_uenv) (s_code sample_cached_shelf)) (library_ui q v ks l)
      = Some (Inr (1, (library_ui q v ks l)\<lparr>u_cli := c, u_log := l @ [Ev_change Ch_remove]\<rparr>))" for v ks l
    using c(1) request_run [of _ "library_ui q v ks l"] by (simp add: echo_uenv_def sample_cached_shelf_def)
  moreover have "count_of_message zero_message = \<lparr>books_all = 0, books_on_reading = 0, books_borrowed = 0, books_unsorted = 0\<rparr>"
    by (simp add: count_of_message_def zero_message_def limits)
  moreover have "(library_ui q v ks l)\<lparr>u_cli := c, u_log := l'\<rparr> = (library_ui q v ks l')\<lparr>u_cli := c\<rparr>" for v ks l l'
    by (simp add: library_ui_def)
  ultimately show ?thesis using library_verify [of q "[121]" l] confirm_yes [of "library_ui q True [121] (l @ [Ev_password True, Ev_check True])" "[]"] c(2,3)
    by (auto simp: delete_shelf_page_def bnd_Inr)
qed

lemma library_fill: "pad_fill_shelves_info echo_uenv (library_ui q v ks l) = Some (Inr (Some 1, library_ui q v ks l))"
  using one_shelf_lines by (simp add: pad_fill_shelves_info_def with_cache_def attempt_def one_shelf_cli_def echo_uenv_def echo_cenv_def)

lemma library_options:
  assumes "lt_shelf p = sample_cached_shelf" and "lt_count p = count_of_message zero_message"
  shows "\<exists>c. lt_options echo_uenv p (option_slider 3) 1 (library_ui page_lookthrough_e False ([KEY_DOWN, KEY_DOWN, NEWLINE] @ type_keys ''secret'' @ [121]) l)
      = Some (Inr (True, (library_ui page_lookthrough_e True [] (l @ [Ev_password True, Ev_check True, Ev_change Ch_remove]))\<lparr>u_cli := c\<rparr>))
    \<and> c_sock c = c_sock echo_cli \<and> login_user c = ''u''"
proof -
  obtain c where c: "delete_shelf_page echo_uenv sample_cached_shelf (count_of_message zero_message) (library_ui page_lookthrough_e False (type_keys ''secret'' @ [121]) l)
      = Some (Inr (LOCAL_KEY_CERTAIN_MEANING, (library_ui page_lookthrough_e True [] (l @ [Ev_password True, Ev_check True, Ev_change Ch_remove]))\<lparr>u_cli := c\<rparr>))"
    "c_sock c = c_sock echo_cli" "login_user c = ''u''" using library_delete by blast
  have k: "KEY_DOWN \<noteq> KEY_ENTER" "KEY_DOWN \<noteq> NEWLINE" "KEY_DOWN \<noteq> KEY_BACKSPACE" "NEWLINE \<noteq> KEY_ENTER" "LOCAL_KEY_NON_SENSE \<noteq> KEY_ENTER"
    "LOCAL_KEY_NON_SENSE \<noteq> KEY_BACKSPACE" by (simp_all add: key_codes LOCAL_KEY_NON_SENSE_def)
  show ?thesis using c k assms
    by (intro exI [of _ c]) (simp add: lt_options_def loop.simps lt_options_turn_def library_choice turn_to_library bnd_Inr slider_down_def option_slider_def lt_option_def)
qed

lemma library_sync:
  assumes "c_sock c = c_sock echo_cli" and "login_user c = ''u''"
  shows "sync_counts echo_uenv (u\<lparr>u_cli := c\<rparr>) = Some (Inr ((), u\<lparr>u_cli := c, u_sc := \<lparr>shelves_all = 0\<rparr>, u_bc := count_of_message zero_message\<rparr>))"
  using accepted_counts [OF assms]
  by (simp add: sync_counts_def sync_shelf_count_def bnd_def on_client_def attempt_def echo_uenv_def)

lemma library_page:
  "\<exists>c. display_lookthrough_page echo_uenv 0 (library_ui page_mainmenu_e False (NEWLINE # [KEY_DOWN, KEY_DOWN, NEWLINE] @ type_keys ''secret'' @ [121]) l)
      = Some (Inr (5, (library_ui page_lookthrough_e True [] (l @ [Ev_page page_lookthrough_e, Ev_password True, Ev_check True, Ev_change Ch_remove]))\<lparr>u_cli := c, u_sc := \<lparr>shelves_all = 0\<rparr>, u_bc := count_of_message zero_message\<rparr>))
    \<and> login_user c = ''u''"
proof -
  let ?ks = "[KEY_DOWN, KEY_DOWN, NEWLINE] @ type_keys ''secret'' @ [121]" and ?l = "l @ [Ev_page page_lookthrough_e]"
  let ?p = "\<lparr>lt_slider = list_slider 1, lt_shelf = zero_shelf, lt_count = count_of_message zero_message\<rparr>"
  let ?p1 = "\<lparr>lt_slider = list_slider 1, lt_shelf = sample_cached_shelf, lt_count = count_of_message zero_message\<rparr>"
  have load: "lt_load echo_uenv ?p (library_ui q v ks l) = Some (Inr (Some ?p1, library_ui q v ks l))" for q v ks l
    using library_load [of ?p] zero_shelf_wf by (simp add: list_slider_def)
  obtain c where c: "lt_options echo_uenv ?p1 (option_slider 3) 1 (library_ui page_lookthrough_e False ?ks ?l)
      = Some (Inr (True, (library_ui page_lookthrough_e True [] (?l @ [Ev_password True, Ev_check True, Ev_change Ch_remove]))\<lparr>u_cli := c\<rparr>))"
    "c_sock c = c_sock echo_cli" "login_user c = ''u''" using library_options [of ?p1 ?l] by auto
  have k: "NEWLINE \<noteq> KEY_UP" "NEWLINE \<noteq> KEY_DOWN" "NEWLINE \<noteq> KEY_ENTER" by (simp_all add: key_codes)
  have box: "lt_box ?p1 (library_ui page_lookthrough_e False ks l) = (option_slider 3, 1)" for ks l
    by (simp add: lt_box_def count_of_message_def zero_message_def limits)
  have start: "choice page_lookthrough_e sld n (library_ui page_mainmenu_e False (NEWLINE # ?ks) l) = Some (Inr ((NEWLINE, sld), library_ui page_lookthrough_e False ?ks ?l))" for sld n
    using library_choice [of NEWLINE page_lookthrough_e sld n page_mainmenu_e False ?ks l] k by (simp add: turn_to_library)
  have "lt_turn echo_uenv 0 0 ?p1 (library_ui page_mainmenu_e False (NEWLINE # ?ks) l)
      = Some (Inr (Lt_leave 5, (library_ui page_lookthrough_e True [] (?l @ [Ev_password True, Ev_check True, Ev_change Ch_remove]))\<lparr>u_cli := c\<rparr>))"
    unfolding lt_turn_def using start c(1) k box by (simp add: bnd_Inr menu_code_def Let_def)
  then have "lt_loop echo_uenv 0 0 ?p1 (library_ui page_mainmenu_e False (NEWLINE # ?ks) l)
      = Some (Inr (Lt_leave 5, (library_ui page_lookthrough_e True [] (?l @ [Ev_password True, Ev_check True, Ev_change Ch_remove]))\<lparr>u_cli := c\<rparr>))"
    by (simp add: lt_loop_def loop.simps bnd_Inr)
  then show ?thesis using load library_fill library_sync [OF c(2,3)] c(3)
    by (intro exI [of _ c]) (simp add: display_lookthrough_page_def bnd_Inr echo_uenv_def [THEN arg_cong [of _ _ ue_shelf]] echo_uenv_def [THEN arg_cong [of _ _ ue_count]])
qed

lemma delete_run:
  "\<exists>v. menu_loop echo_uenv 4 4 (library_ui page_nonsense_e False delete_keys []) = Some (Inl v)
    \<and> u_log v = [Ev_page page_mainmenu_e, Ev_page page_lookthrough_e, Ev_password True, Ev_check True, Ev_change Ch_remove]"
proof -
  let ?ks = "[KEY_DOWN, KEY_DOWN, NEWLINE] @ type_keys ''secret'' @ [121]"
  let ?log = "[Ev_page page_mainmenu_e, Ev_page page_lookthrough_e, Ev_password True, Ev_check True, Ev_change Ch_remove]"
  obtain c where c: "display_lookthrough_page echo_uenv 0 (library_ui page_mainmenu_e False (NEWLINE # ?ks) [Ev_page page_mainmenu_e])
      = Some (Inr (5, (library_ui page_lookthrough_e True [] ?log)\<lparr>u_cli := c, u_sc := \<lparr>shelves_all = 0\<rparr>, u_bc := count_of_message zero_message\<rparr>))" "login_user c = ''u''"
    using library_page [of "[Ev_page page_mainmenu_e]"] by auto
  let ?v = "(library_ui page_lookthrough_e True [] ?log)\<lparr>u_cli := c, u_sc := \<lparr>shelves_all = 0\<rparr>, u_bc := count_of_message zero_message\<rparr>"
  have d: "\<not> Option.is_none (details_text \<lparr>shelves_all = n\<rparr> (count_of_message zero_message))" if "n = 0 \<or> n = 1" for n
  proof -
    have "\<not> Option.is_none (details_text \<lparr>shelves_all = 0\<rparr> (count_of_message zero_message))"
      "\<not> Option.is_none (details_text \<lparr>shelves_all = 1\<rparr> (count_of_message zero_message))" by code_simp+
    then show ?thesis using that by auto
  qed
  have menu: "ncgui_display_mainmenu_page (library_ui q v ks l) = Some (Inr ((), library_ui q v ks l))" for q v ks l
    using d [of 1] by (auto simp: ncgui_display_mainmenu_page_def draw_def greet_text_def library_ui_def echo_ui_def one_shelf_cli_def echo_cli_def
        Option.is_none_def split: option.split)
  have menu2: "ncgui_display_mainmenu_page ?v = Some (Inr ((), ?v))"
    using d [of 0] c(2) by (auto simp: ncgui_display_mainmenu_page_def draw_def greet_text_def Option.is_none_def split: option.split)
  have first: "ncgui_get_choice (library_ui page_nonsense_e False (NEWLINE # NEWLINE # ?ks) [])
      = Some (Inr (0, library_ui page_mainmenu_e False (NEWLINE # ?ks) [Ev_page page_mainmenu_e]))"
    using library_choice [of NEWLINE page_mainmenu_e "option_slider 3" 2 page_nonsense_e False "NEWLINE # ?ks" "[]"]
    by (simp add: ncgui_get_choice_def bnd_Inr turn_to_library option_slider_def key_codes)
  have waits: "ncgui_get_choice ?v = Some (Inl ?v)"
    by (simp add: ncgui_get_choice_def bnd_def choice_def attempt_def get_choice_def library_ui_def echo_ui_def)
  have empty: "display_lookthrough_page echo_uenv 0 ?v = Some (Inr (4, ?v))" by (simp add: display_lookthrough_page_def menu_code_def)
  have codes: "menu_code menu_look_through_e = 0" "menu_code menu_cycle_e = 5" "menu_code menu_quit_e = 3" by (simp_all add: menu_code_def)
  show ?thesis using menu menu2 first waits empty c(1) codes
    by (intro exI [of _ ?v]) (simp add: menu_loop_def loop.simps menu_page_def delete_keys_def bnd_Inr bnd_def [of _ _ ?v])
qed

section \<open>Every change is checked\<close>

lemma main_orderly:
  assumes "u_log u = []" and "\<not> global_pw_verified (u_gui u)" and "client_main E u = Some r"
  shows "final log_inv r"
  using assms(3) unfolding client_main_def
  by (rule keeps_then [OF login_part_keeps, rotated 3])
    (use assms(1,2) in \<open>auto simp: not_verified_def log_inv_def verified_in_def intro!: keeping\<close>)

lemma menu_orderly:
  assumes "u_log u = []" and "\<not> global_pw_verified (u_gui u)" and "menu_loop E op ret_menu u = Some r"
  shows "final log_inv r"
proof -
  have "log_inv u" using assms(1,2) by (simp add: log_inv_def verified_in_def)
  then show ?thesis using keepsD [OF pages.menu_loop_keeps assms(3)] by blast
qed

text \<open>C39: whatever keys the user presses and whatever the server answers, until the program ends or waits: every
  request that changes the library is sent only when the latest identity check was passed, except for
  putting an unsorted book on a shelf, which asks for no check; and every check passes exactly when the
  server has accepted the user's password since the page was opened.  This holds for the whole program
  and for its menu loop alone.\<close>

theorem changes_are_checked:
  assumes "u_log u = []" and "\<not> global_pw_verified (u_gui u)"
  shows "(client_main E u = Some r \<longrightarrow> orderly (u_log (final_state r)))
    \<and> (menu_loop E op ret_menu u = Some r' \<longrightarrow> orderly (u_log (final_state r')))"
  using main_orderly [OF assms, of E r] menu_orderly [OF assms, of E op ret_menu r']
  by (simp add: final_iff log_inv_def)

theorem changes_are_checked_witness:
  "\<exists>v. menu_loop echo_uenv 4 4 (library_ui page_nonsense_e False delete_keys []) = Some (Inl v)
     \<and> orderly (u_log v) \<and> Ev_change Ch_remove \<in> set (u_log v)"
proof -
  obtain v where v: "menu_loop echo_uenv 4 4 (library_ui page_nonsense_e False delete_keys []) = Some (Inl v)" "Ev_change Ch_remove \<in> set (u_log v)"
    using delete_run by auto
  then show ?thesis
    using changes_are_checked [of "library_ui page_nonsense_e False delete_keys []" echo_uenv _ 4 4 "Inl v"] by (simp add: final_state_def)
qed

section \<open>Deleting a shelf\<close>

text \<open>The answers to the question what to do with the books of the shelf, and the request each of them makes.\<close>

definition book_answers :: "(int list \<times> change list) list" where
  "book_answers = [([KEY_BACKSPACE], []), ([NEWLINE], [Ch_unsort]), ([KEY_DOWN, NEWLINE], [Ch_abandon])]"

definition answer_client :: "('w, 'd, 'k) cenv \<Rightarrow> int \<Rightarrow> change list \<Rightarrow> ('w, 'd) cli \<Rightarrow> ('w, 'd) cli option" where
  "answer_client E n chs c =
     (if chs = [Ch_unsort] then map_option snd (client_shelf_unsorted_books E n c)
      else if chs = [Ch_abandon] then map_option snd (client_shelf_abandon_books E n c)
      else Some c)"

definition on_shelf_page :: "('w, 'd) ui \<Rightarrow> bool" where
  "on_shelf_page u \<longleftrightarrow> current_page (u_gui u) = page_lookthrough_e \<and> global_pw_verified (u_gui u)"

lemma book_answer:
  assumes "on_shelf_page u" and "u_keys u = ans @ ks" and "(ans, chs) \<in> set book_answers"
    and "answer_client (ue_cenv E) (s_code sh) chs (u_cli u) = Some c"
  shows "loop (ds_turn E sh) (option_slider 2) u = Some (Inr ((), u\<lparr>u_keys := ks, u_cli := c, u_log := u_log u @ map Ev_change chs\<rparr>))"
proof -
  have keys: "KEY_DOWN \<noteq> NEWLINE" "KEY_DOWN \<noteq> KEY_ENTER" "KEY_DOWN \<noteq> KEY_BACKSPACE" "KEY_BACKSPACE \<noteq> NEWLINE" "KEY_BACKSPACE \<noteq> KEY_ENTER"
    by (simp_all add: key_codes)
  have p: "current_page (u_gui u) = page_lookthrough_e" using assms(1) by (simp add: on_shelf_page_def)
  consider "ans = [KEY_BACKSPACE]" "chs = []" | "ans = [NEWLINE]" "chs = [Ch_unsort]" | "ans = [KEY_DOWN, NEWLINE]" "chs = [Ch_abandon]"
    using assms(3) by (auto simp: book_answers_def)
  then show ?thesis
  proof cases
    case 1
    then have "c = u_cli u" using assms(4) by (simp add: answer_client_def)
    then show ?thesis using 1 choice_key [OF p] assms(2) keys by (simp add: loop.simps ds_turn_def bnd_Inr)
  next
    case 2
    obtain x where c: "client_shelf_unsorted_books (ue_cenv E) (s_code sh) (u_cli u) = Some (x, c)"
      using assms(4) 2 by (auto simp: answer_client_def)
    then show ?thesis using 2 choice_key [OF p] assms(2) keys
      by (simp add: loop.simps ds_turn_def bnd_Inr request_run option_slider_def)
  next
    case 3
    obtain x where c: "client_shelf_abandon_books (ue_cenv E) (s_code sh) (u_cli u) = Some (x, c)"
      using assms(4) 3 by (auto simp: answer_client_def)
    let ?u = "u\<lparr>u_keys := NEWLINE # ks\<rparr>"
    have "choice page_lookthrough_e s l ?u = Some (Inr ((NEWLINE, s), ?u\<lparr>u_keys := ks\<rparr>))" for s l
      using choice_key [of ?u page_lookthrough_e NEWLINE ks] p keys by simp
    then show ?thesis using 3 choice_key [OF p, of KEY_DOWN "NEWLINE # ks"] assms(2) keys c
      by (simp add: loop.simps ds_turn_def bnd_Inr request_run option_slider_def slider_down_def)
  qed
qed

text \<open>C40: once the user has confirmed that the shelf is to be deleted, the shelf is removed whatever the user
  answers to the question what becomes of its books.  In particular the key that everywhere else means going
  back makes no request for the books but still removes the shelf under them.\<close>

theorem delete_shelf_any_answer:
  assumes "on_shelf_page u" and "u_keys u = 121 # ans @ ks" and "(ans, chs) \<in> set book_answers"
    and "0 < books_all bc - books_unsorted bc"
    and "answer_client (ue_cenv E) (s_code sh) chs (u_cli u) = Some c"
    and "client_shelf_delete_itself (ue_cenv E) (s_code sh) c = Some (res, c')"
  shows "delete_shelf_page E sh bc u = Some (Inr (if res \<noteq> 0 then LOCAL_KEY_CERTAIN_MEANING else LOCAL_KEY_NON_SENSE,
    u\<lparr>u_keys := ks, u_cli := c', u_log := u_log u @ Ev_check True # map Ev_change chs @ [Ev_change Ch_remove]\<rparr>))"
proof -
  let ?u = "u\<lparr>u_log := u_log u @ [Ev_check True]\<rparr>" and ?v = "u\<lparr>u_log := u_log u @ [Ev_check True], u_keys := ans @ ks\<rparr>"
  have "verify_identity E u = Some (Inr (True, ?u))"
    using assms(1) by (simp add: verify_identity_def checked_def on_shelf_page_def bnd_def log_event_def)
  moreover have "confirm (CHR ''N'') ?u = Some (Inr (True, ?v))" using confirm_yes [of ?u "ans @ ks"] assms(2) by simp
  moreover have "loop (ds_turn E sh) (option_slider 2) ?v = Some (Inr ((), ?v\<lparr>u_keys := ks, u_cli := c, u_log := u_log ?v @ map Ev_change chs\<rparr>))"
    using book_answer [of ?v ans ks chs E sh c] assms(1,3,5) by (auto simp: on_shelf_page_def)
  ultimately show ?thesis using assms(4,6) by (simp add: delete_shelf_page_def bnd_Inr request_run)
qed

theorem delete_shelf_any_answer_witness:
  "\<exists>c'. delete_shelf_page echo_uenv (zero_shelf\<lparr>s_code := 2\<rparr>) \<lparr>books_all = 1, books_on_reading = 0, books_borrowed = 0, books_unsorted = 0\<rparr>
      (echo_ui \<lparr>current_page = page_lookthrough_e, global_pw_verified = True\<rparr> [121, KEY_BACKSPACE])
    = Some (Inr (LOCAL_KEY_CERTAIN_MEANING, (echo_ui \<lparr>current_page = page_lookthrough_e, global_pw_verified = True\<rparr> [])
        \<lparr>u_cli := c', u_log := [Ev_check True, Ev_change Ch_remove]\<rparr>))"
proof -
  let ?u = "echo_ui \<lparr>current_page = page_lookthrough_e, global_pw_verified = True\<rparr> [121, KEY_BACKSPACE]"
  let ?sh = "zero_shelf\<lparr>s_code := 2\<rparr>" and ?bc = "\<lparr>books_all = 1, books_on_reading = 0, books_borrowed = 0, books_unsorted = 0\<rparr>"
  let ?m = "new_request req_remove_shelf_e (Shelf_un ?sh) echo_cli"
  have u: "on_shelf_page ?u" "u_keys ?u = 121 # [KEY_BACKSPACE] @ []" "([KEY_BACKSPACE], []) \<in> set book_answers"
    by (simp_all add: on_shelf_page_def echo_ui_def book_answers_def)
  have wf: "wf_message ?m"
    by (simp add: new_request_def zero_message_def zero_shelf_def wf_message_def wf_shelf_def c_int_def int_request_def
        int_response_def limits c_str_def list_all_length echo_cli_def)
  have "find_from_server (echo_cenv accepted_message) ?m echo_cli = Some (1, accepted_message, echo_cli)"
    by (rule accepted_answer [OF wf]) (simp_all add: echo_cli_def)
  moreover have "\<not> Option.is_none (clidb_shelf_delete map_dbm 2 sample_cache)" by code_simp
  then obtain ok d where "clidb_shelf_delete map_dbm 2 sample_cache = Some (ok, d)" by (auto simp: Option.is_none_def)
  ultimately obtain c' where c': "client_shelf_delete_itself (ue_cenv echo_uenv) (s_code ?sh) (u_cli ?u) = Some (1, c')"
    by (simp add: client_shelf_delete_itself_def echo_uenv_def echo_ui_def on_db_def echo_cenv_def echo_cli_def)
  show ?thesis
    using delete_shelf_any_answer [OF u _ _ c', of ?bc] by (simp add: answer_client_def) (auto simp: echo_ui_def)
qed

section \<open>Selecting a shelf for a search\<close>

text \<open>Without shelves (or when the server does not answer) the page that selects a shelf returns \<^verbatim>\<open>menu_non_sense_e\<close>, which is
  4 and not \<^verbatim>\<open>NON_SENSE_INT\<close>: the search page takes it for the number of a shelf and searches shelf 4 only.\<close>

lemma select_without_shelves:
  "shelves_all (u_sc u) = 0 \<Longrightarrow> display_lookthrough_page E 1 u = Some (Inr (4, u)) \<and> (4 :: int) \<noteq> NON_SENSE_INT"
  by (simp add: display_lookthrough_page_def menu_code_def NON_SENSE_INT_def)

text \<open>A search leaves \<^verbatim>\<open>bcollect\<close> as the last shelf or place of unsorted books set it, so after a visit to the unsorted books
  enter on a found book runs \<open>bi_collect\<close>.\<close>

lemma search_keeps_collect: "bcollect (u_bi (bi_enter sh mode (Some e) u)) = bcollect (u_bi u)"
  by (simp add: bi_enter_def reset_books_def bi_fresh_def)

end
