(* ===== verification/Crypt_Blowfish.thy ===== *)
theory Crypt_Blowfish
  imports Blowfish_Tables
begin

text \<open>
  \<^verbatim>\<open>crypt_blowfish/crypt_blowfish.c\<close> (the same file in the server and in the client): the base-64 encoding of
  salts and hashes, the Blowfish cipher on 32-bit words, its expensive key schedule and the hash of a password with the
  self-test that follows every computation.  The build is the one of a little-endian 64-bit machine: \<^verbatim>\<open>BF_ASM\<close> is 0,
  \<^verbatim>\<open>BF_SCALE\<close> is 1.

  The array \<^verbatim>\<open>S[4][0x100]\<close> is one list of 1024 words, as the code itself runs through it; \<^verbatim>\<open>S[k][i]\<close> is its entry
  \<open>256 * k + i\<close>.  A setting or a key is a C string; reading at its end gives NUL.  A function that returns NULL returns
  \<^const>\<open>Inl\<close> of the error number.
\<close>

unbundle bit_operations_syntax

datatype crypt_errno = ERANGE | EINVAL | ENOMEM

section \<open>Base 64\<close>

definition BF_safe_atoi64 :: "char \<Rightarrow> u8 option" where
  "BF_safe_atoi64 src =
     (let tmp = uchar src - 0x20
      in if 0x60 \<le> tmp then None
         else (let v = BF_atoi64 ! unat tmp in if 63 < v then None else Some v))"

text \<open>The next digit of a string and the rest; the terminating NUL is not a digit.\<close>

fun BF_digit :: "string \<Rightarrow> (u8 \<times> string) option" where
  "BF_digit [] = None"
| "BF_digit (c # cs) = map_option (\<lambda>v. (v, cs)) (BF_safe_atoi64 c)"

text \<open>\<^verbatim>\<open>BF_decode\<close> writes \<open>sz\<close> bytes.  All intermediate values are below 256, so bytes are wide enough for them.\<close>

fun BF_decode :: "string \<Rightarrow> nat \<Rightarrow> u8 list option" where
  "BF_decode src sz =
     (case BF_digit src of None \<Rightarrow> None | Some (c1, src1) \<Rightarrow>
      case BF_digit src1 of None \<Rightarrow> None | Some (c2, src2) \<Rightarrow>
        (let d1 = push_bit 2 c1 OR drop_bit 4 (c2 AND 0x30)
         in if sz \<le> 1 then Some [d1]
            else case BF_digit src2 of None \<Rightarrow> None | Some (c3, src3) \<Rightarrow>
              (let d2 = push_bit 4 (c2 AND 0x0F) OR drop_bit 2 (c3 AND 0x3C)
               in if sz \<le> 2 then Some [d1, d2]
                  else case BF_digit src3 of None \<Rightarrow> None | Some (c4, src4) \<Rightarrow>
                    (let d3 = push_bit 6 (c3 AND 0x03) OR c4
                     in if sz \<le> 3 then Some [d1, d2, d3]
                        else map_option (\<lambda>ds. d1 # d2 # d3 # ds) (BF_decode src4 (sz - 3))))))"

declare BF_decode.simps [simp del]

definition BF_char :: "u8 \<Rightarrow> char" where
  "BF_char v = BF_itoa64 ! unat v"

fun BF_encode :: "u8 list \<Rightarrow> string" where
  "BF_encode (b1 # b2 # b3 # bs) =
     BF_char (drop_bit 2 b1) # BF_char (push_bit 4 (b1 AND 0x03) OR drop_bit 4 b2)
     # BF_char (push_bit 2 (b2 AND 0x0f) OR drop_bit 6 b3) # BF_char (b3 AND 0x3f) # BF_encode bs"
| "BF_encode [b1, b2] =
     [BF_char (drop_bit 2 b1), BF_char (push_bit 4 (b1 AND 0x03) OR drop_bit 4 b2), BF_char (push_bit 2 (b2 AND 0x0f))]"
| "BF_encode [b1] = [BF_char (drop_bit 2 b1), BF_char (push_bit 4 (b1 AND 0x03))]"
| "BF_encode [] = []"

section \<open>Words in memory\<close>

text \<open>The bytes of words on a little-endian machine, and the swap that makes them big-endian.\<close>

definition word_bytes :: "u32 \<Rightarrow> u8 list" where
  "word_bytes w = [ucast w, ucast (drop_bit 8 w), ucast (drop_bit 16 w), ucast (drop_bit 24 w)]"

fun bytes_words :: "u8 list \<Rightarrow> u32 list" where
  "bytes_words (a # b # c # d # bs) =
     (ucast a OR push_bit 8 (ucast b) OR push_bit 16 (ucast c) OR push_bit 24 (ucast d)) # bytes_words bs"
| "bytes_words _ = []"

definition BF_swap :: "u32 list \<Rightarrow> u32 list" where
  "BF_swap xs = map (\<lambda>x.
     let tmp = push_bit 16 x OR drop_bit 16 x
     in push_bit 8 (tmp AND 0x00FF00FF) OR (drop_bit 8 tmp AND 0x00FF00FF)) xs"

section \<open>The cipher\<close>

definition BF_N :: nat where "BF_N = 16"

record BF_ctx =
  BF_S :: "u32 list"
  BF_P :: "u32 list"

text \<open>The part of \<^verbatim>\<open>BF_ROUND\<close> that looks up the four boxes, and the new value of \<open>R\<close>.\<close>

definition BF_lookup :: "BF_ctx \<Rightarrow> u32 \<Rightarrow> u32" where
  "BF_lookup ctx L =
     (let tmp1 = BF_S ctx ! (768 + unat (L AND 0xFF));
          tmp2 = BF_S ctx ! (512 + unat (drop_bit 8 L AND 0xFF));
          tmp3 = BF_S ctx ! (256 + unat (drop_bit 16 L AND 0xFF)) + BF_S ctx ! unat (drop_bit 24 L)
      in (tmp3 XOR tmp2) + tmp1)"

definition BF_ROUND :: "BF_ctx \<Rightarrow> u32 \<Rightarrow> u32 \<Rightarrow> nat \<Rightarrow> u32" where
  "BF_ROUND ctx L R N = (R XOR BF_P ctx ! (N + 1)) XOR BF_lookup ctx L"

fun BF_two_rounds :: "BF_ctx \<Rightarrow> nat \<Rightarrow> u32 \<times> u32 \<Rightarrow> u32 \<times> u32" where
  "BF_two_rounds ctx N (L, R) =
     (let R1 = BF_ROUND ctx L R N; L1 = BF_ROUND ctx R1 L (N + 1) in (L1, R1))"

fun BF_ENCRYPT :: "BF_ctx \<Rightarrow> u32 \<times> u32 \<Rightarrow> u32 \<times> u32" where
  "BF_ENCRYPT ctx (L, R) =
     (case fold (BF_two_rounds ctx) [0, 2, 4, 6, 8, 10, 12, 14] (L XOR BF_P ctx ! 0, R) of
        (L1, R1) \<Rightarrow> (R1 XOR BF_P ctx ! (BF_N + 1), L1))"

text \<open>Storing a block in the subkeys or in the boxes.\<close>

definition put_P :: "nat \<Rightarrow> BF_ctx \<Rightarrow> u32 \<times> u32 \<Rightarrow> BF_ctx" where
  "put_P i ctx LR = ctx\<lparr>BF_P := (BF_P ctx)[i := fst LR, Suc i := snd LR]\<rparr>"

definition put_S :: "nat \<Rightarrow> BF_ctx \<Rightarrow> u32 \<times> u32 \<Rightarrow> BF_ctx" where
  "put_S i ctx LR = ctx\<lparr>BF_S := (BF_S ctx)[i := fst LR, Suc i := snd LR]\<rparr>"

type_synonym BF_state = "BF_ctx \<times> u32 \<times> u32"

definition BF_body_P :: "nat \<Rightarrow> BF_state \<Rightarrow> BF_state" where
  "BF_body_P i st = (case st of (ctx, LR) \<Rightarrow> let LR1 = BF_ENCRYPT ctx LR in (put_P (2 * i) ctx LR1, LR1))"

definition BF_body_S :: "nat \<Rightarrow> BF_state \<Rightarrow> BF_state" where
  "BF_body_S i st = (case st of (ctx, LR) \<Rightarrow> let LR1 = BF_ENCRYPT ctx LR in (put_S (2 * i) ctx LR1, LR1))"

definition BF_body :: "BF_ctx \<Rightarrow> BF_ctx" where
  "BF_body ctx = fst (fold BF_body_S [0..<512] (fold BF_body_P [0..<9] (ctx, 0, 0)))"

section \<open>The key\<close>

text \<open>
  One character of \<^verbatim>\<open>BF_set_key\<close>: the rest of the key, the correct word, the word with the sign extension bug and the
  flag of a sign extension.  The key with its terminating NUL is read again and again.
\<close>

definition key_char :: "string \<Rightarrow> char" where
  "key_char ptr = (case ptr of [] \<Rightarrow> NUL | c # _ \<Rightarrow> c)"

definition key_next :: "string \<Rightarrow> string \<Rightarrow> string" where
  "key_next key ptr = (if key_char ptr = NUL then key else tl ptr)"

type_synonym key_word = "string \<times> u32 \<times> u32 \<times> u32"

fun set_key_char :: "string \<Rightarrow> nat \<Rightarrow> key_word \<Rightarrow> key_word" where
  "set_key_char key j (ptr, tmp0, tmp1, sign) =
     (let c = uchar (key_char ptr);
          tmp0' = push_bit 8 tmp0 OR ucast c;
          tmp1' = push_bit 8 tmp1 OR scast c;
          sign' = (if j \<noteq> 0 then sign OR (tmp1' AND 0x80) else sign)
      in (key_next key ptr, tmp0', tmp1', sign'))"

record key_state =
  k_ptr :: string
  k_sign :: u32
  k_diff :: u32
  k_expanded :: "u32 list"
  k_initial :: "u32 list"

definition set_key_word :: "string \<Rightarrow> bool \<Rightarrow> nat \<Rightarrow> key_state \<Rightarrow> key_state" where
  "set_key_word key bug i k =
     (case fold (set_key_char key) [0, 1, 2, 3] (k_ptr k, 0, 0, k_sign k) of
        (ptr, tmp0, tmp1, sign) \<Rightarrow>
          (let w = (if bug then tmp1 else tmp0)
           in \<lparr>k_ptr = ptr, k_sign = sign, k_diff = k_diff k OR (tmp0 XOR tmp1),
               k_expanded = k_expanded k @ [w], k_initial = k_initial k @ [BF_init_P ! i XOR w]\<rparr>))"

definition set_key_words :: "string \<Rightarrow> bool \<Rightarrow> key_state" where
  "set_key_words key bug =
     fold (set_key_word key bug) [0..<BF_N + 2] \<lparr>k_ptr = key, k_sign = 0, k_diff = 0, k_expanded = [], k_initial = []\<rparr>"

definition safety_sign :: "u32 \<Rightarrow> u32 \<Rightarrow> u32 \<Rightarrow> u32" where
  "safety_sign safety diff sign =
     (let d1 = diff OR drop_bit 16 diff;
          d2 = (d1 AND 0xffff) + 0xffff
      in push_bit 9 sign AND (NOT d2 AND safety))"

definition BF_set_key :: "string \<Rightarrow> u8 \<Rightarrow> u32 list \<times> u32 list" where
  "BF_set_key key flags =
     (let bug = (flags AND 1 = 1);
          safety = push_bit 15 (ucast flags AND 2);
          k = set_key_words key bug;
          sign = safety_sign safety (k_diff k) (k_sign k)
      in (k_expanded k, (k_initial k)[0 := k_initial k ! 0 XOR sign]))"

section \<open>The hash\<close>

definition mix :: "u32 list \<Rightarrow> nat \<Rightarrow> u32 \<times> u32 \<Rightarrow> u32 \<times> u32" where
  "mix salt i LR = (fst LR XOR salt ! i, snd LR XOR salt ! (i + 1))"

text \<open>The first pass: the salt is mixed into the blocks that replace the subkeys and the boxes.\<close>

definition BF_salt_P :: "u32 list \<Rightarrow> nat \<Rightarrow> BF_state \<Rightarrow> BF_state" where
  "BF_salt_P salt i st = (case st of (ctx, LR) \<Rightarrow>
     let LR1 = BF_ENCRYPT ctx (mix salt ((2 * i) AND 2) LR) in (put_P (2 * i) ctx LR1, LR1))"

definition BF_salt_S :: "u32 list \<Rightarrow> nat \<Rightarrow> BF_state \<Rightarrow> BF_state" where
  "BF_salt_S salt i st = (case st of (ctx, LR) \<Rightarrow>
     let LR1 = BF_ENCRYPT ctx (mix salt ((BF_N + 2) AND 3) LR);
         ctx1 = put_S (4 * i) ctx LR1;
         LR2 = BF_ENCRYPT ctx1 (mix salt ((BF_N + 4) AND 3) LR1)
     in (put_S (4 * i + 2) ctx1 LR2, LR2))"

definition BF_salted :: "u32 list \<Rightarrow> BF_ctx \<Rightarrow> BF_ctx" where
  "BF_salted salt ctx = fst (fold (BF_salt_S salt) [0..<256] (fold (BF_salt_P salt) [0..<9] (ctx, 0, 0)))"

definition xor_P :: "u32 list \<Rightarrow> BF_ctx \<Rightarrow> BF_ctx" where
  "xor_P ks ctx = ctx\<lparr>BF_P := map2 (XOR) (BF_P ctx) ks\<rparr>"

definition salt_words :: "u32 list \<Rightarrow> u32 list" where
  "salt_words salt = map (\<lambda>i. salt ! (i mod 4)) [0..<BF_N + 2]"

text \<open>One turn of the main loop: key, body, salt, body.\<close>

definition BF_turn :: "u32 list \<Rightarrow> u32 list \<Rightarrow> BF_ctx \<Rightarrow> BF_ctx" where
  "BF_turn expanded salt ctx = BF_body (xor_P (salt_words salt) (BF_body (xor_P expanded ctx)))"

definition BF_output :: "BF_ctx \<Rightarrow> u32 list" where
  "BF_output ctx = concat (map (\<lambda>i.
     let (L, R) = (BF_ENCRYPT ctx ^^ 64) (BF_magic_w ! (2 * i), BF_magic_w ! (2 * i + 1)) in [L, R]) [0..<3])"

definition BF_hash :: "string \<Rightarrow> u8 \<Rightarrow> u32 list \<Rightarrow> nat \<Rightarrow> u32 list" where
  "BF_hash key flags salt count =
     (case BF_set_key key flags of (expanded, P) \<Rightarrow>
        BF_output ((BF_turn expanded salt ^^ count) (BF_salted salt \<lparr>BF_S = BF_init_S, BF_P = P\<rparr>)))"

text \<open>The character \<^verbatim>\<open>s[i]\<close> of a C string.\<close>

definition char_at :: "string \<Rightarrow> nat \<Rightarrow> nat" where
  "char_at s i = (if i < length s then of_char (s ! i) else 0)"

definition subtype_flags :: "string \<Rightarrow> u8" where
  "subtype_flags setting = flags_by_subtype ! (char_at setting 2 - 97)"

definition bad_setting :: "string \<Rightarrow> bool" where
  "bad_setting setting \<longleftrightarrow>
     char_at setting 0 \<noteq> 36 \<or> char_at setting 1 \<noteq> 50 \<or>
     char_at setting 2 < 97 \<or> 122 < char_at setting 2 \<or> subtype_flags setting = 0 \<or>
     char_at setting 3 \<noteq> 36 \<or> char_at setting 4 < 48 \<or> 51 < char_at setting 4 \<or>
     char_at setting 5 < 48 \<or> 57 < char_at setting 5 \<or>
     (char_at setting 4 = 51 \<and> 49 < char_at setting 5) \<or> char_at setting 6 \<noteq> 36"

definition setting_count :: "string \<Rightarrow> u32" where
  "setting_count setting = push_bit ((char_at setting 4 - 48) * 10 + (char_at setting 5 - 48)) 1"

definition BF_crypt :: "string \<Rightarrow> string \<Rightarrow> int \<Rightarrow> u32 \<Rightarrow> crypt_errno + string" where
  "BF_crypt key setting sz min_count =
     (if sz < 7 + 22 + 31 + 1 then Inl ERANGE
      else if bad_setting setting then Inl EINVAL
      else (let count = setting_count setting
            in if count < min_count then Inl EINVAL
               else case BF_decode (drop 7 setting) 16 of
                 None \<Rightarrow> Inl EINVAL
               | Some bs \<Rightarrow>
                   (let salt = BF_swap (bytes_words bs);
                        out = BF_hash key (subtype_flags setting) salt (unat count)
                    in Inr (take (7 + 22 - 1) setting
                         @ [BF_char (BF_atoi64 ! (char_at setting (7 + 22 - 1) - 0x20) AND 0x30)]
                         @ BF_encode (take 23 (concat (map word_bytes (BF_swap out))))))))"

section \<open>The self-test\<close>

text \<open>\<^verbatim>\<open>_crypt_output_magic\<close> writes to a buffer of \<open>sz\<close> bytes, of which \<open>output\<close> is the string it holds.\<close>

definition crypt_output_magic :: "string \<Rightarrow> string \<Rightarrow> int \<Rightarrow> int \<times> string" where
  "crypt_output_magic setting output sz =
     (if sz < 3 then (-1, output)
      else (0, if char_at setting 0 = 42 \<and> char_at setting 1 = 48 then ''*1'' else ''*0''))"

definition test_key :: string where
  "test_key = ''8b '' @ utf8 [0xd0, 0xc1, 0xd2, 0xcf, 0xcc, 0xd8]"

definition test_setting :: string where
  "test_setting = ''$2a$00$abcdefghijklmnopqrstuu''"

definition test_hashes :: "string list" where
  "test_hashes = [''i1D709vfamulimlGcq0qq3UvuUasvEa'' @ utf8 [0, 0x55], ''VUrPmXD6q/nVSSp7pNDhCR9071IfIRe'' @ utf8 [0, 0x55]]"

definition test_key2 :: string where
  "test_key2 = utf8 [0xff, 0xa3] @ ''34'' @ utf8 [0xff, 0xff, 0xff, 0xa3] @ ''345''"

text \<open>The first half hashes a fixed key; \<open>o\<close> is the buffer around the result, with its canaries.\<close>

definition self_test_hash :: "string \<Rightarrow> string \<Rightarrow> bool" where
  "self_test_hash s test_hash =
     (case BF_crypt test_key s 61 1 of
        Inl _ \<Rightarrow> False
      | Inr h \<Rightarrow>
          (let buf = h @ [NUL] @ drop 61 (replicate 62 (CHR 0x55) @ [NUL])
           in take 29 buf = take 29 s \<and> take 34 (drop 29 buf) = test_hash @ [NUL]))"

definition self_test_key :: bool where
  "self_test_key =
     (case BF_set_key test_key2 2 of (ae, ai) \<Rightarrow>
      case BF_set_key test_key2 4 of (ye, yi) \<Rightarrow>
        (let ai' = ai[0 := ai ! 0 XOR 0x10000]
         in ai' ! 0 = 0xdb9c59bc \<and> ye ! 17 = 0x33343500 \<and> ae = ye \<and> ai' = yi))"

definition crypt_blowfish_rn :: "string \<Rightarrow> string \<Rightarrow> string \<Rightarrow> int \<Rightarrow> (crypt_errno + unit) \<times> string" where
  "crypt_blowfish_rn key setting output sz =
     (let magic = snd (crypt_output_magic setting output sz);
          retval = BF_crypt key setting sz 16;
          (s, test_hash) =
            (case retval of
               Inl _ \<Rightarrow> (test_setting, test_hashes ! 0)
             | Inr _ \<Rightarrow> (test_setting[2 := setting ! 2], test_hashes ! unat (subtype_flags setting AND 1)));
          ok = (self_test_hash s test_hash \<and> self_test_key)
      in if ok then (case retval of Inl e \<Rightarrow> (Inl e, magic) | Inr h \<Rightarrow> (Inr (), h))
         else (Inl EINVAL, snd (crypt_output_magic setting magic sz)))"

text \<open>\<^verbatim>\<open>_crypt_gensalt_blowfish_rn\<close>, with the content of the buffer afterwards.\<close>

definition crypt_gensalt_blowfish_rn :: "string \<Rightarrow> nat \<Rightarrow> bytes \<Rightarrow> int \<Rightarrow> string \<Rightarrow> int \<Rightarrow> (crypt_errno + unit) \<times> string" where
  "crypt_gensalt_blowfish_rn pre count input sz output output_sz =
     (if sz < 16 \<or> output_sz < 7 + 22 + 1 \<or> (count \<noteq> 0 \<and> (count < 4 \<or> 31 < count))
         \<or> char_at pre 0 \<noteq> 36 \<or> char_at pre 1 \<noteq> 50
         \<or> (char_at pre 2 \<noteq> 97 \<and> char_at pre 2 \<noteq> 98 \<and> char_at pre 2 \<noteq> 121)
      then (Inl (if output_sz < 7 + 22 + 1 then ERANGE else EINVAL), if 0 < output_sz then '''' else output)
      else (let n = (if count = 0 then 5 else count)
            in (Inr (), [CHR ''$'', CHR ''2'', pre ! 2, CHR ''$'', digit_char (n div 10), digit_char (n mod 10), CHR ''$'']
                  @ BF_encode (map uchar (take 16 input)))))"

end
