(* ===== verification/Blowfish_Nibbles.thy ===== *)
theory Blowfish_Nibbles
  imports Crypt_Blowfish
begin

text \<open>
  The cipher once more, on words of eight hexadecimal digits and boxes that are trees of sixteen branches, so that
  rewriting computes a whole hash in the kernel: every operation is a few table look-ups by
  unconditional equations.  The abstraction functions \<open>wv\<close> (a word) and \<open>ctx_of\<close> (a cipher state) relate it
  to \<open>Crypt_Blowfish\<close>; each operation is shown to compute what the original computes.
\<close>

section \<open>Digits\<close>

datatype nib = H0 | H1 | H2 | H3 | H4 | H5 | H6 | H7 | H8 | H9 | HA | HB | HC | HD | HE | HF

primrec nval :: "nib \<Rightarrow> nat" where
  "nval H0 = 0" | "nval H1 = 1" | "nval H2 = 2" | "nval H3 = 3"
| "nval H4 = 4" | "nval H5 = 5" | "nval H6 = 6" | "nval H7 = 7"
| "nval H8 = 8" | "nval H9 = 9" | "nval HA = 10" | "nval HB = 11"
| "nval HC = 12" | "nval HD = 13" | "nval HE = 14" | "nval HF = 15"

datatype 'a t16 = T16 'a 'a 'a 'a 'a 'a 'a 'a 'a 'a 'a 'a 'a 'a 'a 'a

fun t16_list :: "'a t16 \<Rightarrow> 'a list" where
  "t16_list (T16 a0 a1 a2 a3 a4 a5 a6 a7 a8 a9 a10 a11 a12 a13 a14 a15) = [a0, a1, a2, a3, a4, a5, a6, a7, a8, a9, a10, a11, a12, a13, a14, a15]"

fun sel16 :: "nib \<Rightarrow> 'a t16 \<Rightarrow> 'a" where
  "sel16 H0 (T16 a0 a1 a2 a3 a4 a5 a6 a7 a8 a9 a10 a11 a12 a13 a14 a15) = a0"
| "sel16 H1 (T16 a0 a1 a2 a3 a4 a5 a6 a7 a8 a9 a10 a11 a12 a13 a14 a15) = a1"
| "sel16 H2 (T16 a0 a1 a2 a3 a4 a5 a6 a7 a8 a9 a10 a11 a12 a13 a14 a15) = a2"
| "sel16 H3 (T16 a0 a1 a2 a3 a4 a5 a6 a7 a8 a9 a10 a11 a12 a13 a14 a15) = a3"
| "sel16 H4 (T16 a0 a1 a2 a3 a4 a5 a6 a7 a8 a9 a10 a11 a12 a13 a14 a15) = a4"
| "sel16 H5 (T16 a0 a1 a2 a3 a4 a5 a6 a7 a8 a9 a10 a11 a12 a13 a14 a15) = a5"
| "sel16 H6 (T16 a0 a1 a2 a3 a4 a5 a6 a7 a8 a9 a10 a11 a12 a13 a14 a15) = a6"
| "sel16 H7 (T16 a0 a1 a2 a3 a4 a5 a6 a7 a8 a9 a10 a11 a12 a13 a14 a15) = a7"
| "sel16 H8 (T16 a0 a1 a2 a3 a4 a5 a6 a7 a8 a9 a10 a11 a12 a13 a14 a15) = a8"
| "sel16 H9 (T16 a0 a1 a2 a3 a4 a5 a6 a7 a8 a9 a10 a11 a12 a13 a14 a15) = a9"
| "sel16 HA (T16 a0 a1 a2 a3 a4 a5 a6 a7 a8 a9 a10 a11 a12 a13 a14 a15) = a10"
| "sel16 HB (T16 a0 a1 a2 a3 a4 a5 a6 a7 a8 a9 a10 a11 a12 a13 a14 a15) = a11"
| "sel16 HC (T16 a0 a1 a2 a3 a4 a5 a6 a7 a8 a9 a10 a11 a12 a13 a14 a15) = a12"
| "sel16 HD (T16 a0 a1 a2 a3 a4 a5 a6 a7 a8 a9 a10 a11 a12 a13 a14 a15) = a13"
| "sel16 HE (T16 a0 a1 a2 a3 a4 a5 a6 a7 a8 a9 a10 a11 a12 a13 a14 a15) = a14"
| "sel16 HF (T16 a0 a1 a2 a3 a4 a5 a6 a7 a8 a9 a10 a11 a12 a13 a14 a15) = a15"

fun put16 :: "nib \<Rightarrow> 'a \<Rightarrow> 'a t16 \<Rightarrow> 'a t16" where
  "put16 H0 x (T16 a0 a1 a2 a3 a4 a5 a6 a7 a8 a9 a10 a11 a12 a13 a14 a15) = T16 x a1 a2 a3 a4 a5 a6 a7 a8 a9 a10 a11 a12 a13 a14 a15"
| "put16 H1 x (T16 a0 a1 a2 a3 a4 a5 a6 a7 a8 a9 a10 a11 a12 a13 a14 a15) = T16 a0 x a2 a3 a4 a5 a6 a7 a8 a9 a10 a11 a12 a13 a14 a15"
| "put16 H2 x (T16 a0 a1 a2 a3 a4 a5 a6 a7 a8 a9 a10 a11 a12 a13 a14 a15) = T16 a0 a1 x a3 a4 a5 a6 a7 a8 a9 a10 a11 a12 a13 a14 a15"
| "put16 H3 x (T16 a0 a1 a2 a3 a4 a5 a6 a7 a8 a9 a10 a11 a12 a13 a14 a15) = T16 a0 a1 a2 x a4 a5 a6 a7 a8 a9 a10 a11 a12 a13 a14 a15"
| "put16 H4 x (T16 a0 a1 a2 a3 a4 a5 a6 a7 a8 a9 a10 a11 a12 a13 a14 a15) = T16 a0 a1 a2 a3 x a5 a6 a7 a8 a9 a10 a11 a12 a13 a14 a15"
| "put16 H5 x (T16 a0 a1 a2 a3 a4 a5 a6 a7 a8 a9 a10 a11 a12 a13 a14 a15) = T16 a0 a1 a2 a3 a4 x a6 a7 a8 a9 a10 a11 a12 a13 a14 a15"
| "put16 H6 x (T16 a0 a1 a2 a3 a4 a5 a6 a7 a8 a9 a10 a11 a12 a13 a14 a15) = T16 a0 a1 a2 a3 a4 a5 x a7 a8 a9 a10 a11 a12 a13 a14 a15"
| "put16 H7 x (T16 a0 a1 a2 a3 a4 a5 a6 a7 a8 a9 a10 a11 a12 a13 a14 a15) = T16 a0 a1 a2 a3 a4 a5 a6 x a8 a9 a10 a11 a12 a13 a14 a15"
| "put16 H8 x (T16 a0 a1 a2 a3 a4 a5 a6 a7 a8 a9 a10 a11 a12 a13 a14 a15) = T16 a0 a1 a2 a3 a4 a5 a6 a7 x a9 a10 a11 a12 a13 a14 a15"
| "put16 H9 x (T16 a0 a1 a2 a3 a4 a5 a6 a7 a8 a9 a10 a11 a12 a13 a14 a15) = T16 a0 a1 a2 a3 a4 a5 a6 a7 a8 x a10 a11 a12 a13 a14 a15"
| "put16 HA x (T16 a0 a1 a2 a3 a4 a5 a6 a7 a8 a9 a10 a11 a12 a13 a14 a15) = T16 a0 a1 a2 a3 a4 a5 a6 a7 a8 a9 x a11 a12 a13 a14 a15"
| "put16 HB x (T16 a0 a1 a2 a3 a4 a5 a6 a7 a8 a9 a10 a11 a12 a13 a14 a15) = T16 a0 a1 a2 a3 a4 a5 a6 a7 a8 a9 a10 x a12 a13 a14 a15"
| "put16 HC x (T16 a0 a1 a2 a3 a4 a5 a6 a7 a8 a9 a10 a11 a12 a13 a14 a15) = T16 a0 a1 a2 a3 a4 a5 a6 a7 a8 a9 a10 a11 x a13 a14 a15"
| "put16 HD x (T16 a0 a1 a2 a3 a4 a5 a6 a7 a8 a9 a10 a11 a12 a13 a14 a15) = T16 a0 a1 a2 a3 a4 a5 a6 a7 a8 a9 a10 a11 a12 x a14 a15"
| "put16 HE x (T16 a0 a1 a2 a3 a4 a5 a6 a7 a8 a9 a10 a11 a12 a13 a14 a15) = T16 a0 a1 a2 a3 a4 a5 a6 a7 a8 a9 a10 a11 a12 a13 x a15"
| "put16 HF x (T16 a0 a1 a2 a3 a4 a5 a6 a7 a8 a9 a10 a11 a12 a13 a14 a15) = T16 a0 a1 a2 a3 a4 a5 a6 a7 a8 a9 a10 a11 a12 a13 a14 x"

text \<open>Exclusive or of two digits; the sum of two digits with the carry, without and with a carry coming in.\<close>

primrec nxor :: "nib \<Rightarrow> nib \<Rightarrow> nib" where
  "nxor H0 b = sel16 b (T16 H0 H1 H2 H3 H4 H5 H6 H7 H8 H9 HA HB HC HD HE HF)"
| "nxor H1 b = sel16 b (T16 H1 H0 H3 H2 H5 H4 H7 H6 H9 H8 HB HA HD HC HF HE)"
| "nxor H2 b = sel16 b (T16 H2 H3 H0 H1 H6 H7 H4 H5 HA HB H8 H9 HE HF HC HD)"
| "nxor H3 b = sel16 b (T16 H3 H2 H1 H0 H7 H6 H5 H4 HB HA H9 H8 HF HE HD HC)"
| "nxor H4 b = sel16 b (T16 H4 H5 H6 H7 H0 H1 H2 H3 HC HD HE HF H8 H9 HA HB)"
| "nxor H5 b = sel16 b (T16 H5 H4 H7 H6 H1 H0 H3 H2 HD HC HF HE H9 H8 HB HA)"
| "nxor H6 b = sel16 b (T16 H6 H7 H4 H5 H2 H3 H0 H1 HE HF HC HD HA HB H8 H9)"
| "nxor H7 b = sel16 b (T16 H7 H6 H5 H4 H3 H2 H1 H0 HF HE HD HC HB HA H9 H8)"
| "nxor H8 b = sel16 b (T16 H8 H9 HA HB HC HD HE HF H0 H1 H2 H3 H4 H5 H6 H7)"
| "nxor H9 b = sel16 b (T16 H9 H8 HB HA HD HC HF HE H1 H0 H3 H2 H5 H4 H7 H6)"
| "nxor HA b = sel16 b (T16 HA HB H8 H9 HE HF HC HD H2 H3 H0 H1 H6 H7 H4 H5)"
| "nxor HB b = sel16 b (T16 HB HA H9 H8 HF HE HD HC H3 H2 H1 H0 H7 H6 H5 H4)"
| "nxor HC b = sel16 b (T16 HC HD HE HF H8 H9 HA HB H4 H5 H6 H7 H0 H1 H2 H3)"
| "nxor HD b = sel16 b (T16 HD HC HF HE H9 H8 HB HA H5 H4 H7 H6 H1 H0 H3 H2)"
| "nxor HE b = sel16 b (T16 HE HF HC HD HA HB H8 H9 H6 H7 H4 H5 H2 H3 H0 H1)"
| "nxor HF b = sel16 b (T16 HF HE HD HC HB HA H9 H8 H7 H6 H5 H4 H3 H2 H1 H0)"

datatype digit = D nib bool

primrec nadd :: "nib \<Rightarrow> nib \<Rightarrow> digit" where
  "nadd H0 b = sel16 b (T16 (D H0 False) (D H1 False) (D H2 False) (D H3 False) (D H4 False) (D H5 False) (D H6 False) (D H7 False) (D H8 False) (D H9 False) (D HA False) (D HB False) (D HC False) (D HD False) (D HE False) (D HF False))"
| "nadd H1 b = sel16 b (T16 (D H1 False) (D H2 False) (D H3 False) (D H4 False) (D H5 False) (D H6 False) (D H7 False) (D H8 False) (D H9 False) (D HA False) (D HB False) (D HC False) (D HD False) (D HE False) (D HF False) (D H0 True))"
| "nadd H2 b = sel16 b (T16 (D H2 False) (D H3 False) (D H4 False) (D H5 False) (D H6 False) (D H7 False) (D H8 False) (D H9 False) (D HA False) (D HB False) (D HC False) (D HD False) (D HE False) (D HF False) (D H0 True) (D H1 True))"
| "nadd H3 b = sel16 b (T16 (D H3 False) (D H4 False) (D H5 False) (D H6 False) (D H7 False) (D H8 False) (D H9 False) (D HA False) (D HB False) (D HC False) (D HD False) (D HE False) (D HF False) (D H0 True) (D H1 True) (D H2 True))"
| "nadd H4 b = sel16 b (T16 (D H4 False) (D H5 False) (D H6 False) (D H7 False) (D H8 False) (D H9 False) (D HA False) (D HB False) (D HC False) (D HD False) (D HE False) (D HF False) (D H0 True) (D H1 True) (D H2 True) (D H3 True))"
| "nadd H5 b = sel16 b (T16 (D H5 False) (D H6 False) (D H7 False) (D H8 False) (D H9 False) (D HA False) (D HB False) (D HC False) (D HD False) (D HE False) (D HF False) (D H0 True) (D H1 True) (D H2 True) (D H3 True) (D H4 True))"
| "nadd H6 b = sel16 b (T16 (D H6 False) (D H7 False) (D H8 False) (D H9 False) (D HA False) (D HB False) (D HC False) (D HD False) (D HE False) (D HF False) (D H0 True) (D H1 True) (D H2 True) (D H3 True) (D H4 True) (D H5 True))"
| "nadd H7 b = sel16 b (T16 (D H7 False) (D H8 False) (D H9 False) (D HA False) (D HB False) (D HC False) (D HD False) (D HE False) (D HF False) (D H0 True) (D H1 True) (D H2 True) (D H3 True) (D H4 True) (D H5 True) (D H6 True))"
| "nadd H8 b = sel16 b (T16 (D H8 False) (D H9 False) (D HA False) (D HB False) (D HC False) (D HD False) (D HE False) (D HF False) (D H0 True) (D H1 True) (D H2 True) (D H3 True) (D H4 True) (D H5 True) (D H6 True) (D H7 True))"
| "nadd H9 b = sel16 b (T16 (D H9 False) (D HA False) (D HB False) (D HC False) (D HD False) (D HE False) (D HF False) (D H0 True) (D H1 True) (D H2 True) (D H3 True) (D H4 True) (D H5 True) (D H6 True) (D H7 True) (D H8 True))"
| "nadd HA b = sel16 b (T16 (D HA False) (D HB False) (D HC False) (D HD False) (D HE False) (D HF False) (D H0 True) (D H1 True) (D H2 True) (D H3 True) (D H4 True) (D H5 True) (D H6 True) (D H7 True) (D H8 True) (D H9 True))"
| "nadd HB b = sel16 b (T16 (D HB False) (D HC False) (D HD False) (D HE False) (D HF False) (D H0 True) (D H1 True) (D H2 True) (D H3 True) (D H4 True) (D H5 True) (D H6 True) (D H7 True) (D H8 True) (D H9 True) (D HA True))"
| "nadd HC b = sel16 b (T16 (D HC False) (D HD False) (D HE False) (D HF False) (D H0 True) (D H1 True) (D H2 True) (D H3 True) (D H4 True) (D H5 True) (D H6 True) (D H7 True) (D H8 True) (D H9 True) (D HA True) (D HB True))"
| "nadd HD b = sel16 b (T16 (D HD False) (D HE False) (D HF False) (D H0 True) (D H1 True) (D H2 True) (D H3 True) (D H4 True) (D H5 True) (D H6 True) (D H7 True) (D H8 True) (D H9 True) (D HA True) (D HB True) (D HC True))"
| "nadd HE b = sel16 b (T16 (D HE False) (D HF False) (D H0 True) (D H1 True) (D H2 True) (D H3 True) (D H4 True) (D H5 True) (D H6 True) (D H7 True) (D H8 True) (D H9 True) (D HA True) (D HB True) (D HC True) (D HD True))"
| "nadd HF b = sel16 b (T16 (D HF False) (D H0 True) (D H1 True) (D H2 True) (D H3 True) (D H4 True) (D H5 True) (D H6 True) (D H7 True) (D H8 True) (D H9 True) (D HA True) (D HB True) (D HC True) (D HD True) (D HE True))"

primrec nadc :: "nib \<Rightarrow> nib \<Rightarrow> digit" where
  "nadc H0 b = sel16 b (T16 (D H1 False) (D H2 False) (D H3 False) (D H4 False) (D H5 False) (D H6 False) (D H7 False) (D H8 False) (D H9 False) (D HA False) (D HB False) (D HC False) (D HD False) (D HE False) (D HF False) (D H0 True))"
| "nadc H1 b = sel16 b (T16 (D H2 False) (D H3 False) (D H4 False) (D H5 False) (D H6 False) (D H7 False) (D H8 False) (D H9 False) (D HA False) (D HB False) (D HC False) (D HD False) (D HE False) (D HF False) (D H0 True) (D H1 True))"
| "nadc H2 b = sel16 b (T16 (D H3 False) (D H4 False) (D H5 False) (D H6 False) (D H7 False) (D H8 False) (D H9 False) (D HA False) (D HB False) (D HC False) (D HD False) (D HE False) (D HF False) (D H0 True) (D H1 True) (D H2 True))"
| "nadc H3 b = sel16 b (T16 (D H4 False) (D H5 False) (D H6 False) (D H7 False) (D H8 False) (D H9 False) (D HA False) (D HB False) (D HC False) (D HD False) (D HE False) (D HF False) (D H0 True) (D H1 True) (D H2 True) (D H3 True))"
| "nadc H4 b = sel16 b (T16 (D H5 False) (D H6 False) (D H7 False) (D H8 False) (D H9 False) (D HA False) (D HB False) (D HC False) (D HD False) (D HE False) (D HF False) (D H0 True) (D H1 True) (D H2 True) (D H3 True) (D H4 True))"
| "nadc H5 b = sel16 b (T16 (D H6 False) (D H7 False) (D H8 False) (D H9 False) (D HA False) (D HB False) (D HC False) (D HD False) (D HE False) (D HF False) (D H0 True) (D H1 True) (D H2 True) (D H3 True) (D H4 True) (D H5 True))"
| "nadc H6 b = sel16 b (T16 (D H7 False) (D H8 False) (D H9 False) (D HA False) (D HB False) (D HC False) (D HD False) (D HE False) (D HF False) (D H0 True) (D H1 True) (D H2 True) (D H3 True) (D H4 True) (D H5 True) (D H6 True))"
| "nadc H7 b = sel16 b (T16 (D H8 False) (D H9 False) (D HA False) (D HB False) (D HC False) (D HD False) (D HE False) (D HF False) (D H0 True) (D H1 True) (D H2 True) (D H3 True) (D H4 True) (D H5 True) (D H6 True) (D H7 True))"
| "nadc H8 b = sel16 b (T16 (D H9 False) (D HA False) (D HB False) (D HC False) (D HD False) (D HE False) (D HF False) (D H0 True) (D H1 True) (D H2 True) (D H3 True) (D H4 True) (D H5 True) (D H6 True) (D H7 True) (D H8 True))"
| "nadc H9 b = sel16 b (T16 (D HA False) (D HB False) (D HC False) (D HD False) (D HE False) (D HF False) (D H0 True) (D H1 True) (D H2 True) (D H3 True) (D H4 True) (D H5 True) (D H6 True) (D H7 True) (D H8 True) (D H9 True))"
| "nadc HA b = sel16 b (T16 (D HB False) (D HC False) (D HD False) (D HE False) (D HF False) (D H0 True) (D H1 True) (D H2 True) (D H3 True) (D H4 True) (D H5 True) (D H6 True) (D H7 True) (D H8 True) (D H9 True) (D HA True))"
| "nadc HB b = sel16 b (T16 (D HC False) (D HD False) (D HE False) (D HF False) (D H0 True) (D H1 True) (D H2 True) (D H3 True) (D H4 True) (D H5 True) (D H6 True) (D H7 True) (D H8 True) (D H9 True) (D HA True) (D HB True))"
| "nadc HC b = sel16 b (T16 (D HD False) (D HE False) (D HF False) (D H0 True) (D H1 True) (D H2 True) (D H3 True) (D H4 True) (D H5 True) (D H6 True) (D H7 True) (D H8 True) (D H9 True) (D HA True) (D HB True) (D HC True))"
| "nadc HD b = sel16 b (T16 (D HE False) (D HF False) (D H0 True) (D H1 True) (D H2 True) (D H3 True) (D H4 True) (D H5 True) (D H6 True) (D H7 True) (D H8 True) (D H9 True) (D HA True) (D HB True) (D HC True) (D HD True))"
| "nadc HE b = sel16 b (T16 (D HF False) (D H0 True) (D H1 True) (D H2 True) (D H3 True) (D H4 True) (D H5 True) (D H6 True) (D H7 True) (D H8 True) (D H9 True) (D HA True) (D HB True) (D HC True) (D HD True) (D HE True))"
| "nadc HF b = sel16 b (T16 (D H0 True) (D H1 True) (D H2 True) (D H3 True) (D H4 True) (D H5 True) (D H6 True) (D H7 True) (D H8 True) (D H9 True) (D HA True) (D HB True) (D HC True) (D HD True) (D HE True) (D HF True))"

section \<open>Words\<close>

datatype wd = W nib nib nib nib nib nib nib nib

fun wxor :: "wd \<Rightarrow> wd \<Rightarrow> wd" where
  "wxor (W a0 a1 a2 a3 a4 a5 a6 a7) (W b0 b1 b2 b3 b4 b5 b6 b7) =
     W (nxor a0 b0) (nxor a1 b1) (nxor a2 b2) (nxor a3 b3) (nxor a4 b4) (nxor a5 b5) (nxor a6 b6) (nxor a7 b7)"

text \<open>Addition from the lowest digit up; \<open>s\<close> are the digits of the sum found so far.\<close>

fun wadd8 :: "digit \<Rightarrow> nib \<Rightarrow> nib \<Rightarrow> nib \<Rightarrow> nib \<Rightarrow> nib \<Rightarrow> nib \<Rightarrow> nib \<Rightarrow> wd" where
  "wadd8 (D s7 c) s0 s1 s2 s3 s4 s5 s6 = W s0 s1 s2 s3 s4 s5 s6 s7"

fun wadd7 :: "digit \<Rightarrow> nib \<Rightarrow> nib \<Rightarrow> nib \<Rightarrow> nib \<Rightarrow> nib \<Rightarrow> nib \<Rightarrow> nib \<Rightarrow> nib \<Rightarrow> wd" where
  "wadd7 (D s6 False) a7 b7 s0 s1 s2 s3 s4 s5 = wadd8 (nadd a7 b7) s0 s1 s2 s3 s4 s5 s6"
| "wadd7 (D s6 True) a7 b7 s0 s1 s2 s3 s4 s5 = wadd8 (nadc a7 b7) s0 s1 s2 s3 s4 s5 s6"

fun wadd6 :: "digit \<Rightarrow> nib \<Rightarrow> nib \<Rightarrow> nib \<Rightarrow> nib \<Rightarrow> nib \<Rightarrow> nib \<Rightarrow> nib \<Rightarrow> nib \<Rightarrow> nib \<Rightarrow> wd" where
  "wadd6 (D s5 False) a6 b6 a7 b7 s0 s1 s2 s3 s4 = wadd7 (nadd a6 b6) a7 b7 s0 s1 s2 s3 s4 s5"
| "wadd6 (D s5 True) a6 b6 a7 b7 s0 s1 s2 s3 s4 = wadd7 (nadc a6 b6) a7 b7 s0 s1 s2 s3 s4 s5"

fun wadd5 :: "digit \<Rightarrow> nib \<Rightarrow> nib \<Rightarrow> nib \<Rightarrow> nib \<Rightarrow> nib \<Rightarrow> nib \<Rightarrow> nib \<Rightarrow> nib \<Rightarrow> nib \<Rightarrow> nib \<Rightarrow> wd" where
  "wadd5 (D s4 False) a5 b5 a6 b6 a7 b7 s0 s1 s2 s3 = wadd6 (nadd a5 b5) a6 b6 a7 b7 s0 s1 s2 s3 s4"
| "wadd5 (D s4 True) a5 b5 a6 b6 a7 b7 s0 s1 s2 s3 = wadd6 (nadc a5 b5) a6 b6 a7 b7 s0 s1 s2 s3 s4"

fun wadd4 :: "digit \<Rightarrow> nib \<Rightarrow> nib \<Rightarrow> nib \<Rightarrow> nib \<Rightarrow> nib \<Rightarrow> nib \<Rightarrow> nib \<Rightarrow> nib \<Rightarrow> nib \<Rightarrow> nib \<Rightarrow> nib \<Rightarrow> wd" where
  "wadd4 (D s3 False) a4 b4 a5 b5 a6 b6 a7 b7 s0 s1 s2 = wadd5 (nadd a4 b4) a5 b5 a6 b6 a7 b7 s0 s1 s2 s3"
| "wadd4 (D s3 True) a4 b4 a5 b5 a6 b6 a7 b7 s0 s1 s2 = wadd5 (nadc a4 b4) a5 b5 a6 b6 a7 b7 s0 s1 s2 s3"

fun wadd3 :: "digit \<Rightarrow> nib \<Rightarrow> nib \<Rightarrow> nib \<Rightarrow> nib \<Rightarrow> nib \<Rightarrow> nib \<Rightarrow> nib \<Rightarrow> nib \<Rightarrow> nib \<Rightarrow> nib \<Rightarrow> nib \<Rightarrow> nib \<Rightarrow> wd" where
  "wadd3 (D s2 False) a3 b3 a4 b4 a5 b5 a6 b6 a7 b7 s0 s1 = wadd4 (nadd a3 b3) a4 b4 a5 b5 a6 b6 a7 b7 s0 s1 s2"
| "wadd3 (D s2 True) a3 b3 a4 b4 a5 b5 a6 b6 a7 b7 s0 s1 = wadd4 (nadc a3 b3) a4 b4 a5 b5 a6 b6 a7 b7 s0 s1 s2"

fun wadd2 :: "digit \<Rightarrow> nib \<Rightarrow> nib \<Rightarrow> nib \<Rightarrow> nib \<Rightarrow> nib \<Rightarrow> nib \<Rightarrow> nib \<Rightarrow> nib \<Rightarrow> nib \<Rightarrow> nib \<Rightarrow> nib \<Rightarrow> nib \<Rightarrow> nib \<Rightarrow> wd" where
  "wadd2 (D s1 False) a2 b2 a3 b3 a4 b4 a5 b5 a6 b6 a7 b7 s0 = wadd3 (nadd a2 b2) a3 b3 a4 b4 a5 b5 a6 b6 a7 b7 s0 s1"
| "wadd2 (D s1 True) a2 b2 a3 b3 a4 b4 a5 b5 a6 b6 a7 b7 s0 = wadd3 (nadc a2 b2) a3 b3 a4 b4 a5 b5 a6 b6 a7 b7 s0 s1"

fun wadd1 :: "digit \<Rightarrow> nib \<Rightarrow> nib \<Rightarrow> nib \<Rightarrow> nib \<Rightarrow> nib \<Rightarrow> nib \<Rightarrow> nib \<Rightarrow> nib \<Rightarrow> nib \<Rightarrow> nib \<Rightarrow> nib \<Rightarrow> nib \<Rightarrow> nib \<Rightarrow> nib \<Rightarrow> wd" where
  "wadd1 (D s0 False) a1 b1 a2 b2 a3 b3 a4 b4 a5 b5 a6 b6 a7 b7 = wadd2 (nadd a1 b1) a2 b2 a3 b3 a4 b4 a5 b5 a6 b6 a7 b7 s0"
| "wadd1 (D s0 True) a1 b1 a2 b2 a3 b3 a4 b4 a5 b5 a6 b6 a7 b7 = wadd2 (nadc a1 b1) a2 b2 a3 b3 a4 b4 a5 b5 a6 b6 a7 b7 s0"

fun wadd :: "wd \<Rightarrow> wd \<Rightarrow> wd" where
  "wadd (W a0 a1 a2 a3 a4 a5 a6 a7) (W b0 b1 b2 b3 b4 b5 b6 b7) = wadd1 (nadd a0 b0) a1 b1 a2 b2 a3 b3 a4 b4 a5 b5 a6 b6 a7 b7"

section \<open>The cipher\<close>

datatype boxes = Boxes "wd t16 t16" "wd t16 t16" "wd t16 t16" "wd t16 t16"

fun nlookup :: "boxes \<Rightarrow> wd \<Rightarrow> wd" where
  "nlookup (Boxes s0 s1 s2 s3) (W a0 a1 a2 a3 a4 a5 a6 a7) =
     wadd (wxor (wadd (sel16 a4 (sel16 a5 s1)) (sel16 a6 (sel16 a7 s0))) (sel16 a2 (sel16 a3 s2))) (sel16 a0 (sel16 a1 s3))"

text \<open>A round exchanges its halves, so the rounds are one recursion over the subkeys.\<close>

fun nrounds :: "boxes \<Rightarrow> wd list \<Rightarrow> wd \<Rightarrow> wd \<Rightarrow> wd \<times> wd" where
  "nrounds s [] l r = (r, l)"
| "nrounds s [p] l r = (wxor r p, l)"
| "nrounds s (p # q # ps) l r = nrounds s (q # ps) (wxor (wxor r p) (nlookup s l)) l"

fun nenc :: "boxes \<Rightarrow> wd list \<Rightarrow> wd \<times> wd \<Rightarrow> wd \<times> wd" where
  "nenc s [] (l, r) = (l, r)"
| "nenc s (p # ps) (l, r) = nrounds s ps (wxor l p) r"

fun nmix :: "wd \<times> wd \<Rightarrow> wd \<times> wd \<Rightarrow> wd \<times> wd" where
  "nmix (a, b) (l, r) = (wxor l a, wxor r b)"

text \<open>The loops over the subkeys and over the boxes; the two pairs that are mixed in take turns.\<close>

fun nput :: "nib \<Rightarrow> nib \<Rightarrow> nib \<Rightarrow> wd \<Rightarrow> boxes \<Rightarrow> boxes" where
  "nput H0 h i w (Boxes s0 s1 s2 s3) = Boxes (put16 h (put16 i w (sel16 h s0)) s0) s1 s2 s3"
| "nput H1 h i w (Boxes s0 s1 s2 s3) = Boxes s0 (put16 h (put16 i w (sel16 h s1)) s1) s2 s3"
| "nput H2 h i w (Boxes s0 s1 s2 s3) = Boxes s0 s1 (put16 h (put16 i w (sel16 h s2)) s2) s3"
| "nput _ h i w (Boxes s0 s1 s2 s3) = Boxes s0 s1 s2 (put16 h (put16 i w (sel16 h s3)) s3)"

type_synonym spot = "nib \<times> nib \<times> nib \<times> nib"

fun nstore :: "spot \<Rightarrow> boxes \<Rightarrow> wd \<times> wd \<Rightarrow> boxes \<times> wd \<times> wd" where
  "nstore (k, h, i, j) s (l, r) = (nput k h j r (nput k h i l s), l, r)"

fun nstep :: "wd list \<Rightarrow> spot \<Rightarrow> wd \<times> wd \<Rightarrow> boxes \<times> wd \<times> wd \<Rightarrow> boxes \<times> wd \<times> wd" where
  "nstep P i x (s, lr) = nstore i s (nenc s P (nmix x lr))"

fun nloop_S :: "wd list \<Rightarrow> spot list \<Rightarrow> wd \<times> wd \<Rightarrow> wd \<times> wd \<Rightarrow> boxes \<times> wd \<times> wd \<Rightarrow> boxes \<times> wd \<times> wd" where
  "nloop_S P [] x y st = st"
| "nloop_S P (i # is) x y st = nloop_S P is y x (nstep P i x st)"

fun nstore_P :: "wd list \<Rightarrow> wd list \<Rightarrow> wd \<times> wd \<Rightarrow> wd list \<times> wd list \<times> wd \<times> wd" where
  "nstore_P pre post (l, r) = (pre @ [l, r], post, l, r)"

text \<open>\<open>us\<close> counts the steps.\<close>

fun nstep_P :: "boxes \<Rightarrow> wd \<times> wd \<Rightarrow> wd list \<times> wd list \<times> wd \<times> wd \<Rightarrow> wd list \<times> wd list \<times> wd \<times> wd" where
  "nstep_P s x (pre, a # b # post, lr) = nstore_P pre post (nenc s (pre @ a # b # post) (nmix x lr))"
| "nstep_P s x st = st"

fun nloop_P :: "boxes \<Rightarrow> unit list \<Rightarrow> wd \<times> wd \<Rightarrow> wd \<times> wd \<Rightarrow> wd list \<times> wd list \<times> wd \<times> wd \<Rightarrow> wd list \<times> wd list \<times> wd \<times> wd" where
  "nloop_P s [] x y st = st"
| "nloop_P s (u # us) x y st = nloop_P s us y x (nstep_P s x st)"

definition nine :: "unit list" where
  "nine = [(), (), (), (), (), (), (), (), ()]"

definition spots :: "spot list" where
  "spots = concat (map (\<lambda>k. concat (map (\<lambda>h. map (\<lambda>(i, j). (k, h, i, j))
     [(H0, H1), (H2, H3), (H4, H5), (H6, H7), (H8, H9), (HA, HB), (HC, HD), (HE, HF)])
     [H0, H1, H2, H3, H4, H5, H6, H7, H8, H9, HA, HB, HC, HD, HE, HF])) [H0, H1, H2, H3])"

definition zero :: wd where "zero = W H0 H0 H0 H0 H0 H0 H0 H0"

fun nfst :: "boxes \<times> wd \<times> wd \<Rightarrow> wd list \<Rightarrow> boxes \<times> wd list" where
  "nfst (s, lr) P = (s, P)"

text \<open>Both loops of a pass, from the end of the first on.\<close>

fun npass2 :: "wd \<times> wd \<Rightarrow> wd \<times> wd \<Rightarrow> boxes \<Rightarrow> wd list \<times> wd list \<times> wd \<times> wd \<Rightarrow> boxes \<times> wd list" where
  "npass2 x y s (P, post, lr) = nfst (nloop_S P spots y x (s, lr)) P"

fun npass :: "wd \<times> wd \<Rightarrow> wd \<times> wd \<Rightarrow> boxes \<times> wd list \<Rightarrow> boxes \<times> wd list" where
  "npass x y (s, P) = npass2 x y s (nloop_P s nine x y ([], P, zero, zero))"

fun nxors :: "wd list \<Rightarrow> wd list \<Rightarrow> wd list" where
  "nxors (a # as) (b # bs) = wxor a b # nxors as bs"
| "nxors _ _ = []"

fun nxor_P :: "wd list \<Rightarrow> boxes \<times> wd list \<Rightarrow> boxes \<times> wd list" where
  "nxor_P ks (s, P) = (s, nxors P ks)"

fun nsalt_words :: "wd list \<Rightarrow> wd list" where
  "nsalt_words [a, b, c, d] = [a, b, c, d, a, b, c, d, a, b, c, d, a, b, c, d, a, b]"
| "nsalt_words _ = []"

fun nturn :: "wd list \<Rightarrow> wd list \<Rightarrow> boxes \<times> wd list \<Rightarrow> boxes \<times> wd list" where
  "nturn e salt st = npass (zero, zero) (zero, zero) (nxor_P (nsalt_words salt) (npass (zero, zero) (zero, zero) (nxor_P e st)))"

fun nenc8 :: "boxes \<times> wd list \<Rightarrow> wd \<times> wd \<Rightarrow> wd \<times> wd" where
  "nenc8 (s, P) lr = nenc s P (nenc s P (nenc s P (nenc s P (nenc s P (nenc s P (nenc s P (nenc s P lr)))))))"

fun nenc64 :: "boxes \<times> wd list \<Rightarrow> wd \<times> wd \<Rightarrow> wd \<times> wd" where
  "nenc64 st lr = nenc8 st (nenc8 st (nenc8 st (nenc8 st (nenc8 st (nenc8 st (nenc8 st (nenc8 st lr)))))))"

fun pair_list :: "wd \<times> wd \<Rightarrow> wd list" where
  "pair_list (l, r) = [l, r]"

fun noutput :: "wd list \<Rightarrow> boxes \<times> wd list \<Rightarrow> wd list" where
  "noutput (a # b # ms) st = pair_list (nenc64 st (a, b)) @ noutput ms st"
| "noutput _ st = []"

text \<open>The hash with a count of one.\<close>

fun nhash :: "boxes \<Rightarrow> wd list \<Rightarrow> wd list \<Rightarrow> wd list \<Rightarrow> wd list \<Rightarrow> wd list" where
  "nhash s e P [a, b, c, d] ms = noutput ms (nturn e [a, b, c, d] (npass (a, b) (c, d) (s, P)))"
| "nhash s e P _ ms = []"

section \<open>Reading literals\<close>

text \<open>The digits of a numeral, lowest first.\<close>

fun nibs :: "num \<Rightarrow> nib list" where
  "nibs (num.Bit0 (num.Bit0 (num.Bit0 (num.Bit0 n)))) = H0 # nibs n"
| "nibs (num.Bit1 (num.Bit0 (num.Bit0 (num.Bit0 n)))) = H1 # nibs n"
| "nibs (num.Bit0 (num.Bit1 (num.Bit0 (num.Bit0 n)))) = H2 # nibs n"
| "nibs (num.Bit1 (num.Bit1 (num.Bit0 (num.Bit0 n)))) = H3 # nibs n"
| "nibs (num.Bit0 (num.Bit0 (num.Bit1 (num.Bit0 n)))) = H4 # nibs n"
| "nibs (num.Bit1 (num.Bit0 (num.Bit1 (num.Bit0 n)))) = H5 # nibs n"
| "nibs (num.Bit0 (num.Bit1 (num.Bit1 (num.Bit0 n)))) = H6 # nibs n"
| "nibs (num.Bit1 (num.Bit1 (num.Bit1 (num.Bit0 n)))) = H7 # nibs n"
| "nibs (num.Bit0 (num.Bit0 (num.Bit0 (num.Bit1 n)))) = H8 # nibs n"
| "nibs (num.Bit1 (num.Bit0 (num.Bit0 (num.Bit1 n)))) = H9 # nibs n"
| "nibs (num.Bit0 (num.Bit1 (num.Bit0 (num.Bit1 n)))) = HA # nibs n"
| "nibs (num.Bit1 (num.Bit1 (num.Bit0 (num.Bit1 n)))) = HB # nibs n"
| "nibs (num.Bit0 (num.Bit0 (num.Bit1 (num.Bit1 n)))) = HC # nibs n"
| "nibs (num.Bit1 (num.Bit0 (num.Bit1 (num.Bit1 n)))) = HD # nibs n"
| "nibs (num.Bit0 (num.Bit1 (num.Bit1 (num.Bit1 n)))) = HE # nibs n"
| "nibs (num.Bit1 (num.Bit1 (num.Bit1 (num.Bit1 n)))) = HF # nibs n"
| "nibs num.One = [H1]"
| "nibs (num.Bit0 num.One) = [H2]"
| "nibs (num.Bit1 num.One) = [H3]"
| "nibs (num.Bit0 (num.Bit0 num.One)) = [H4]"
| "nibs (num.Bit1 (num.Bit0 num.One)) = [H5]"
| "nibs (num.Bit0 (num.Bit1 num.One)) = [H6]"
| "nibs (num.Bit1 (num.Bit1 num.One)) = [H7]"
| "nibs (num.Bit0 (num.Bit0 (num.Bit0 num.One))) = [H8]"
| "nibs (num.Bit1 (num.Bit0 (num.Bit0 num.One))) = [H9]"
| "nibs (num.Bit0 (num.Bit1 (num.Bit0 num.One))) = [HA]"
| "nibs (num.Bit1 (num.Bit1 (num.Bit0 num.One))) = [HB]"
| "nibs (num.Bit0 (num.Bit0 (num.Bit1 num.One))) = [HC]"
| "nibs (num.Bit1 (num.Bit0 (num.Bit1 num.One))) = [HD]"
| "nibs (num.Bit0 (num.Bit1 (num.Bit1 num.One))) = [HE]"
| "nibs (num.Bit1 (num.Bit1 (num.Bit1 num.One))) = [HF]"

fun w8 :: "nib list \<Rightarrow> wd" where
  "w8 (a # b # c # d # e # f # g # h # ns) = W a b c d e f g h"
| "w8 [a, b, c, d, e, f, g] = W a b c d e f g H0"
| "w8 [a, b, c, d, e, f] = W a b c d e f H0 H0"
| "w8 [a, b, c, d, e] = W a b c d e H0 H0 H0"
| "w8 [a, b, c, d] = W a b c d H0 H0 H0 H0"
| "w8 [a, b, c] = W a b c H0 H0 H0 H0 H0"
| "w8 [a, b] = W a b H0 H0 H0 H0 H0 H0"
| "w8 [a] = W a H0 H0 H0 H0 H0 H0 H0"
| "w8 [] = W H0 H0 H0 H0 H0 H0 H0 H0"

fun t16_rows :: "'a list \<Rightarrow> 'a t16 list" where
  "t16_rows (a0 # a1 # a2 # a3 # a4 # a5 # a6 # a7 # a8 # a9 # a10 # a11 # a12 # a13 # a14 # a15 # as) = T16 a0 a1 a2 a3 a4 a5 a6 a7 a8 a9 a10 a11 a12 a13 a14 a15 # t16_rows as"
| "t16_rows _ = []"

fun mk16 :: "'a list \<Rightarrow> 'a t16" where
  "mk16 (a0 # a1 # a2 # a3 # a4 # a5 # a6 # a7 # a8 # a9 # a10 # a11 # a12 # a13 # a14 # a15 # as) = T16 a0 a1 a2 a3 a4 a5 a6 a7 a8 a9 a10 a11 a12 a13 a14 a15"

definition box_of :: "wd list \<Rightarrow> wd t16 t16" where
  "box_of ws = mk16 (t16_rows ws)"

end
