(* ===== verification/Blowfish_Refine.thy ===== *)
theory Blowfish_Refine
  imports Blowfish_Nibbles
begin

text \<open>
  The cipher of \<open>Blowfish_Nibbles\<close> refines the one of \<open>Crypt_Blowfish\<close>: digits, words, boxes, the cipher, the loops of the
  key schedule and the hash with a count of one, each against the original (\<open>hash_by_nibbles\<close> is the conclusion).
\<close>

unbundle bit_operations_syntax

section \<open>Words as numbers\<close>

fun lval :: "nib list \<Rightarrow> nat" where
  "lval [] = 0"
| "lval (a # as) = nval a + 16 * lval as"

fun digits :: "wd \<Rightarrow> nib list" where
  "digits (W a0 a1 a2 a3 a4 a5 a6 a7) = [a0, a1, a2, a3, a4, a5, a6, a7]"

definition wnat :: "wd \<Rightarrow> nat" where
  "wnat w = lval (digits w)"

definition wv :: "wd \<Rightarrow> u32" where
  "wv w = of_nat (wnat w)"

lemma nval_less [simp]: "nval a < 16"
  by (cases a) simp_all

lemma lval_less: "lval as < 16 ^ length as"
proof (induction as)
  case (Cons a as)
  then have "nval a + 16 * lval as < 16 + 16 * (16 ^ length as - 1)" using nval_less [of a] by linarith
  then show ?case using Cons by (simp add: algebra_simps)
qed simp

lemma length_digits [simp]: "length (digits w) = 8"
  by (cases w) simp

lemma wnat_less: "wnat w < 2 ^ 32"
  using lval_less [of "digits w"] by (simp add: wnat_def)

lemma unat_wv [simp]: "unat (wv w) = wnat w"
  using wnat_less [of w] by (simp add: wv_def unat_of_nat)

lemma bit_digit:
  assumes "a < 16"
  shows "bit (a + 16 * x :: nat) n \<longleftrightarrow> (if n < 4 then bit a n else bit x (n - 4))"
proof -
  have a: "take_bit 4 a = a" using assms by (simp add: take_bit_eq_mod)
  have "a AND push_bit 4 x = 0" by (subst a [symmetric]) (auto simp: bit_eq_iff bit_simps)
  then have "a + 16 * x = a OR push_bit 4 x"
    by (simp add: disjunctive_add_eq_or [symmetric] push_bit_eq_mult)
  moreover have "bit a n \<Longrightarrow> n < 4" by (metis a bit_take_bit_iff)
  ultimately show ?thesis by (auto simp: bit_simps)
qed

lemma nval_nxor [simp]: "nval (nxor a b) = nval a XOR nval b"
  by (cases a; cases b; simp)

lemma xor_digit: "(nval a + 16 * x) XOR (nval b + 16 * y) = nval (nxor a b) + 16 * (x XOR y)"
  by (rule bit_eqI) (simp only: bit_xor_iff bit_digit [OF nval_less], simp add: bit_simps)

lemma lval_xor: "length as = length bs \<Longrightarrow> lval (map2 nxor as bs) = lval as XOR lval bs"
  by (induction as bs rule: list_induct2) (simp_all add: xor_digit [symmetric] del: nval_nxor)

lemma wv_wxor [simp]: "wv (wxor a b) = wv a XOR wv b"
proof -
  have "digits (wxor a b) = map2 nxor (digits a) (digits b)" by (cases a; cases b) simp
  then show ?thesis by (simp add: wv_def wnat_def lval_xor of_nat_xor_eq)
qed

text \<open>Addition: the carry goes from digit to digit, the last one is lost.\<close>

fun dval :: "digit \<Rightarrow> nat" where
  "dval (D s c) = nval s + 16 * of_bool c"

lemma dval_nadd: "dval (nadd a b) = nval a + nval b"
  by (cases a; cases b; simp)

lemma dval_nadc: "dval (nadc a b) = nval a + nval b + 1"
  by (cases a; cases b; simp)

definition nsum :: "bool \<Rightarrow> nib \<Rightarrow> nib \<Rightarrow> digit" where
  "nsum c a b = (if c then nadc a b else nadd a b)"

lemma nsum_obtain:
  obtains s c' where "nsum c a b = D s c'" and "nval s + 16 * of_bool c' = nval a + nval b + of_bool c"
proof -
  obtain s c' where d: "nsum c a b = D s c'" by (cases "nsum c a b")
  moreover have "dval (nsum c a b) = nval a + nval b + of_bool c" by (simp add: nsum_def dval_nadd dval_nadc)
  ultimately show thesis using that by simp
qed

lemma wadd_nsum:
  "wadd1 (D s0 c) a1 b1 a2 b2 a3 b3 a4 b4 a5 b5 a6 b6 a7 b7 = wadd2 (nsum c a1 b1) a2 b2 a3 b3 a4 b4 a5 b5 a6 b6 a7 b7 s0"
  "wadd2 (D s1 c) a2 b2 a3 b3 a4 b4 a5 b5 a6 b6 a7 b7 s0 = wadd3 (nsum c a2 b2) a3 b3 a4 b4 a5 b5 a6 b6 a7 b7 s0 s1"
  "wadd3 (D s2 c) a3 b3 a4 b4 a5 b5 a6 b6 a7 b7 s0 s1 = wadd4 (nsum c a3 b3) a4 b4 a5 b5 a6 b6 a7 b7 s0 s1 s2"
  "wadd4 (D s3 c) a4 b4 a5 b5 a6 b6 a7 b7 s0 s1 s2 = wadd5 (nsum c a4 b4) a5 b5 a6 b6 a7 b7 s0 s1 s2 s3"
  "wadd5 (D s4 c) a5 b5 a6 b6 a7 b7 s0 s1 s2 s3 = wadd6 (nsum c a5 b5) a6 b6 a7 b7 s0 s1 s2 s3 s4"
  "wadd6 (D s5 c) a6 b6 a7 b7 s0 s1 s2 s3 s4 = wadd7 (nsum c a6 b6) a7 b7 s0 s1 s2 s3 s4 s5"
  "wadd7 (D s6 c) a7 b7 s0 s1 s2 s3 s4 s5 = wadd8 (nsum c a7 b7) s0 s1 s2 s3 s4 s5 s6"
  by (cases c; simp add: nsum_def)+

lemma wnat_wadd: "\<exists>c. wnat a + wnat b = wnat (wadd a b) + 2 ^ 32 * of_bool c"
proof -
  obtain a0 a1 a2 a3 a4 a5 a6 a7 where a: "a = W a0 a1 a2 a3 a4 a5 a6 a7" by (cases a)
  obtain b0 b1 b2 b3 b4 b5 b6 b7 where b: "b = W b0 b1 b2 b3 b4 b5 b6 b7" by (cases b)
  obtain s0 c0 where 0: "nsum False a0 b0 = D s0 c0" "nval s0 + 16 * of_bool c0 = nval a0 + nval b0 + of_bool False" by (rule nsum_obtain)
  obtain s1 c1 where 1: "nsum c0 a1 b1 = D s1 c1" "nval s1 + 16 * of_bool c1 = nval a1 + nval b1 + of_bool c0" by (rule nsum_obtain)
  obtain s2 c2 where 2: "nsum c1 a2 b2 = D s2 c2" "nval s2 + 16 * of_bool c2 = nval a2 + nval b2 + of_bool c1" by (rule nsum_obtain)
  obtain s3 c3 where 3: "nsum c2 a3 b3 = D s3 c3" "nval s3 + 16 * of_bool c3 = nval a3 + nval b3 + of_bool c2" by (rule nsum_obtain)
  obtain s4 c4 where 4: "nsum c3 a4 b4 = D s4 c4" "nval s4 + 16 * of_bool c4 = nval a4 + nval b4 + of_bool c3" by (rule nsum_obtain)
  obtain s5 c5 where 5: "nsum c4 a5 b5 = D s5 c5" "nval s5 + 16 * of_bool c5 = nval a5 + nval b5 + of_bool c4" by (rule nsum_obtain)
  obtain s6 c6 where 6: "nsum c5 a6 b6 = D s6 c6" "nval s6 + 16 * of_bool c6 = nval a6 + nval b6 + of_bool c5" by (rule nsum_obtain)
  obtain s7 c7 where 7: "nsum c6 a7 b7 = D s7 c7" "nval s7 + 16 * of_bool c7 = nval a7 + nval b7 + of_bool c6" by (rule nsum_obtain)
  have "wadd a b = wadd1 (nsum False a0 b0) a1 b1 a2 b2 a3 b3 a4 b4 a5 b5 a6 b6 a7 b7" by (simp add: a b nsum_def)
  also have "\<dots> = W s0 s1 s2 s3 s4 s5 s6 s7"
    by (simp only: 0(1) 1(1) 2(1) 3(1) 4(1) 5(1) 6(1) 7(1) wadd_nsum wadd8.simps)
  finally have "wadd a b = W s0 s1 s2 s3 s4 s5 s6 s7" .
  then have "wnat a + wnat b = wnat (wadd a b) + 2 ^ 32 * of_bool c7"
    using 0(2) 1(2) 2(2) 3(2) 4(2) 5(2) 6(2) 7(2) by (simp add: wnat_def a b)
  then show ?thesis ..
qed

lemma wv_wadd [simp]: "wv (wadd a b) = wv a + wv b"
proof -
  obtain c where "wnat a + wnat b = wnat (wadd a b) + 2 ^ 32 * of_bool c" using wnat_wadd by blast
  then have "(of_nat (wnat a + wnat b) :: u32) = of_nat (wnat (wadd a b) + 2 ^ 32 * of_bool c)" by (rule arg_cong)
  then show ?thesis by (simp add: wv_def)
qed

text \<open>The bytes of a word are its pairs of digits.\<close>

lemma wnat_bytes:
  "wnat (W a0 a1 a2 a3 a4 a5 a6 a7)
     = (16 * nval a1 + nval a0) + 256 * ((16 * nval a3 + nval a2) + 256 * ((16 * nval a5 + nval a4) + 256 * (16 * nval a7 + nval a6)))"
  by (simp add: wnat_def)

lemma byte_less: "16 * nval b + nval a < 256"
  using nval_less [of a] nval_less [of b] by linarith

lemma unat_and_255: "unat (x AND 0xFF :: u32) = unat x mod 2 ^ 8"
proof -
  have "x AND 0xFF = take_bit 8 x" by (simp add: take_bit_eq_mask mask_numeral)
  then show ?thesis by (simp only: unsigned_take_bit_eq) (simp only: take_bit_eq_mod)
qed

lemma unat_shift: "unat (drop_bit n x :: u32) = unat x div 2 ^ n"
  by (simp only: unat_drop_bit_eq) (simp only: drop_bit_eq_div)

lemma byte_arith:
  fixes x y z t :: nat
  assumes "x < 256" "y < 256" "z < 256" "t < 256" and n: "n = x + 256 * (y + 256 * (z + 256 * t))"
  shows "n mod 2 ^ 8 = x" and "n div 2 ^ 8 mod 2 ^ 8 = y" and "n div 2 ^ 16 mod 2 ^ 8 = z" and "n div 2 ^ 24 = t"
proof -
  have d: "n div 2 ^ 8 = y + 256 * (z + 256 * t)" using assms(1) by (simp add: n)
  have "n div 2 ^ 16 = n div 2 ^ 8 div 2 ^ 8" by (simp add: div_mult2_eq [symmetric])
  then have e: "n div 2 ^ 16 = z + 256 * t" unfolding d using assms(2) by simp
  have "n div 2 ^ 24 = n div 2 ^ 16 div 2 ^ 8" by (simp add: div_mult2_eq [symmetric])
  then show "n div 2 ^ 24 = t" unfolding e using assms(3) by simp
  have m: "(b + 256 * k) mod 2 ^ 8 = b" if "b < 256" for b k :: nat using that by simp
  show "n mod 2 ^ 8 = x" unfolding n by (rule m [OF assms(1)])
  show "n div 2 ^ 8 mod 2 ^ 8 = y" unfolding d by (rule m [OF assms(2)])
  show "n div 2 ^ 16 mod 2 ^ 8 = z" unfolding e by (rule m [OF assms(3)])
qed

lemma wv_bytes:
  "unat (wv (W a0 a1 a2 a3 a4 a5 a6 a7) AND 0xFF) = 16 * nval a1 + nval a0"
  "unat (drop_bit 8 (wv (W a0 a1 a2 a3 a4 a5 a6 a7)) AND 0xFF) = 16 * nval a3 + nval a2"
  "unat (drop_bit 16 (wv (W a0 a1 a2 a3 a4 a5 a6 a7)) AND 0xFF) = 16 * nval a5 + nval a4"
  "unat (drop_bit 24 (wv (W a0 a1 a2 a3 a4 a5 a6 a7))) = 16 * nval a7 + nval a6"
  by (simp_all only: unat_and_255 unat_shift unat_wv byte_arith [OF byte_less byte_less byte_less byte_less wnat_bytes])

section \<open>Boxes\<close>

definition box_list :: "wd t16 t16 \<Rightarrow> wd list" where
  "box_list t = concat (map t16_list (t16_list t))"

fun boxes_list :: "boxes \<Rightarrow> u32 list" where
  "boxes_list (Boxes s0 s1 s2 s3) = map wv (box_list s0 @ box_list s1 @ box_list s2 @ box_list s3)"

lemma length_t16 [simp]: "length (t16_list t) = 16"
  by (cases t) simp

lemma t16_sel: "t16_list t ! nval i = sel16 i t"
  by (cases t; cases i; simp)

lemma t16_put: "t16_list (put16 i x t) = (t16_list t)[nval i := x]"
  by (cases t; cases i; simp)

lemma length_concat_16: "length (concat (map t16_list ts)) = 16 * length ts"
  by (induction ts) simp_all

lemma concat_16_nth: "k < length ts \<Longrightarrow> i < 16 \<Longrightarrow> concat (map t16_list ts) ! (16 * k + i) = t16_list (ts ! k) ! i"
proof (induction ts arbitrary: k)
  case (Cons t ts)
  then show ?case by (cases k) (simp_all add: nth_append)
qed simp

lemma concat_16_update:
  "k < length ts \<Longrightarrow> i < 16 \<Longrightarrow> t16_list t' = (t16_list (ts ! k))[i := x] \<Longrightarrow>
   (concat (map t16_list ts))[16 * k + i := x] = concat (map t16_list (ts[k := t']))"
proof (induction ts arbitrary: k)
  case (Cons t ts)
  then show ?case by (cases k) (simp_all add: list_update_append)
qed simp

lemma length_box [simp]: "length (box_list t) = 256"
  by (simp add: box_list_def length_concat_16)

lemma box_nth: "box_list t ! (16 * nval h + nval i) = sel16 i (sel16 h t)"
  by (simp add: box_list_def concat_16_nth t16_sel)

lemma box_put: "box_list (put16 h (put16 i w (sel16 h t)) t) = (box_list t)[16 * nval h + nval i := w]"
  unfolding box_list_def
  by (subst concat_16_update [of _ _ _ "put16 i w (sel16 h t)"]) (simp_all add: t16_sel t16_put)

lemma length_boxes [simp]: "length (boxes_list s) = 1024"
  by (cases s) simp

definition spot_at :: "nib \<Rightarrow> nib \<Rightarrow> nib \<Rightarrow> nat" where
  "spot_at k h i = 256 * nval k + (16 * nval h + nval i)"

lemma boxes_put:
  assumes "k \<in> {H0, H1, H2, H3}"
  shows "boxes_list (nput k h i w s) = (boxes_list s)[spot_at k h i := wv w]"
  using assms byte_less [of h i]
  by (cases s) (auto simp: box_put map_update list_update_append spot_at_def)

section \<open>The cipher\<close>

definition ctx_of :: "boxes \<Rightarrow> wd list \<Rightarrow> BF_ctx" where
  "ctx_of s P = \<lparr>BF_S = boxes_list s, BF_P = map wv P\<rparr>"

fun pair_v :: "wd \<times> wd \<Rightarrow> u32 \<times> u32" where
  "pair_v (l, r) = (wv l, wv r)"

lemma wv_nlookup: "wv (nlookup s l) = BF_lookup (ctx_of s P) (wv l)"
proof -
  obtain s0 s1 s2 s3 where s: "s = Boxes s0 s1 s2 s3" by (cases s)
  obtain a0 a1 a2 a3 a4 a5 a6 a7 where l: "l = W a0 a1 a2 a3 a4 a5 a6 a7" by (cases l)
  note b = byte_less [of a7 a6] byte_less [of a5 a4] byte_less [of a3 a2] byte_less [of a1 a0]
  have "boxes_list s ! (16 * nval a7 + nval a6) = wv (sel16 a6 (sel16 a7 s0))"
    "boxes_list s ! (256 + (16 * nval a5 + nval a4)) = wv (sel16 a4 (sel16 a5 s1))"
    "boxes_list s ! (512 + (16 * nval a3 + nval a2)) = wv (sel16 a2 (sel16 a3 s2))"
    "boxes_list s ! (768 + (16 * nval a1 + nval a0)) = wv (sel16 a0 (sel16 a1 s3))"
    using b by (simp_all add: s nth_append box_nth)
  then show ?thesis
    unfolding BF_lookup_def Let_def l wv_bytes by (simp add: ctx_of_def s)
qed

declare BF_ENCRYPT.simps [simp del] BF_two_rounds.simps [simp del]

lemma drop_3: "k + 2 < length P \<Longrightarrow> drop k P = P ! k # P ! (k + 1) # P ! (k + 2) # drop (k + 3) P"
  by (simp add: Cons_nth_drop_Suc [symmetric] numeral_eq_Suc)

lemma nrounds_correct:
  assumes "length P = 18" and "m \<le> 8"
  shows "pair_v (nrounds s (drop (2 * m + 1) P) l r)
    = (case fold (BF_two_rounds (ctx_of s P)) (map ((*) 2) [m..<8]) (wv l, wv r) of (L1, R1) \<Rightarrow> (R1 XOR wv (P ! 17), L1))"
  using assms(2)
proof (induction m arbitrary: l r rule: inc_induct)
  case base
  have "drop 17 P = [P ! 17]" using assms(1) by (simp add: Cons_nth_drop_Suc [symmetric])
  then show ?case by simp
next
  case (step m)
  have d: "drop (2 * m + 1) P = P ! (2 * m + 1) # P ! (2 * m + 2) # P ! (2 * m + 3) # drop (2 * m + 4) P"
    using drop_3 [of "2 * m + 1" P] step(2) assms(1) by (simp add: ac_simps numeral_eq_Suc)
  have e: "drop (2 * Suc m + 1) P = P ! (2 * m + 3) # drop (2 * m + 4) P"
    using step(2) assms(1) by (simp add: Cons_nth_drop_Suc [symmetric] numeral_eq_Suc)
  let ?r = "wxor (wxor r (P ! (2 * m + 1))) (nlookup s l)"
  let ?l = "wxor (wxor l (P ! (2 * m + 2))) (nlookup s ?r)"
  have "nrounds s (drop (2 * m + 1) P) l r = nrounds s (drop (2 * Suc m + 1) P) ?l ?r"
    unfolding d e by simp
  moreover have "BF_two_rounds (ctx_of s P) (2 * m) (wv l, wv r) = (wv ?l, wv ?r)"
    using step(2) assms(1) by (simp add: BF_two_rounds.simps BF_ROUND_def wv_nlookup [of s _ P] Let_def) (simp add: ctx_of_def)
  ultimately show ?case using step(2,3) by (simp add: upt_conv_Cons)
qed

lemma nenc_correct:
  assumes "length P = 18"
  shows "pair_v (nenc s P lr) = BF_ENCRYPT (ctx_of s P) (pair_v lr)"
proof -
  obtain l r where lr: "lr = (l, r)" by (cases lr)
  have "P = P ! 0 # drop 1 P" using assms by (metis Cons_nth_drop_Suc One_nat_def drop0 zero_less_numeral)
  then have "nenc s P lr = nrounds s (drop (2 * 0 + 1) P) (wxor l (P ! 0)) r" by (metis lr nenc.simps(2) mult_0_right add_0)
  then have "pair_v (nenc s P lr) = (case fold (BF_two_rounds (ctx_of s P)) (map ((*) 2) [0..<8]) (wv (wxor l (P ! 0)), wv r) of
      (L1, R1) \<Rightarrow> (R1 XOR wv (P ! 17), L1))"
    using nrounds_correct [OF assms, of 0 s "wxor l (P ! 0)" r] by simp
  also have "map ((*) 2) [0..<8] = [0, 2, 4, 6, 8, 10, 12, 14 :: nat]" by (simp add: upt_rec)
  finally show ?thesis using assms by (simp add: BF_ENCRYPT.simps lr ctx_of_def BF_N_def)
qed

section \<open>The loops\<close>

text \<open>The loops of the key schedule as one loop that stores blocks at the positions of a list, with two pairs of words that
  are mixed in by turns.\<close>

definition wstep :: "(nat \<Rightarrow> BF_ctx \<Rightarrow> u32 \<times> u32 \<Rightarrow> BF_ctx) \<Rightarrow> u32 \<times> u32 \<Rightarrow> nat \<Rightarrow> BF_state \<Rightarrow> BF_state" where
  "wstep put x i st = (case st of (ctx, LR) \<Rightarrow>
     let LR1 = BF_ENCRYPT ctx (fst LR XOR fst x, snd LR XOR snd x) in (put i ctx LR1, LR1))"

fun wloop :: "(nat \<Rightarrow> BF_ctx \<Rightarrow> u32 \<times> u32 \<Rightarrow> BF_ctx) \<Rightarrow> u32 \<times> u32 \<Rightarrow> u32 \<times> u32 \<Rightarrow> nat list \<Rightarrow> BF_state \<Rightarrow> BF_state" where
  "wloop put x y [] st = st"
| "wloop put x y (i # is) st = wloop put y x is (wstep put x i st)"

lemma body_S_loop: "fold BF_body_S is st = wloop put_S (0, 0) (0, 0) (map ((*) 2) is) st"
  by (induction "is" arbitrary: st) (simp_all add: BF_body_S_def wstep_def)

lemma body_P_loop: "fold BF_body_P is st = wloop put_P (0, 0) (0, 0) (map ((*) 2) is) st"
  by (induction "is" arbitrary: st) (simp_all add: BF_body_P_def wstep_def)

lemma salt_S_steps:
  "BF_salt_S salt i st = wstep put_S (salt ! 0, salt ! 1) (4 * i + 2) (wstep put_S (salt ! 2, salt ! 3) (4 * i) st)"
  by (cases st) (simp add: BF_salt_S_def wstep_def mix_def BF_N_def Let_def)

lemma salt_S_loop:
  "fold (BF_salt_S salt) is st
     = wloop put_S (salt ! 2, salt ! 3) (salt ! 0, salt ! 1) (concat (map (\<lambda>i. [4 * i, 4 * i + 2]) is)) st"
  by (induction "is" arbitrary: st) (simp_all add: salt_S_steps)

lemma salt_P_step: "BF_salt_P salt i st = wstep put_P (salt ! (2 * i AND 2), salt ! ((2 * i AND 2) + 1)) (2 * i) st"
  by (cases st) (simp add: BF_salt_P_def wstep_def mix_def Let_def)

lemma salt_P_loop:
  "fold (BF_salt_P salt) [0..<9] st
     = wloop put_P (salt ! 0, salt ! 1) (salt ! 2, salt ! 3) (map ((*) 2) [0..<9]) st"
  by (simp add: salt_P_step upt_rec)

fun st_of :: "wd list \<Rightarrow> boxes \<times> wd \<times> wd \<Rightarrow> BF_state" where
  "st_of P (s, lr) = (ctx_of s P, pair_v lr)"

fun spot_pos :: "spot \<Rightarrow> nat" where
  "spot_pos (k, h, i, j) = spot_at k h i"

fun good_spot :: "spot \<Rightarrow> bool" where
  "good_spot (k, h, i, j) \<longleftrightarrow> k \<in> {H0, H1, H2, H3} \<and> nval j = Suc (nval i)"

lemma pair_v_nmix [simp]: "pair_v (nmix x lr) = (fst (pair_v lr) XOR fst (pair_v x), snd (pair_v lr) XOR snd (pair_v x))"
  by (cases x; cases lr) simp

lemma nstore_correct:
  assumes "good_spot p"
  shows "st_of P (nstore p s lr) = (put_S (spot_pos p) (ctx_of s P) (pair_v lr), pair_v lr)"
proof -
  obtain k h i j where p: "p = (k, h, i, j)" by (cases p)
  obtain l r where lr: "lr = (l, r)" by (cases lr)
  have "spot_at k h j = Suc (spot_at k h i)" using assms by (simp add: p spot_at_def)
  then show ?thesis using assms by (simp add: p lr boxes_put ctx_of_def put_S_def del: nput.simps)
qed

lemma nstep_correct:
  assumes "length P = 18" and "good_spot p"
  shows "st_of P (nstep P p x st) = wstep put_S (pair_v x) (spot_pos p) (st_of P st)"
  by (cases st) (simp add: nstore_correct [OF assms(2)] nenc_correct [OF assms(1)] wstep_def Let_def del: nstore.simps nenc.simps nmix.simps)

lemma nloop_S_correct:
  "length P = 18 \<Longrightarrow> list_all good_spot ps \<Longrightarrow>
   st_of P (nloop_S P ps x y st) = wloop put_S (pair_v x) (pair_v y) (map spot_pos ps) (st_of P st)"
  by (induction ps arbitrary: x y st) (simp_all add: nstep_correct del: nstep.simps st_of.simps)

lemma good_spots: "list_all good_spot spots"
  by code_simp

lemma spots_pos: "map spot_pos spots = map ((*) 2) [0..<512]"
  by code_simp

lemma salt_spots: "concat (map (\<lambda>i. [4 * i, 4 * i + 2]) [0..<n]) = map ((*) 2) [0..<2 * n :: nat]"
  by (induction n) simp_all

text \<open>The loop over the subkeys.\<close>

fun evens :: "nat \<Rightarrow> unit list \<Rightarrow> nat list" where
  "evens n [] = []"
| "evens n (u # us) = n # evens (n + 2) us"

fun st_P :: "boxes \<Rightarrow> wd list \<times> wd list \<times> wd \<times> wd \<Rightarrow> BF_state" where
  "st_P s (pre, post, lr) = (ctx_of s (pre @ post), pair_v lr)"

lemma nstore_P_correct:
  "st_P s (nstore_P pre post lr) = (put_P (length pre) (ctx_of s (pre @ a # b # post)) (pair_v lr), pair_v lr)"
  by (cases lr) (simp add: ctx_of_def put_P_def list_update_append)

lemma nstep_P_correct:
  assumes "length pre + length post = 18" and "2 \<le> length post"
  shows "st_P s (nstep_P s x (pre, post, lr)) = wstep put_P (pair_v x) (length pre) (st_P s (pre, post, lr))"
    and "\<exists>pre' lr'. nstep_P s x (pre, post, lr) = (pre', drop 2 post, lr') \<and> length pre' = length pre + 2"
proof -
  obtain a b ps where p: "post = a # b # ps" using assms(2) by (cases post; cases "tl post") auto
  have l: "length (pre @ a # b # ps) = 18" using assms(1) p by simp
  show "st_P s (nstep_P s x (pre, post, lr)) = wstep put_P (pair_v x) (length pre) (st_P s (pre, post, lr))"
    by (simp add: p nstore_P_correct [of s _ _ _ a b] nenc_correct [OF l] wstep_def Let_def del: nstore_P.simps nenc.simps nmix.simps)
  show "\<exists>pre' lr'. nstep_P s x (pre, post, lr) = (pre', drop 2 post, lr') \<and> length pre' = length pre + 2"
    by (cases "nenc s (pre @ a # b # ps) (nmix x lr)") (simp add: p)
qed

lemma nloop_P_correct:
  "length pre + length post = 18 \<Longrightarrow> length post = 2 * length us \<Longrightarrow>
   st_P s (nloop_P s us x y (pre, post, lr)) = wloop put_P (pair_v x) (pair_v y) (evens (length pre) us) (st_P s (pre, post, lr))
   \<and> (\<exists>P lr'. nloop_P s us x y (pre, post, lr) = (P, [], lr') \<and> length P = 18)"
proof (induction us arbitrary: x y pre post lr)
  case (Cons u us)
  have two: "2 \<le> length post" using Cons.prems by simp
  obtain pre' lr' where n: "nstep_P s x (pre, post, lr) = (pre', drop 2 post, lr')" "length pre' = length pre + 2"
    using nstep_P_correct(2) [OF Cons.prems(1) two] by blast
  have "st_P s (pre', drop 2 post, lr') = wstep put_P (pair_v x) (length pre) (st_P s (pre, post, lr))"
    using nstep_P_correct(1) [OF Cons.prems(1) two, of s x lr] unfolding n(1) .
  then show ?case
    using Cons.IH [of pre' "drop 2 post" y x lr'] Cons.prems n(2) by (simp add: n(1) del: st_P.simps nstep_P.simps)
qed simp

lemma evens_nine: "evens 0 nine = map ((*) 2) [0..<9]"
  by (simp add: nine_def upt_rec)

section \<open>The hash\<close>

fun ctx_pair :: "boxes \<times> wd list \<Rightarrow> BF_ctx" where
  "ctx_pair (s, P) = ctx_of s P"

lemma zero_v [simp]: "wv zero = 0"
  by (simp add: wv_def wnat_def zero_def)

lemma npass_correct:
  assumes "length P = 18"
  shows "ctx_pair (npass x y (s, P))
      = fst (wloop put_S (pair_v y) (pair_v x) (map ((*) 2) [0..<512]) (wloop put_P (pair_v x) (pair_v y) (map ((*) 2) [0..<9]) (ctx_of s P, 0, 0)))"
    and "length (snd (npass x y (s, P))) = 18"
proof -
  have l: "length P = 2 * length nine" using assms by (simp add: nine_def)
  obtain P' lr where n: "nloop_P s nine x y ([], P, zero, zero) = (P', [], lr)" "length P' = 18"
    and w: "(ctx_of s P', pair_v lr) = wloop put_P (pair_v x) (pair_v y) (map ((*) 2) [0..<9]) (ctx_of s P, 0, 0)"
    using nloop_P_correct [of "[]" P nine s x y "(zero, zero)"] assms l by (auto simp: evens_nine)
  obtain s' lr' where m: "nloop_S P' spots y x (s, lr) = (s', lr')" by (cases "nloop_S P' spots y x (s, lr)")
  have "st_of P' (s', lr') = wloop put_S (pair_v y) (pair_v x) (map ((*) 2) [0..<512]) (ctx_of s P', pair_v lr)"
    using nloop_S_correct [OF n(2) good_spots, of y x "(s, lr)"] by (simp add: m spots_pos)
  then have "ctx_of s' P' = fst (wloop put_S (pair_v y) (pair_v x) (map ((*) 2) [0..<512]) (ctx_of s P', pair_v lr))"
    by (metis fst_conv st_of.simps)
  then show "ctx_pair (npass x y (s, P))
      = fst (wloop put_S (pair_v y) (pair_v x) (map ((*) 2) [0..<512]) (wloop put_P (pair_v x) (pair_v y) (map ((*) 2) [0..<9]) (ctx_of s P, 0, 0)))"
    by (simp add: n m w)
  show "length (snd (npass x y (s, P))) = 18" by (simp add: n m)
qed

lemma nbody_correct:
  assumes "length (snd st) = 18"
  shows "ctx_pair (npass (zero, zero) (zero, zero) st) = BF_body (ctx_pair st)"
    and "length (snd (npass (zero, zero) (zero, zero) st)) = 18"
  using assms npass_correct [of "snd st" "(zero, zero)" "(zero, zero)" "fst st"]
  by (simp_all add: BF_body_def body_S_loop body_P_loop del: npass.simps) (metis ctx_pair.simps prod.collapse)

lemma nsalted_correct:
  assumes "length P = 18"
  shows "ctx_pair (npass (a, b) (c, d) (s, P)) = BF_salted (map wv [a, b, c, d]) (ctx_of s P)"
  by (simp only: npass_correct [OF assms] BF_salted_def salt_S_loop salt_P_loop salt_spots) (simp del: upt_Suc)

lemma nxors_correct: "length as = length bs \<Longrightarrow> map wv (nxors as bs) = map2 (XOR) (map wv as) (map wv bs) \<and> length (nxors as bs) = length as"
  by (induction as bs rule: list_induct2) simp_all

lemma nxor_P_correct:
  assumes "length (snd st) = length ks"
  shows "ctx_pair (nxor_P ks st) = xor_P (map wv ks) (ctx_pair st)" and "length (snd (nxor_P ks st)) = length ks"
  using assms nxors_correct [of "snd st" ks] by (cases st; simp add: ctx_of_def xor_P_def)+

lemma nturn_correct:
  assumes "length (snd st) = 18" and "length e = 18" and "length salt = 4"
  shows "ctx_pair (nturn e salt st) = BF_turn (map wv e) (map wv salt) (ctx_pair st)" and "length (snd (nturn e salt st)) = 18"
proof -
  obtain a b c d where s: "salt = [a, b, c, d]" using assms(3) by (auto simp: numeral_eq_Suc length_Suc_conv)
  have w: "map wv (nsalt_words salt) = salt_words (map wv salt)" "length (nsalt_words salt) = 18"
    by (simp_all add: s salt_words_def BF_N_def upt_rec)
  show "ctx_pair (nturn e salt st) = BF_turn (map wv e) (map wv salt) (ctx_pair st)" and "length (snd (nturn e salt st)) = 18"
    using assms(1,2) w by (simp_all add: nbody_correct nxor_P_correct BF_turn_def del: npass.simps nxor_P.simps)
qed

lemma nenc8_correct: "length (snd st) = 18 \<Longrightarrow> pair_v (nenc8 st lr) = (BF_ENCRYPT (ctx_pair st) ^^ 8) (pair_v lr)"
  by (cases st) (simp add: nenc_correct numeral_eq_Suc del: nenc.simps)

lemma nenc64_correct:
  assumes "length (snd st) = 18"
  shows "pair_v (nenc64 st lr) = (BF_ENCRYPT (ctx_pair st) ^^ 64) (pair_v lr)"
proof -
  have "(BF_ENCRYPT (ctx_pair st) ^^ 64) = (BF_ENCRYPT (ctx_pair st) ^^ 8) ^^ 8" by (simp add: funpow_mult)
  then show ?thesis using assms by (simp only: nenc64.simps nenc8_correct) (simp add: numeral_eq_Suc)
qed

lemma noutput_correct:
  assumes "length (snd st) = 18" and "map wv ms = BF_magic_w"
  shows "map wv (noutput ms st) = BF_output (ctx_pair st)"
proof -
  have "length ms = 6" using assms(2) by (metis length_BF_tables(6) length_map)
  then obtain a b c d e f where m: "ms = [a, b, c, d, e, f]" by (auto simp: numeral_eq_Suc length_Suc_conv)
  have p: "map wv (pair_list x) = (case pair_v x of (L, R) \<Rightarrow> [L, R])" for x by (cases x) simp
  show ?thesis
    unfolding BF_output_def assms(2) [symmetric]
    by (simp add: m p nenc64_correct [OF assms(1)] upt_rec del: nenc64.simps pair_list.simps)
qed

lemma nhash_correct:
  assumes "length P = 18" and "length e = 18" and "length salt = 4" and "map wv ms = BF_magic_w"
  shows "map wv (nhash s e P salt ms) = BF_output (BF_turn (map wv e) (map wv salt) (BF_salted (map wv salt) (ctx_of s P)))"
proof -
  obtain a b c d where s: "salt = [a, b, c, d]" using assms(3) by (auto simp: numeral_eq_Suc length_Suc_conv)
  have l: "length (snd (npass (a, b) (c, d) (s, P))) = 18" using npass_correct(2) [OF assms(1)] .
  show ?thesis
    using nturn_correct [OF l assms(2,3)]
    by (simp add: s noutput_correct [OF _ assms(4)] nsalted_correct [OF assms(1)] del: nturn.simps npass.simps)
qed

section \<open>Literals\<close>

definition nib_of :: "nat \<Rightarrow> nib" where
  "nib_of n = [H0, H1, H2, H3, H4, H5, H6, H7, H8, H9, HA, HB, HC, HD, HE, HF] ! n"

fun take_digits :: "nat \<Rightarrow> nat \<Rightarrow> nib list" where
  "take_digits 0 n = []"
| "take_digits (Suc k) n = nib_of (n mod 16) # take_digits k (n div 16)"

definition wd_of :: "u32 \<Rightarrow> wd" where
  "wd_of w = w8 (take_digits 8 (unat w))"

lemma nval_nib_of: "n < 16 \<Longrightarrow> nval (nib_of n) = n"
  by (auto simp: nib_of_def less_Suc_eq numeral_eq_Suc)

lemma nib_of_nval: "nib_of (nval a) = a"
  by (cases a) (simp_all add: nib_of_def)

lemma lval_take_digits: "lval (take_digits k n) = n mod 16 ^ k"
  by (induction k arbitrary: n) (simp_all add: nval_nib_of mod_mult2_eq)

lemma take_digits_lval: "take_digits (length as) (lval as) = as"
  by (induction as) (simp_all add: nib_of_nval)

lemma two_32: "(4294967296 :: u32) = 0"
  by simp

lemma wv_w8: "wv (w8 ns) = of_nat (lval ns)"
  by (cases ns rule: w8.cases) (simp_all add: wv_def wnat_def algebra_simps two_32)

lemma w8_digits: "w8 (digits w) = w"
  by (cases w) simp

lemma wv_wd_of [simp]: "wv (wd_of w) = w"
proof -
  have "unat w < 2 ^ 32" using unsigned_less [of w] by simp
  then show ?thesis by (simp add: wd_of_def wv_w8 lval_take_digits)
qed

lemma wd_of_wv: "wd_of (wv w) = w"
  using take_digits_lval [of "digits w"] by (simp add: wd_of_def w8_digits) (simp add: wnat_def w8_digits)

lemma map_wv_wd_of [simp]: "map wv (map wd_of ws) = ws"
  by (simp add: comp_def)

lemma lval_nibs: "lval (nibs n) = numeral n"
proof -
  have "lval (nibs n) = nat_of_num n" by (induction n rule: nibs.induct) simp_all
  then show ?thesis by (simp add: nat_of_num_numeral)
qed

lemma wd_of_numeral: "wd_of (numeral n) = w8 (nibs n)"
proof -
  have "wv (w8 (nibs n)) = numeral n" by (simp add: wv_w8 lval_nibs)
  then show ?thesis by (metis wd_of_wv)
qed

lemma t16_rows_list: "length ws = 16 * k \<Longrightarrow> concat (map t16_list (t16_rows ws)) = ws \<and> length (t16_rows ws) = k"
proof (induction ws arbitrary: k rule: t16_rows.induct)
  case 1
  then show ?case by (cases k) auto
qed (auto, presburger+)

lemma t16_mk16: "length ts = 16 \<Longrightarrow> t16_list (mk16 ts) = ts"
  by (auto simp: numeral_eq_Suc length_Suc_conv)

lemma box_list_box_of: "length ws = 256 \<Longrightarrow> box_list (box_of ws) = ws"
  using t16_rows_list [of ws 16] by (simp add: box_of_def box_list_def t16_mk16)

definition nboxes :: boxes where
  "nboxes = Boxes (box_of (map wd_of BF_init_S0)) (box_of (map wd_of BF_init_S1)) (box_of (map wd_of BF_init_S2)) (box_of (map wd_of BF_init_S3))"

lemma boxes_list_nboxes: "boxes_list nboxes = BF_init_S"
  by (simp add: nboxes_def box_list_box_of BF_init_S_def comp_def)

theorem hash_by_nibbles:
  assumes "BF_set_key key flags = (e, P)" and "length e = 18" and "length P = 18" and "length salt = 4"
  shows "BF_hash key flags salt 1 = map wv (nhash nboxes (map wd_of e) (map wd_of P) (map wd_of salt) (map wd_of BF_magic_w))"
proof -
  have "ctx_of nboxes (map wd_of P) = \<lparr>BF_S = BF_init_S, BF_P = P\<rparr>" by (simp add: ctx_of_def boxes_list_nboxes comp_def)
  then show ?thesis
    using nhash_correct [of "map wd_of P" "map wd_of e" "map wd_of salt" "map wd_of BF_magic_w" nboxes] assms
    by (simp add: BF_hash_def comp_def)
qed
end
