(* ===== verification/Crypt_Laws.thy ===== *)
theory Crypt_Laws
  imports Crypt_Blowfish
begin

text \<open>
  What \<^verbatim>\<open>crypt_blowfish.c\<close> promises: the base-64 encoding is inverted by the decoding, a hash used as a setting gives
  itself, the calls fail exactly on malformed settings, and \<^verbatim>\<open>BF_set_key\<close> computes the words of the key with the safety
  measure applied exactly to the passwords that need it.
\<close>

unbundle bit_operations_syntax

section \<open>Base 64\<close>

text \<open>The two alphabets are inverse to each other.\<close>

lemma atoi_alphabet: "map BF_safe_atoi64 BF_itoa64 = map (Some \<circ> of_nat) [0..<64]"
  by (simp add: BF_safe_atoi64_def BF_itoa64_def BF_atoi64_def uchar_def upt_rec Let_def)

lemma itoa_alphabet: "list_all (\<lambda>(k, v). v \<le> 63 \<longrightarrow> of_char (BF_itoa64 ! unat v) = k + 32) (zip [0..<96] BF_atoi64)"
  by (simp add: BF_itoa64_def BF_atoi64_def upt_rec)

lemma atoi_itoa: "v < 64 \<Longrightarrow> BF_safe_atoi64 (BF_char v) = Some v"
proof -
  assume "v < 64"
  then have v: "unat v < 64" by (simp add: word_less_nat_alt)
  then have "map BF_safe_atoi64 BF_itoa64 ! unat v = Some (of_nat (unat v))"
    unfolding atoi_alphabet by (simp del: upt_Suc)
  with v show ?thesis by (simp add: BF_char_def)
qed

lemma itoa_atoi:
  assumes "BF_safe_atoi64 c = Some v"
  shows "BF_char v = c" and "v < 64" and "BF_atoi64 ! (of_char c - 0x20) = v" and "c \<noteq> NUL"
proof -
  let ?k = "unat (uchar c - 0x20)"
  have k: "?k < 96" "BF_atoi64 ! ?k = v" "v \<le> 63"
    using assms by (auto simp: BF_safe_atoi64_def Let_def word_less_nat_alt word_le_nat_alt split: if_splits)
  then have "(?k, v) \<in> set (zip [0..<96] BF_atoi64)" by (force simp: set_zip)
  then have "of_char (BF_itoa64 ! unat v) = ?k + 32" using itoa_alphabet k(3) by (fastforce simp: list_all_iff)
  moreover have c: "of_char c = ?k + 32"
  proof -
    have "uchar c - 0x20 < 0x60" using k(1) by (simp add: word_less_nat_alt)
    have "unat (uchar c - 0x20 + 0x20) = ?k + 32" using k(1) by (simp only: unat_word_ariths) simp
    then show ?thesis by (simp add: uchar_def unat_of_nat)
  qed
  ultimately show "BF_char v = c" by (metis BF_char_def of_char_eq_iff)
  show "v < 64" using k(3) by (simp add: word_less_nat_alt word_le_nat_alt)
  show "BF_atoi64 ! (of_char c - 0x20) = v" using k(2) by (simp add: c)
  show "c \<noteq> NUL" using c by auto
qed

text \<open>The masks as sets of bits.\<close>

lemma mask_bits:
  "bit (0x03 :: u8) n \<longleftrightarrow> n < 2" "bit (0x0F :: u8) n \<longleftrightarrow> n < 4" "bit (0x3f :: u8) n \<longleftrightarrow> n < 6"
  "bit (0x30 :: u8) n \<longleftrightarrow> 4 \<le> n \<and> n < 6" "bit (0x3C :: u8) n \<longleftrightarrow> 2 \<le> n \<and> n < 6"
proof -
  have m: "0x03 = (mask 2 :: u8)" "0x0F = (mask 4 :: u8)" "0x3f = (mask 6 :: u8)"
    "0x30 = (push_bit 4 (mask 2) :: u8)" "0x3C = (push_bit 2 (mask 4) :: u8)" by (simp_all add: mask_numeral)
  show "bit (0x03 :: u8) n \<longleftrightarrow> n < 2" "bit (0x0F :: u8) n \<longleftrightarrow> n < 4" "bit (0x3f :: u8) n \<longleftrightarrow> n < 6"
    "bit (0x30 :: u8) n \<longleftrightarrow> 4 \<le> n \<and> n < 6" "bit (0x3C :: u8) n \<longleftrightarrow> 2 \<le> n \<and> n < 6"
    unfolding m by (auto simp only: bit_push_bit_iff bit_mask_iff) auto
qed

lemma u8_eq_iff:
  "(a :: u8) = b \<longleftrightarrow> (bit a 0 = bit b 0 \<and> bit a 1 = bit b 1 \<and> bit a 2 = bit b 2 \<and> bit a 3 = bit b 3
     \<and> bit a 4 = bit b 4 \<and> bit a 5 = bit b 5 \<and> bit a 6 = bit b 6 \<and> bit a 7 = bit b 7)"
proof (rule iffI)
  assume b: "bit a 0 = bit b 0 \<and> bit a 1 = bit b 1 \<and> bit a 2 = bit b 2 \<and> bit a 3 = bit b 3
     \<and> bit a 4 = bit b 4 \<and> bit a 5 = bit b 5 \<and> bit a 6 = bit b 6 \<and> bit a 7 = bit b 7"
  show "a = b"
  proof (rule bit_word_eqI)
    fix n
    assume "n < LENGTH(8)"
    then have "n < 8" by simp
    then consider "n = 0" | "n = 1" | "n = 2" | "n = 3" | "n = 4" | "n = 5" | "n = 6" | "n = 7" by linarith
    then show "bit a n = bit b n" using b by cases simp_all
  qed
qed simp

lemmas b64_bits = bit_or_iff bit_and_iff bit_push_bit_iff bit_drop_bit_eq comp_apply mask_bits

lemma less_64_iff: "(v :: u8) < 64 \<longleftrightarrow> \<not> bit v 6 \<and> \<not> bit v 7"
proof -
  have "v < 64 \<longleftrightarrow> take_bit 6 (unat v) = unat v" by (simp add: take_bit_nat_eq_self_iff word_less_nat_alt)
  also have "\<dots> \<longleftrightarrow> take_bit 6 v = v" by (simp only: word_unat_eq_iff unsigned_take_bit_eq)
  also have "\<dots> \<longleftrightarrow> \<not> bit v 6 \<and> \<not> bit v 7" by (simp only: u8_eq_iff [of _ v] bit_take_bit_iff) simp
  finally show ?thesis .
qed

lemma no_bit_8: "8 \<le> n \<Longrightarrow> \<not> bit (v :: u8) n"
  using bit_imp_le_length [of v n] by auto

lemma six_bits:
  fixes a b :: u8
  shows "drop_bit 2 a < 64" "push_bit 4 (a AND 0x03) OR drop_bit 4 b < 64" "push_bit 2 (a AND 0x0f) OR drop_bit 6 b < 64"
    "a AND 0x3f < 64" "push_bit 2 (a AND 0x0f) < 64" "push_bit 4 (a AND 0x03) < 64"
  by (simp_all only: less_64_iff b64_bits) (simp_all add: no_bit_8)

lemma join_bytes:
  fixes a b c :: u8
  shows "push_bit 2 (drop_bit 2 a) OR drop_bit 4 ((push_bit 4 (a AND 0x03) OR drop_bit 4 b) AND 0x30) = a"
    and "push_bit 2 (drop_bit 2 a) OR drop_bit 4 (push_bit 4 (a AND 0x03) AND 0x30) = a"
    and "push_bit 4 ((push_bit 4 (a AND 0x03) OR drop_bit 4 b) AND 0x0F) OR drop_bit 2 ((push_bit 2 (b AND 0x0f) OR drop_bit 6 c) AND 0x3C) = b"
    and "push_bit 4 ((push_bit 4 (a AND 0x03) OR drop_bit 4 b) AND 0x0F) OR drop_bit 2 (push_bit 2 (b AND 0x0f) AND 0x3C) = b"
    and "push_bit 6 ((push_bit 2 (b AND 0x0f) OR drop_bit 6 c) AND 0x03) OR (c AND 0x3f) = c"
  by (simp_all only: u8_eq_iff b64_bits) (simp_all add: no_bit_8)

lemma split_digits:
  fixes c1 c2 c3 c4 :: u8
  assumes "c1 < 64" and "c2 < 64" and "c3 < 64" and "c4 < 64"
  defines "d1 \<equiv> push_bit 2 c1 OR drop_bit 4 (c2 AND 0x30)" and "d2 \<equiv> push_bit 4 (c2 AND 0x0F) OR drop_bit 2 (c3 AND 0x3C)"
    and "d3 \<equiv> push_bit 6 (c3 AND 0x03) OR c4"
  shows "drop_bit 2 d1 = c1" and "push_bit 4 (d1 AND 0x03) OR drop_bit 4 d2 = c2" and "push_bit 2 (d2 AND 0x0f) OR drop_bit 6 d3 = c3"
    and "d3 AND 0x3f = c4" and "push_bit 4 (d1 AND 0x03) = c2 AND 0x30"
  using assms(1-4) unfolding d1_def d2_def d3_def
  by (simp_all only: less_64_iff u8_eq_iff b64_bits) (simp_all add: no_bit_8)

lemma decode_three:
  assumes "BF_safe_atoi64 x1 = Some c1" and "BF_safe_atoi64 x2 = Some c2" and "BF_safe_atoi64 x3 = Some c3" and "BF_safe_atoi64 x4 = Some c4"
  shows "BF_decode (x1 # x2 # x3 # x4 # xs) (Suc (Suc (Suc n)))
    = map_option (\<lambda>ds. (push_bit 2 c1 OR drop_bit 4 (c2 AND 0x30)) # (push_bit 4 (c2 AND 0x0F) OR drop_bit 2 (c3 AND 0x3C))
        # (push_bit 6 (c3 AND 0x03) OR c4) # ds) (if n = 0 then Some [] else BF_decode xs n)"
  unfolding BF_decode.simps [of "x1 # x2 # x3 # x4 # xs"] by (simp add: assms Let_def)

lemma decode_two:
  assumes "BF_safe_atoi64 x1 = Some c1" and "BF_safe_atoi64 x2 = Some c2" and "BF_safe_atoi64 x3 = Some c3"
  shows "BF_decode (x1 # x2 # x3 # xs) (Suc (Suc 0))
    = Some [push_bit 2 c1 OR drop_bit 4 (c2 AND 0x30), push_bit 4 (c2 AND 0x0F) OR drop_bit 2 (c3 AND 0x3C)]"
  unfolding BF_decode.simps [of "x1 # x2 # x3 # xs"] by (simp add: assms Let_def)

lemma decode_one:
  assumes "BF_safe_atoi64 x1 = Some c1" and "BF_safe_atoi64 x2 = Some c2"
  shows "BF_decode (x1 # x2 # xs) (Suc 0) = Some [push_bit 2 c1 OR drop_bit 4 (c2 AND 0x30)]"
  unfolding BF_decode.simps [of "x1 # x2 # xs"] by (simp add: assms Let_def)

lemma BF_decode_encode: "bs \<noteq> [] \<Longrightarrow> BF_decode (BF_encode bs @ rest) (length bs) = Some bs"
proof (induction bs arbitrary: rest rule: BF_encode.induct)
  case (1 b1 b2 b3 bs)
  then show ?case
    unfolding BF_encode.simps append_Cons list.size decode_three [OF atoi_itoa [OF six_bits(1)] atoi_itoa [OF six_bits(2)] atoi_itoa [OF six_bits(3)] atoi_itoa [OF six_bits(4)]]
      join_bytes add_Suc_right add_0_right by (cases "bs = []") simp_all
next
  case (2 b1 b2)
  show ?case
    unfolding BF_encode.simps append_Cons list.size decode_two [OF atoi_itoa [OF six_bits(1)] atoi_itoa [OF six_bits(2)] atoi_itoa [OF six_bits(5)]]
      join_bytes add_Suc_right add_0_right ..
next
  case (3 b1)
  show ?case
    unfolding BF_encode.simps append_Cons list.size decode_one [OF atoi_itoa [OF six_bits(1)] atoi_itoa [OF six_bits(6)]]
      join_bytes add_Suc_right add_0_right ..
qed simp

text \<open>Decoding fails exactly on a character outside the alphabet or at the end of the string; the bytes of \<open>3 * n + 1\<close> determine
  all digits but the last, of which two bits count.\<close>

lemma BF_digit_SomeE:
  assumes "BF_digit src = Some (v, rest)"
  obtains c where "src = c # rest" and "BF_safe_atoi64 c = Some v"
  using assms by (cases src) auto

definition digits_ok :: "nat \<Rightarrow> string \<Rightarrow> bool" where
  "digits_ok n src \<longleftrightarrow> n \<le> length src \<and> list_all (\<lambda>c. BF_safe_atoi64 c \<noteq> None) (take n src)"

lemma BF_encode_decode:
  assumes "BF_decode src (3 * n + 1) = Some bs"
  shows "length bs = 3 * n + 1 \<and> digits_ok (4 * n + 2) src
    \<and> (\<exists>v. BF_safe_atoi64 (src ! (4 * n + 1)) = Some v \<and> BF_encode bs = take (4 * n + 1) src @ [BF_char (v AND 0x30)])"
  using assms
proof (induction n arbitrary: src bs)
  case 0
  then obtain x1 c1 x2 c2 xs where s: "src = x1 # x2 # xs" "BF_safe_atoi64 x1 = Some c1" "BF_safe_atoi64 x2 = Some c2"
    by (auto simp: BF_decode.simps [of src] elim!: BF_digit_SomeE split: option.splits prod.splits)
  note c = itoa_atoi [OF s(2)] itoa_atoi [OF s(3)]
  have b: "bs = [push_bit 2 c1 OR drop_bit 4 (c2 AND 0x30)]" using 0 decode_one [OF s(2,3)] s(1) by simp
  have "BF_encode bs = [x1, BF_char (c2 AND 0x30)]"
    unfolding b BF_encode.simps split_digits(1,5) [OF c(2) c(6) c(2) c(2)] using c(1) by simp
  then show ?case using s by (simp add: b digits_ok_def)
next
  case (Suc n)
  obtain x1 c1 x2 c2 x3 c3 x4 c4 xs where s: "src = x1 # x2 # x3 # x4 # xs" "BF_safe_atoi64 x1 = Some c1" "BF_safe_atoi64 x2 = Some c2"
      "BF_safe_atoi64 x3 = Some c3" "BF_safe_atoi64 x4 = Some c4"
    using Suc.prems by (auto simp: BF_decode.simps [of src] Let_def elim!: BF_digit_SomeE split: option.splits prod.splits)
  note c = itoa_atoi [OF s(2)] itoa_atoi [OF s(3)] itoa_atoi [OF s(4)] itoa_atoi [OF s(5)]
  have e: "3 * Suc n + 1 = Suc (Suc (Suc (3 * n + 1)))" by simp
  obtain ds where ds: "BF_decode xs (3 * n + 1) = Some ds"
    and b: "bs = (push_bit 2 c1 OR drop_bit 4 (c2 AND 0x30)) # (push_bit 4 (c2 AND 0x0F) OR drop_bit 2 (c3 AND 0x3C)) # (push_bit 6 (c3 AND 0x03) OR c4) # ds"
    using Suc.prems unfolding e s(1) decode_three [OF s(2-5)] by auto
  have l: "length bs = Suc (Suc (Suc (length ds)))" unfolding b by (simp only: list.size add_Suc_right add_0_right)
  have "BF_encode bs = x1 # x2 # x3 # x4 # BF_encode ds"
    unfolding b BF_encode.simps split_digits(1-4) [OF c(2) c(6) c(10) c(14)] using c(1,5,9,13) by simp
  moreover have "4 * Suc n + 2 = Suc (Suc (Suc (Suc (4 * n + 2))))" "4 * Suc n + 1 = Suc (Suc (Suc (Suc (4 * n + 1))))" by simp_all
  ultimately show ?case
    using Suc.IH [OF ds] s(2-5) l unfolding digits_ok_def s(1) by (simp only: take_Suc_Cons nth_Cons_Suc) simp
qed

text \<open>The length of an encoding.\<close>

lemma length_BF_encode: "length (BF_encode bs) = (4 * length bs + 2) div 3"
  by (induction bs rule: BF_encode.induct) simp_all

section \<open>The hash\<close>

lemma length_word_bytes: "length (concat (map word_bytes ws)) = 4 * length ws"
  by (induction ws) (simp_all add: word_bytes_def)

lemma length_BF_swap [simp]: "length (BF_swap xs) = length xs"
  by (simp add: BF_swap_def)

lemma length_BF_hash: "length (BF_hash key flags salt count) = 6"
  by (simp add: BF_hash_def BF_output_def length_concat upt_rec split: prod.splits)

text \<open>A successful call: what the setting is like and what the hash is made of.\<close>

definition BF_tail :: "string \<Rightarrow> u8 \<Rightarrow> u8 list \<Rightarrow> u32 \<Rightarrow> string" where
  "BF_tail key flags bs count =
     BF_encode (take 23 (concat (map word_bytes (BF_swap (BF_hash key flags (BF_swap (bytes_words bs)) (unat count))))))"

lemma length_BF_tail [simp]: "length (BF_tail key flags bs count) = 31"
  by (simp add: BF_tail_def length_BF_encode length_word_bytes length_BF_hash)

lemma BF_crypt_salted:
  assumes "61 \<le> sz" and "\<not> bad_setting setting" and "min_count \<le> setting_count setting" and bs: "BF_decode (drop 7 setting) 16 = Some bs"
  shows "BF_crypt key setting sz min_count
      = Inr (take 7 setting @ BF_encode bs @ BF_tail key (subtype_flags setting) bs (setting_count setting))"
    and "29 \<le> length setting"
proof -
  obtain v where d: "digits_ok 22 (drop 7 setting)" and v: "BF_safe_atoi64 (drop 7 setting ! 21) = Some v"
    and e: "BF_encode bs = take 21 (drop 7 setting) @ [BF_char (v AND 0x30)]"
    using BF_encode_decode [of "drop 7 setting" 5 bs] bs by auto
  have "22 \<le> length (drop 7 setting)" using d by (simp only: digits_ok_def)
  then show l: "29 \<le> length setting" by (simp only: length_drop)
  then have "BF_atoi64 ! (char_at setting 28 - 0x20) = v" using itoa_atoi(3) [OF v] by (simp add: char_at_def)
  moreover have "take 28 setting = take 7 setting @ take 21 (drop 7 setting)" by (metis add_numeral_left numeral_plus_numeral semiring_norm(2,3,4,5,6,7,8,9,10) take_add)
  ultimately show "BF_crypt key setting sz min_count
      = Inr (take 7 setting @ BF_encode bs @ BF_tail key (subtype_flags setting) bs (setting_count setting))"
    using assms by (simp add: BF_crypt_def Let_def e BF_tail_def)
qed

lemma BF_crypt_cases:
  "BF_crypt key setting sz min_count =
     (if sz < 61 then Inl ERANGE
      else if bad_setting setting \<or> setting_count setting < min_count then Inl EINVAL
      else case BF_decode (drop 7 setting) 16 of None \<Rightarrow> Inl EINVAL
       | Some bs \<Rightarrow> Inr (take 7 setting @ BF_encode bs @ BF_tail key (subtype_flags setting) bs (setting_count setting)))"
proof (cases "sz < 61 \<or> bad_setting setting \<or> setting_count setting < min_count \<or> BF_decode (drop 7 setting) 16 = None")
  case True
  then show ?thesis by (auto simp: BF_crypt_def Let_def)
next
  case False
  then show ?thesis using BF_crypt_salted(1) [of sz setting min_count] by auto
qed

text \<open>What the code reads of a setting are its first seven characters and the digits of the salt.\<close>

lemma setting_prefix:
  assumes "7 \<le> length s"
  shows "bad_setting (take 7 s @ t) = bad_setting s" and "setting_count (take 7 s @ t) = setting_count s"
    and "subtype_flags (take 7 s @ t) = subtype_flags s"
proof -
  have "char_at (take 7 s @ t) i = char_at s i" if "i < 7" for i using assms that by (simp add: char_at_def nth_append)
  then show "bad_setting (take 7 s @ t) = bad_setting s" and "setting_count (take 7 s @ t) = setting_count s"
    and "subtype_flags (take 7 s @ t) = subtype_flags s"
    by (simp_all add: bad_setting_def setting_count_def subtype_flags_def)
qed

lemma BF_crypt_rehash:
  assumes "BF_crypt key setting sz min_count = Inr h"
  shows "BF_crypt key h sz min_count = Inr h" and "length h = 60" and "int (length h) < sz" and "h ! 2 = setting ! 2"
    and "subtype_flags h = subtype_flags setting"
proof -
  obtain bs where g: "61 \<le> sz" "\<not> bad_setting setting" "min_count \<le> setting_count setting" and bs: "BF_decode (drop 7 setting) 16 = Some bs"
    and h: "h = take 7 setting @ BF_encode bs @ BF_tail key (subtype_flags setting) bs (setting_count setting)"
    using assms by (auto simp: BF_crypt_cases split: if_splits option.splits)
  have l: "29 \<le> length setting" "length bs = 16"
    using BF_crypt_salted(2) [OF g bs] BF_encode_decode [of "drop 7 setting" 5 bs] bs by auto
  then have l7: "7 \<le> length setting" and t: "length (take 7 setting) = 7" by simp_all
  note p = setting_prefix [OF l7, of "BF_encode bs @ BF_tail key (subtype_flags setting) bs (setting_count setting)", folded h]
  have d: "BF_decode (drop 7 h) 16 = Some bs"
    using BF_decode_encode [of bs] l(2) unfolding h drop_append_exact [OF t] by (metis length_0_conv zero_neq_numeral)
  show "BF_crypt key h sz min_count = Inr h"
    using g p BF_crypt_salted(1) [of sz h min_count bs] d by (simp add: h l7)
  show "length h = 60" using t l(2) by (simp add: h length_BF_encode)
  then show "int (length h) < sz" using g(1) by simp
  show "h ! 2 = setting ! 2" using l by (simp add: h nth_append)
  show "subtype_flags h = subtype_flags setting" by (rule p(3))
qed

section \<open>The key schedule\<close>

text \<open>The bytes of the key with its NUL, over and over, and the words they make, read as unsigned or as signed characters.\<close>

definition key_byte :: "string \<Rightarrow> nat \<Rightarrow> u8" where
  "key_byte key n = uchar ((key @ [NUL]) ! (n mod Suc (length key)))"

definition key_word :: "(u8 \<Rightarrow> u32) \<Rightarrow> string \<Rightarrow> nat \<Rightarrow> u32" where
  "key_word ext key i =
     push_bit 8 (push_bit 8 (push_bit 8 (ext (key_byte key (4 * i))) OR ext (key_byte key (4 * i + 1)))
       OR ext (key_byte key (4 * i + 2))) OR ext (key_byte key (4 * i + 3))"

definition key_pos :: "string \<Rightarrow> nat \<Rightarrow> string" where
  "key_pos key n = drop (n mod Suc (length key)) key"

lemma key_char_pos: "uchar (key_char (key_pos key n)) = key_byte key n"
proof -
  have "n mod Suc (length key) < length key \<or> n mod Suc (length key) = length key"
    using mod_less_divisor [of "Suc (length key)" n] by linarith
  then show ?thesis
    by (auto simp: key_char_def key_pos_def key_byte_def nth_append Cons_nth_drop_Suc [symmetric])
qed

lemma key_next_pos: "NUL \<notin> set key \<Longrightarrow> key_next key (key_pos key n) = key_pos key (Suc n)"
proof -
  assume nul: "NUL \<notin> set key"
  consider "n mod Suc (length key) < length key" | "n mod Suc (length key) = length key"
    using mod_less_divisor [of "Suc (length key)" n] by linarith
  then show ?thesis
  proof cases
    case 1
    then have "key ! (n mod Suc (length key)) \<noteq> NUL" using nul nth_mem by fastforce
    with 1 show ?thesis
      by (simp add: key_next_def key_pos_def key_char_def Cons_nth_drop_Suc [symmetric] mod_Suc)
  next
    case 2
    then show ?thesis by (simp add: key_next_def key_pos_def key_char_def mod_Suc)
  qed
qed

lemma bit_scast_8: "bit (scast (c :: u8) :: u32) n \<longleftrightarrow> n < 32 \<and> bit c (min 7 n)"
  by (simp add: bit_simps)

lemma bit_0x80: "bit (0x80 :: u32) n \<longleftrightarrow> n = 7"
proof -
  have "bit (push_bit 7 1 :: u32) n \<longleftrightarrow> n = 7" by (simp only: bit_push_bit_iff) (auto simp: bit_1_iff)
  then show ?thesis by simp
qed

lemma bit_0x10000: "bit (0x10000 :: u32) n \<longleftrightarrow> n = 16"
proof -
  have "bit (push_bit 16 1 :: u32) n \<longleftrightarrow> n = 16" by (simp only: bit_push_bit_iff) (auto simp: bit_1_iff)
  then show ?thesis by simp
qed

lemma sign_bit: "(push_bit 8 w OR scast (c :: u8) :: u32) AND 0x80 = (if bit c 7 then 0x80 else 0)"
  by (rule bit_eqI) (cases "bit c 7"; simp only: bit_and_iff bit_or_iff bit_push_bit_iff bit_0x80 bit_scast_8 if_True if_False; auto)

definition late_sign :: "string \<Rightarrow> nat \<Rightarrow> bool" where
  "late_sign key i \<longleftrightarrow> bit (key_byte key (4 * i + 1)) 7 \<or> bit (key_byte key (4 * i + 2)) 7 \<or> bit (key_byte key (4 * i + 3)) 7"

lemma set_key_char_pos:
  assumes "NUL \<notin> set key"
  shows "set_key_char key j (key_pos key n, t0, t1, sign)
    = (key_pos key (Suc n), push_bit 8 t0 OR ucast (key_byte key n), push_bit 8 t1 OR scast (key_byte key n),
       if j \<noteq> 0 \<and> bit (key_byte key n) 7 then sign OR 0x80 else sign)"
  by (simp only: set_key_char.simps Let_def key_char_pos key_next_pos [OF assms] sign_bit) simp

lemma set_key_chars:
  assumes "NUL \<notin> set key"
  shows "fold (set_key_char key) [0, 1, 2, 3] (key_pos key (4 * i), 0, 0, sign)
    = (key_pos key (4 * Suc i), key_word ucast key i, key_word scast key i, if late_sign key i then sign OR 0x80 else sign)"
proof -
  have n: "Suc (4 * i) = 4 * i + 1" "Suc (4 * i + 1) = 4 * i + 2" "Suc (4 * i + 2) = 4 * i + 3" "Suc (4 * i + 3) = 4 * Suc i" by simp_all
  have "fold (set_key_char key) [0, 1, 2, 3] (key_pos key (4 * i), 0, 0, sign)
    = set_key_char key 3 (set_key_char key 2 (set_key_char key 1 (set_key_char key 0 (key_pos key (4 * i), 0, 0, sign))))" by simp
  also have "\<dots> = (key_pos key (4 * Suc i), key_word ucast key i, key_word scast key i, if late_sign key i then sign OR 0x80 else sign)"
    unfolding set_key_char_pos [OF assms] n key_word_def late_sign_def push_bit_of_0 or.left_neutral by (auto simp: or.assoc)
  finally show ?thesis .
qed

lemma set_key_word_pos:
  assumes "NUL \<notin> set key" and "k_ptr k = key_pos key (4 * i)"
  shows "set_key_word key bug i k = (let w = key_word (if bug then scast else ucast) key i
    in \<lparr>k_ptr = key_pos key (4 * Suc i), k_sign = if late_sign key i then k_sign k OR 0x80 else k_sign k,
       k_diff = k_diff k OR (key_word ucast key i XOR key_word scast key i),
       k_expanded = k_expanded k @ [w], k_initial = k_initial k @ [BF_init_P ! i XOR w]\<rparr>)"
  unfolding set_key_word_def assms(2) set_key_chars [OF assms(1)] prod.case by (cases bug) (simp_all only: if_True if_False)

lemma set_key_words_upto:
  assumes "NUL \<notin> set key"
  shows "fold (set_key_word key bug) [0..<n] \<lparr>k_ptr = key, k_sign = 0, k_diff = 0, k_expanded = [], k_initial = []\<rparr>
    = \<lparr>k_ptr = key_pos key (4 * n), k_sign = if \<exists>i < n. late_sign key i then 0x80 else 0,
       k_diff = fold (\<lambda>i d. d OR (key_word ucast key i XOR key_word scast key i)) [0..<n] 0,
       k_expanded = map (key_word (if bug then scast else ucast) key) [0..<n],
       k_initial = map (\<lambda>i. BF_init_P ! i XOR key_word (if bug then scast else ucast) key i) [0..<n]\<rparr>"
proof (induction n)
  case (Suc n)
  have f: "fold (set_key_word key bug) [0..<Suc n] k = set_key_word key bug n (fold (set_key_word key bug) [0..<n] k)" for k by simp
  show ?case
    unfolding f Suc by (rule trans [OF set_key_word_pos [OF assms]]) (auto simp: Let_def less_Suc_eq)
qed (simp add: key_pos_def)

lemma fold_or_zero: "fold (\<lambda>i d. d OR f i) is d = (0 :: u32) \<longleftrightarrow> d = 0 \<and> (\<forall>i \<in> set is. f i = 0)"
proof (induction "is" arbitrary: d)
  case (Cons i "is")
  have "d OR f i = 0 \<longleftrightarrow> d = 0 \<and> f i = 0" by (auto simp: bit_eq_iff bit_or_iff)
  with Cons show ?case by auto
qed simp

lemma safety_sign_iff:
  "safety_sign safety diff (if s then 0x80 else 0) = (if s \<and> diff = 0 then 0x10000 AND safety else 0)"
proof (cases "diff = 0")
  case True
  then show ?thesis by (simp add: safety_sign_def and.assoc [symmetric])
next
  case False
  let ?d = "(diff OR drop_bit 16 diff) AND 0xffff"
  have m: "?d = take_bit 16 (diff OR drop_bit 16 diff)" by (simp add: take_bit_eq_mask mask_numeral)
  have "?d \<noteq> 0"
  proof
    assume "?d = 0"
    then have "\<not> bit diff n" for n
    proof (cases "n < 16")
      case True
      then show ?thesis using \<open>?d = 0\<close> unfolding m by (metis bit_0_eq bit_or_iff bit_take_bit_iff bot_apply bot_bool_def)
    next
      case False
      then have "bit (take_bit 16 (diff OR drop_bit 16 diff)) (n - 16) \<longleftrightarrow> n < 32 \<and> (bit diff (n - 16) \<or> bit diff n)"
        by (auto simp: bit_simps)
      then show ?thesis using \<open>?d = 0\<close> bit_imp_le_length [of diff n] unfolding m by auto
    qed
    with \<open>diff \<noteq> 0\<close> show False by (auto simp: bit_eq_iff)
  qed
  then have u: "0 < unat ?d" by (simp add: unat_gt_0)
  have "unat ?d < 2 ^ 16" unfolding m by (simp only: unsigned_take_bit_eq take_bit_nat_less_exp)
  then have "unat (?d + 0xffff) = unat ?d + 0xffff" by (simp add: unat_word_ariths)
  then have "unat (?d + 0xffff) div 2 ^ 16 = 1" using u \<open>unat ?d < 2 ^ 16\<close> by simp
  then have "bit (unat (?d + 0xffff)) 16" by (simp only: bit_iff_odd) simp
  then have "bit (?d + 0xffff) 16" by (simp only: bit_unsigned_iff)
  then have "0x10000 AND (NOT (?d + 0xffff) AND safety) = 0"
    by (intro bit_eqI) (auto simp only: bit_and_iff bit_not_iff bit_0x10000 bit_0_eq bot_apply bot_bool_def)
  with False show ?thesis by (cases s) (simp_all add: safety_sign_def Let_def)
qed

text \<open>The reference: the words of the key, and the safety measure against the collisions of the old sign extension bug.\<close>

definition key_collides :: "string \<Rightarrow> bool" where
  "key_collides key \<longleftrightarrow> (\<forall>i < 18. key_word ucast key i = key_word scast key i) \<and> (\<exists>i < 18. late_sign key i)"

definition spec_words :: "string \<Rightarrow> bool \<Rightarrow> u32 list" where
  "spec_words key bug = map (key_word (if bug then scast else ucast) key) [0..<18]"

definition spec_initial :: "u32 list \<Rightarrow> bool \<Rightarrow> u32 list" where
  "spec_initial ws dev = (let is = map2 (XOR) BF_init_P ws in if dev then is[0 := is ! 0 XOR 0x10000] else is)"

lemma map_init_P: "map (\<lambda>i. BF_init_P ! i XOR f i) [0..<18] = map2 (XOR) BF_init_P (map f [0..<18])"
  by (rule nth_equalityI) simp_all

lemma safety_word: "push_bit 15 (ucast flags AND 2 :: u32) = (if bit (flags :: u8) 1 then 0x10000 else 0)"
proof (rule bit_eqI)
  fix n
  have b: "bit (2 :: u32) k \<longleftrightarrow> k = 1" for k
  proof -
    have "bit (push_bit 1 1 :: u32) k \<longleftrightarrow> k = 1" by (simp only: bit_push_bit_iff) (auto simp: bit_1_iff)
    then show ?thesis by simp
  qed
  show "bit (push_bit 15 (ucast flags AND 2 :: u32)) n \<longleftrightarrow> bit (if bit flags 1 then 0x10000 else 0 :: u32) n"
    by (cases "bit flags 1"; simp only: bit_push_bit_iff bit_and_iff b bit_0x10000 bit_ucast_iff if_True if_False bit_0_eq bot_apply bot_bool_def)
      auto
qed

lemma odd_flag: "(flags AND 1 = 1) \<longleftrightarrow> bit (flags :: u8) 0"
  by (simp add: bit_0 and_one_eq odd_iff_mod_2_eq_one)

lemma BF_set_key_spec:
  assumes "NUL \<notin> set key"
  shows "BF_set_key key flags
    = (spec_words key (bit flags 0), spec_initial (spec_words key (bit flags 0)) (bit flags 1 \<and> key_collides key))"
proof -
  let ?k = "set_key_words key (bit flags 0)"
  have k: "?k = \<lparr>k_ptr = key_pos key (4 * 18), k_sign = if \<exists>i < 18. late_sign key i then 0x80 else 0,
       k_diff = fold (\<lambda>i d. d OR (key_word ucast key i XOR key_word scast key i)) [0..<18] 0,
       k_expanded = spec_words key (bit flags 0), k_initial = map2 (XOR) BF_init_P (spec_words key (bit flags 0))\<rparr>"
    using set_key_words_upto [OF assms, of "bit flags 0" 18]
    by (simp add: set_key_words_def BF_N_def spec_words_def map_init_P del: upt_Suc)
  have x: "a XOR b = 0 \<longleftrightarrow> a = b" for a b :: u32 by (auto simp: bit_eq_iff bit_xor_iff)
  have "safety_sign (push_bit 15 (ucast flags AND 2)) (k_diff ?k) (k_sign ?k)
      = (if bit flags 1 \<and> key_collides key then 0x10000 else 0)"
    by (simp only: k key_state.select_convs safety_sign_iff safety_word fold_or_zero key_collides_def x) auto
  moreover have "is[0 := is ! 0 XOR 0] = is" for "is" :: "u32 list" by simp
  ultimately show ?thesis
    unfolding BF_set_key_def odd_flag Let_def by (simp add: k spec_initial_def Let_def)
qed

end
