(* ===== verification/Blowfish_Test.thy ===== *)
theory Blowfish_Test
  imports Blowfish_Refine Crypt_Laws
begin

text \<open>
  The self-test of \<^verbatim>\<open>_crypt_blowfish_rn\<close> succeeds: the two hashes of the test key are computed in the kernel,
  by rewriting with the equations of \<open>Blowfish_Nibbles\<close>, and are the ones written in the source.
\<close>

unbundle bit_operations_syntax

lemma t16_rows_Nil: "t16_rows [] = []" and nxors_Nil: "nxors [] [] = []"
  and nput_H3: "nput H3 h i w (Boxes s0 s1 s2 s3) = Boxes s0 s1 s2 (put16 h (put16 i w (sel16 h s3)) s3)"
  by simp_all

lemmas nib_rules =
  sel16.simps put16.simps nxor.simps nadd.simps nadc.simps wxor.simps
  wadd.simps wadd1.simps wadd2.simps wadd3.simps wadd4.simps wadd5.simps wadd6.simps wadd7.simps wadd8.simps
  nlookup.simps nrounds.simps nenc.simps nmix.simps nput.simps(1-3) nput_H3 nstore.simps nstep.simps nloop_S.simps
  nstore_P.simps nstep_P.simps(1) nloop_P.simps nine_def zero_def nfst.simps npass2.simps npass.simps
  nxors.simps(1) nxors_Nil nxor_P.simps nsalt_words.simps(1) nturn.simps nenc8.simps nenc64.simps pair_list.simps
  noutput.simps nhash.simps(1) append.simps list.map concat.simps prod.case spots_def
  t16_rows.simps(1) t16_rows_Nil mk16.simps box_of_def wd_of_numeral nibs.simps w8.simps
  nboxes_def BF_init_S0_def BF_init_S1_def BF_init_S2_def BF_init_S3_def BF_magic_w_def

section \<open>The two hashes\<close>

definition test_salt :: "u32 list" where
  "test_salt = [0x71d79f82, 0x18a39259, 0xa7a29aab, 0xb2dbafc3]"

definition test_expanded :: "u32 list" where
  "test_expanded = [0x386220d0, 0xc1d2cfcc, 0xd8003862, 0x20d0c1d2, 0xcfccd800, 0x386220d0,
    0xc1d2cfcc, 0xd8003862, 0x20d0c1d2, 0xcfccd800, 0x386220d0, 0xc1d2cfcc,
    0xd8003862, 0x20d0c1d2, 0xcfccd800, 0x386220d0, 0xc1d2cfcc, 0xd8003862]"

definition test_initial :: "u32 list" where
  "test_initial = [0x1c5d4a58, 0x4471c71f, 0xcb19b24c, 0x23a0b296, 0x6bc5e022, 0x11fd1100,
    0xc9fc3554, 0x344e54eb, 0x65f8e034, 0xf71ccb77, 0x8636461f, 0xf53bc3a0,
    0x18ac11d5, 0xe9ac910f, 0xf0480db5, 0x8d2529c7, 0x53c41a15, 0x5179c379]"

definition test_expanded_x :: "u32 list" where
  "test_expanded_x = [0xffffffd0, 0xffffffcc, 0xd8003862, 0xffffffd2, 0xffffd800, 0xffffffd0,
    0xffffffcc, 0xd8003862, 0xffffffd2, 0xffffd800, 0xffffffd0, 0xffffffcc,
    0xd8003862, 0xffffffd2, 0xffffd800, 0xffffffd0, 0xffffffcc, 0xd8003862]"

definition test_initial_x :: "u32 list" where
  "test_initial_x = [0xdbc09558, 0x7a5cf71f, 0xcb19b24c, 0xfc8f8c96, 0x5bf6e022, 0xd660ce00,
    0xf7d10554, 0x344e54eb, 0xbad7de34, 0xc72fcb77, 0x41ab991f, 0xcb16f3a0,
    0x18ac11d5, 0x3683af0f, 0xc07b0db5, 0x4ab8f6c7, 0x6de92a15, 0x5179c379]"

lemma test_nhash:
  "nhash nboxes (map wd_of test_expanded) (map wd_of test_initial) (map wd_of test_salt) (map wd_of BF_magic_w) =
    [W HB HD HD H7 H1 H7 H3 H9,
     W HC H8 H2 H7 H1 H6 HC HF,
     W H8 HC H9 H8 H2 H9 H7 H2,
     W H3 HB HC HA HD HC HA H7,
     W H7 H6 H1 HC H1 HB H5 H9,
     W H6 HC H7 H6 H4 HC HE H2]"
  by (simp only: nib_rules test_salt_def test_expanded_def test_initial_def)

lemma test_nhash_x:
  "nhash nboxes (map wd_of test_expanded_x) (map wd_of test_initial_x) (map wd_of test_salt) (map wd_of BF_magic_w) =
    [W H1 HA H1 H5 HB H6 HD H5,
     W HA H1 H0 HB HC H7 H1 H9,
     W HD HF HA H4 H1 H5 H7 H5,
     W H1 H1 H3 H6 H1 HF HC HA,
     W H2 H7 H7 HF H6 HF HF H3,
     W H2 HE H8 H3 H9 H2 H1 HA]"
  by (simp only: nib_rules test_salt_def test_expanded_x_def test_initial_x_def)

section \<open>Around them\<close>

text \<open>The words of the test keys.\<close>

lemma test_key_chars: "test_key = [CHR ''8'', CHR ''b'', CHR '' '', CHR 0xD0, CHR 0xC1, CHR 0xD2, CHR 0xCF, CHR 0xCC, CHR 0xD8]"
  by code_simp

lemma test_key2_chars: "test_key2 = [CHR 0xFF, CHR 0xA3, CHR ''3'', CHR ''4'', CHR 0xFF, CHR 0xFF, CHR 0xFF, CHR 0xA3, CHR ''3'', CHR ''4'', CHR ''5'']"
  by code_simp

lemma test_words:
  "spec_words test_key False = test_expanded" "spec_words test_key True = test_expanded_x"
  by (simp_all add: spec_words_def upt_rec key_word_def key_byte_def test_key_chars uchar_def test_expanded_def test_expanded_x_def)

lemma test_initials:
  "spec_initial test_expanded False = test_initial" "spec_initial test_expanded_x False = test_initial_x"
  by (simp_all add: spec_initial_def BF_init_P_def test_expanded_def test_expanded_x_def test_initial_def test_initial_x_def)

lemma test_key_no_collision: "\<not> key_collides test_key"
proof -
  have "key_word ucast test_key 0 \<noteq> key_word scast test_key 0"
    by (simp add: key_word_def key_byte_def test_key_chars uchar_def)
  then show ?thesis unfolding key_collides_def by (metis zero_less_numeral)
qed

lemma flag_bits: "\<not> bit (2 :: u8) 0" "\<not> bit (4 :: u8) 0" "bit (1 :: u8) 0" "bit (2 :: u8) 1" "\<not> bit (4 :: u8) 1"
  by simp_all

lemma test_set_key:
  "BF_set_key test_key 2 = (test_expanded, test_initial)" "BF_set_key test_key 4 = (test_expanded, test_initial)"
  "BF_set_key test_key 1 = (test_expanded_x, test_initial_x)"
proof -
  have "NUL \<notin> set test_key" by (simp add: test_key_chars)
  note spec = BF_set_key_spec [OF this]
  show "BF_set_key test_key 2 = (test_expanded, test_initial)" "BF_set_key test_key 4 = (test_expanded, test_initial)"
    "BF_set_key test_key 1 = (test_expanded_x, test_initial_x)"
    unfolding spec using flag_bits test_key_no_collision by (simp_all add: test_words test_initials del: bit_0)
qed

lemma length_test [simp]:
  "length test_salt = 4" "length test_expanded = 18" "length test_initial = 18" "length test_expanded_x = 18" "length test_initial_x = 18"
  by (simp_all add: test_salt_def test_expanded_def test_initial_def test_expanded_x_def test_initial_x_def)

definition test_out :: "u32 list" where
  "test_out = [0x93717ddb, 0xfc61728c, 0x279289c8, 0x7acdacb3, 0x95b1c167, 0x2ec467c6]"

definition test_out_x :: "u32 list" where
  "test_out_x = [0x5d6b51a1, 0x917cb01a, 0x57514afd, 0xacf16311, 0x3ff6f772, 0xa12938e2]"

lemma test_hash:
  "BF_hash test_key 2 test_salt 1 = test_out" "BF_hash test_key 4 test_salt 1 = test_out" "BF_hash test_key 1 test_salt 1 = test_out_x"
  by (simp_all only: hash_by_nibbles [OF test_set_key(1) length_test(2,3,1)] hash_by_nibbles [OF test_set_key(2) length_test(2,3,1)]
      hash_by_nibbles [OF test_set_key(3) length_test(4,5,1)] test_nhash test_nhash_x)
    (simp_all add: test_out_def test_out_x_def wv_def wnat_def)

text \<open>The test setting for a kind of hash, and what the test finds of it before it hashes.\<close>

definition test_setting_of :: "char \<Rightarrow> string" where
  "test_setting_of c = test_setting[2 := c]"

definition hash_kinds :: "char set" where
  "hash_kinds = {CHR ''a'', CHR ''b'', CHR ''x'', CHR ''y''}"

lemma test_salt_decode: "map_option (\<lambda>bs. BF_swap (bytes_words bs)) (BF_decode (drop 7 test_setting) 16) = Some test_salt"
  by code_simp

lemma test_setting_checks:
  "list_all (\<lambda>c. \<not> bad_setting (test_setting_of c) \<and> setting_count (test_setting_of c) = 1) ''abxy''"
  "map (\<lambda>c. subtype_flags (test_setting_of c)) ''abxy'' = [2, 4, 1, 4]"
  by code_simp+

lemma test_text:
  "BF_encode (take 23 (concat (map word_bytes (BF_swap test_out)))) = take 31 (test_hashes ! 0)"
  "BF_encode (take 23 (concat (map word_bytes (BF_swap test_out_x)))) = take 31 (test_hashes ! 1)"
  by code_simp+

lemma test_crypt:
  assumes "c \<in> hash_kinds"
  shows "BF_crypt test_key (test_setting_of c) 61 1
    = Inr (test_setting_of c @ take 31 (test_hashes ! (if c = CHR ''x'' then 1 else 0)))"
proof -
  let ?s = "test_setting_of c"
  obtain bs where bs: "BF_decode (drop 7 test_setting) 16 = Some bs" "BF_swap (bytes_words bs) = test_salt"
    using test_salt_decode by auto
  have d: "drop 7 ?s = drop 7 test_setting" by (simp add: test_setting_of_def drop_update_cancel)
  have m: "take 28 ?s @ [BF_char (BF_atoi64 ! (char_at ?s 28 - 0x20) AND 0x30)] = ?s"
    by (simp add: test_setting_of_def test_setting_def char_at_def BF_char_def BF_atoi64_def BF_itoa64_def)
  have h: "BF_hash test_key (subtype_flags ?s) test_salt (Suc 0) = (if c = CHR ''x'' then test_out_x else test_out)"
    using assms test_setting_checks(2) test_hash by (auto simp: hash_kinds_def)
  have "\<not> bad_setting ?s \<and> setting_count ?s = 1" using assms test_setting_checks(1) by (auto simp: hash_kinds_def)
  then have "BF_crypt test_key ?s 61 1
      = Inr ((take 28 ?s @ [BF_char (BF_atoi64 ! (char_at ?s 28 - 0x20) AND 0x30)])
          @ BF_encode (take 23 (concat (map word_bytes (BF_swap (if c = CHR ''x'' then test_out_x else test_out))))))"
    using h by (simp add: BF_crypt_def d bs Let_def)
  then show ?thesis unfolding m by (simp add: test_text)
qed

lemma self_test_hash_ok:
  assumes "c \<in> hash_kinds"
  shows "self_test_hash (test_setting_of c) (test_hashes ! (if c = CHR ''x'' then 1 else 0))"
proof -
  let ?h = "test_hashes ! (if c = CHR ''x'' then 1 else 0)"
  have "length (test_setting_of c) = 29" by (simp add: test_setting_of_def test_setting_def)
  moreover have "list_all (\<lambda>h. length h = 33 \<and> drop 31 h = [NUL, CHR 0x55]) test_hashes" by code_simp
  then have "length ?h = 33" "drop 31 ?h = [NUL, CHR 0x55]" by (auto simp: test_hashes_def)
  then have "take 31 ?h @ [NUL, CHR 0x55] = ?h" "length (take 31 ?h) = 31" by (metis append_take_drop_id, simp)
  moreover have "drop 61 (replicate 62 (CHR 0x55) @ [NUL]) = [CHR 0x55, NUL]" by simp
  ultimately show ?thesis
    unfolding self_test_hash_def test_crypt [OF assms] sum.case Let_def by simp
qed

lemma test_key2_collides: "key_collides test_key2"
proof -
  have "map (key_word ucast test_key2) [0..<18] = map (key_word scast test_key2) [0..<18]"
    by (simp add: upt_rec key_word_def key_byte_def test_key2_chars uchar_def mask_numeral)
  then have "\<forall>i < 18. key_word ucast test_key2 i = key_word scast test_key2 i" by (simp del: upt_Suc)
  moreover have "late_sign test_key2 0" by (simp add: late_sign_def key_byte_def test_key2_chars uchar_def)
  ultimately show ?thesis unfolding key_collides_def by (metis zero_less_numeral)
qed

lemma self_test_key_ok: "self_test_key"
proof -
  let ?w = "spec_words test_key2 False"
  have "NUL \<notin> set test_key2" by (simp add: test_key2_chars)
  note spec = BF_set_key_spec [OF this]
  have k: "BF_set_key test_key2 2 = (?w, spec_initial ?w True)" "BF_set_key test_key2 4 = (?w, spec_initial ?w False)"
    unfolding spec using flag_bits test_key2_collides by (simp_all del: bit_0)
  have l: "length (map2 (XOR) BF_init_P ?w) = 18" by (simp add: spec_words_def)
  have w: "?w ! 17 = 0x33343500" "BF_init_P ! 0 XOR ?w ! 0 = 0xdb9c59bc"
    by (simp_all add: spec_words_def key_word_def key_byte_def test_key2_chars uchar_def BF_init_P_def del: upt_Suc)
  have "map2 (XOR) BF_init_P ?w ! 0 = 0xdb9c59bc" using w(2) by (simp add: spec_words_def del: upt_Suc)
  then show ?thesis
    unfolding self_test_key_def k prod.case Let_def spec_initial_def if_True if_False
    using w(1) l by (simp add: list_update_same_conv xor.assoc)
qed

end
