(* ===== verification/Crypt_Wrapper.thy ===== *)
theory Crypt_Wrapper
  imports Blowfish_Test
begin

text \<open>
  \<^verbatim>\<open>crypt_blowfish/crypt_gensalt.c\<close> (salts of the other kinds of hash) and \<^verbatim>\<open>crypt_blowfish/wrapper.c\<close>, the interface
  \<^verbatim>\<open>bcrypt.c\<close> calls, in the build outside the C library (\<^verbatim>\<open>_LIBC\<close> is not defined).  A function that fills a buffer returns
  the error or success and the string the buffer holds afterwards; what memory allocation answers is an argument.
\<close>

unbundle bit_operations_syntax

section \<open>Salts\<close>

definition crypt_itoa64 :: string where
  "crypt_itoa64 = ''./0123456789ABCDEFGHIJKLMNOPQRSTUVWXYZabcdefghijklmnopqrstuvwxyz''"

type_synonym crypt_result = "(crypt_errno + unit) \<times> string"

definition itoa_digit :: "nat \<Rightarrow> nat \<Rightarrow> char" where
  "itoa_digit v shift = crypt_itoa64 ! unat (drop_bit shift (of_nat v :: 64 word) AND 0x3f)"

text \<open>Three bytes as one value, and its four digits.\<close>

definition input_value :: "bytes \<Rightarrow> nat \<Rightarrow> nat" where
  "input_value input i = of_char (input ! i) + 2 ^ 8 * of_char (input ! (i + 1)) + 2 ^ 16 * of_char (input ! (i + 2))"

definition four_digits :: "nat \<Rightarrow> string" where
  "four_digits v = [itoa_digit v 0, itoa_digit v 6, itoa_digit v 12, itoa_digit v 18]"

definition gensalt_fail :: "string \<Rightarrow> int \<Rightarrow> int \<Rightarrow> crypt_result" where
  "gensalt_fail output output_sz need =
     (Inl (if output_sz < need then ERANGE else EINVAL), if 0 < output_sz then '''' else output)"

definition crypt_gensalt_traditional_rn :: "string \<Rightarrow> nat \<Rightarrow> bytes \<Rightarrow> int \<Rightarrow> string \<Rightarrow> int \<Rightarrow> crypt_result" where
  "crypt_gensalt_traditional_rn pre count input sz output output_sz =
     (if sz < 2 \<or> output_sz < 2 + 1 \<or> (count \<noteq> 0 \<and> count \<noteq> 25) then gensalt_fail output output_sz (2 + 1)
      else (Inr (), [itoa_digit (of_char (input ! 0)) 0, itoa_digit (of_char (input ! 1)) 0]))"

definition crypt_gensalt_extended_rn :: "string \<Rightarrow> nat \<Rightarrow> bytes \<Rightarrow> int \<Rightarrow> string \<Rightarrow> int \<Rightarrow> crypt_result" where
  "crypt_gensalt_extended_rn pre count input sz output output_sz =
     (if sz < 3 \<or> output_sz < 1 + 4 + 4 + 1 \<or> (count \<noteq> 0 \<and> (0xffffff < count \<or> even count))
      then gensalt_fail output output_sz (1 + 4 + 4 + 1)
      else (let n = (if count = 0 then 725 else count)
            in (Inr (), CHR ''_'' # four_digits n @ four_digits (input_value input 0))))"

definition crypt_gensalt_md5_rn :: "string \<Rightarrow> nat \<Rightarrow> bytes \<Rightarrow> int \<Rightarrow> string \<Rightarrow> int \<Rightarrow> crypt_result" where
  "crypt_gensalt_md5_rn pre count input sz output output_sz =
     (if sz < 3 \<or> output_sz < 3 + 4 + 1 \<or> (count \<noteq> 0 \<and> count \<noteq> 1000) then gensalt_fail output output_sz (3 + 4 + 1)
      else (Inr (), ''$1$'' @ four_digits (input_value input 0)
        @ (if 6 \<le> sz \<and> 3 + 4 + 4 + 1 \<le> output_sz then four_digits (input_value input 3) else '''')))"

section \<open>The wrapper\<close>

definition CRYPT_OUTPUT_SIZE :: int where "CRYPT_OUTPUT_SIZE = 7 + 22 + 31 + 1"
definition CRYPT_GENSALT_OUTPUT_SIZE :: int where "CRYPT_GENSALT_OUTPUT_SIZE = 7 + 22 + 1"

text \<open>A buffer the library may enlarge: the string it holds, if there is one, and its size.  \<open>fresh\<close> is what \<^verbatim>\<open>realloc\<close>
  answers: memory with that string in it, or \<^const>\<open>None\<close>.\<close>

type_synonym crypt_buf = "string option \<times> int"

definition crypt_data_alloc :: "crypt_buf \<Rightarrow> int \<Rightarrow> string option \<Rightarrow> int \<times> crypt_buf" where
  "crypt_data_alloc buf need fresh =
     (if fst buf \<noteq> None \<and> need \<le> snd buf then (0, buf)
      else case fresh of None \<Rightarrow> (-1, buf) | Some _ \<Rightarrow> (0, (fresh, need)))"

text \<open>\<^verbatim>\<open>_crypt_retval_magic\<close>: a string in any case; \<^const>\<open>None\<close> would be NULL.\<close>

definition crypt_retval_magic :: "crypt_result \<Rightarrow> string \<Rightarrow> int \<Rightarrow> string option" where
  "crypt_retval_magic r setting sz =
     (case r of
        (Inr _, h) \<Rightarrow> Some h
      | (Inl _, output) \<Rightarrow> (case crypt_output_magic setting output sz of (rc, out) \<Rightarrow> if rc \<noteq> 0 then None else Some out))"

definition wrap_crypt_rn :: "string \<Rightarrow> string \<Rightarrow> string \<Rightarrow> int \<Rightarrow> crypt_result" where
  "wrap_crypt_rn key setting data sz = crypt_blowfish_rn key setting data sz"

definition wrap_crypt_ra :: "string \<Rightarrow> string \<Rightarrow> crypt_buf \<Rightarrow> string option \<Rightarrow> (crypt_errno + unit) \<times> crypt_buf" where
  "wrap_crypt_ra key setting buf fresh =
     (case crypt_data_alloc buf CRYPT_OUTPUT_SIZE fresh of (rc, buf1) \<Rightarrow>
        if rc \<noteq> 0 then (Inl ENOMEM, buf1)
        else (case crypt_blowfish_rn key setting (the (fst buf1)) (snd buf1) of (r, out) \<Rightarrow> (r, (Some out, snd buf1))))"

definition wrap_crypt_r :: "string \<Rightarrow> string \<Rightarrow> string \<Rightarrow> string option" where
  "wrap_crypt_r key setting data =
     crypt_retval_magic (wrap_crypt_rn key setting data CRYPT_OUTPUT_SIZE) setting CRYPT_OUTPUT_SIZE"

text \<open>\<^verbatim>\<open>crypt\<close> uses a static buffer; its content before the call is \<open>output\<close>.\<close>

definition wrap_crypt :: "string \<Rightarrow> string \<Rightarrow> string \<Rightarrow> string option" where
  "wrap_crypt key setting output =
     crypt_retval_magic (wrap_crypt_rn key setting output CRYPT_OUTPUT_SIZE) setting CRYPT_OUTPUT_SIZE"

definition wrap_crypt_gensalt_rn :: "string \<Rightarrow> nat \<Rightarrow> bytes option \<Rightarrow> int \<Rightarrow> string \<Rightarrow> int \<Rightarrow> crypt_result" where
  "wrap_crypt_gensalt_rn pre count input sz output output_sz =
     (case input of
        None \<Rightarrow> (Inl EINVAL, output)
      | Some inp \<Rightarrow>
          if take 4 pre = ''$2a$'' \<or> take 4 pre = ''$2b$'' \<or> take 4 pre = ''$2y$''
          then crypt_gensalt_blowfish_rn pre count inp sz output output_sz
          else if take 3 pre = ''$1$'' then crypt_gensalt_md5_rn pre count inp sz output output_sz
          else if char_at pre 0 = of_char (CHR ''_'') then crypt_gensalt_extended_rn pre count inp sz output output_sz
          else if pre = '''' \<or> (2 \<le> length pre \<and> pre ! 0 \<in> set crypt_itoa64 \<and> pre ! 1 \<in> set crypt_itoa64)
          then crypt_gensalt_traditional_rn pre count inp sz output output_sz
          else (Inl EINVAL, output))"

text \<open>The salt in memory of its own; \<open>dup\<close> tells whether \<^verbatim>\<open>strdup\<close> finds memory, \<open>junk\<close> is what the local buffer holds before.\<close>

definition wrap_crypt_gensalt_ra :: "string \<Rightarrow> nat \<Rightarrow> bytes option \<Rightarrow> int \<Rightarrow> string \<Rightarrow> bool \<Rightarrow> crypt_errno + string" where
  "wrap_crypt_gensalt_ra pre count input sz junk dup =
     (case wrap_crypt_gensalt_rn pre count input sz junk CRYPT_GENSALT_OUTPUT_SIZE of
        (Inl e, _) \<Rightarrow> Inl e
      | (Inr _, out) \<Rightarrow> if dup then Inr out else Inl ENOMEM)"

definition wrap_crypt_gensalt :: "string \<Rightarrow> nat \<Rightarrow> bytes option \<Rightarrow> int \<Rightarrow> string \<Rightarrow> crypt_result" where
  "wrap_crypt_gensalt pre count input sz output = wrap_crypt_gensalt_rn pre count input sz output CRYPT_GENSALT_OUTPUT_SIZE"

text \<open>What \<^verbatim>\<open>bcrypt.c\<close> sees of it.\<close>

definition result_string :: "crypt_result \<Rightarrow> string option" where
  "result_string r = (case r of (Inl _, _) \<Rightarrow> None | (Inr _, out) \<Rightarrow> Some out)"

definition blowfish_api :: crypt_api where
  "blowfish_api = \<lparr>crypt_rn = (\<lambda>pw st k. result_string (wrap_crypt_rn pw st '''' (int k))),
     crypt_gensalt_rn = (\<lambda>p w i k. result_string (wrap_crypt_gensalt_rn p (nat w) (Some i) (int RANDBYTES) '''' (int k)))\<rparr>"

section \<open>Hashing\<close>

text \<open>The self-test always succeeds, so the result is the one of \<^const>\<open>BF_crypt\<close>.\<close>

lemma good_kind: "97 \<le> n \<Longrightarrow> n \<le> 122 \<Longrightarrow> flags_by_subtype ! (n - 97) \<noteq> 0 \<Longrightarrow> n \<in> {97, 98, 120, 121 :: nat}"
proof -
  assume n: "97 \<le> n" "n \<le> 122" and f: "flags_by_subtype ! (n - 97) \<noteq> 0"
  have "\<forall>k \<in> set [0..<26]. flags_by_subtype ! k \<noteq> 0 \<longrightarrow> k = 0 \<or> k = 1 \<or> k = 23 \<or> k = 24" by code_simp
  moreover have "n - 97 \<in> set [0..<26]" using n by simp
  ultimately have "n - 97 = 0 \<or> n - 97 = 1 \<or> n - 97 = 23 \<or> n - 97 = 24" using f by blast
  then show ?thesis using n(1) by auto
qed

lemma good_subtype:
  assumes "\<not> bad_setting s"
  shows "s ! 2 \<in> hash_kinds" and "unat (subtype_flags s AND 1) = (if s ! 2 = CHR ''x'' then 1 else 0)" and "3 \<le> length s"
proof -
  have c: "97 \<le> char_at s 2" "char_at s 2 \<le> 122" "flags_by_subtype ! (char_at s 2 - 97) \<noteq> 0"
    using assms by (auto simp: bad_setting_def subtype_flags_def)
  then show "3 \<le> length s" by (auto simp: char_at_def split: if_splits)
  then have s: "char_at s 2 = of_char (s ! 2)" by (simp add: char_at_def)
  have n: "char_at s 2 \<in> {97, 98, 120, 121}" by (rule good_kind [OF c])
  have "of_char (s ! 2) = (of_char d :: nat) \<Longrightarrow> s ! 2 = d" for d by (simp only: of_char_eq_iff)
  from this [of "CHR ''a''"] this [of "CHR ''b''"] this [of "CHR ''x''"] this [of "CHR ''y''"] n s
  have k: "s ! 2 = CHR ''a'' \<or> s ! 2 = CHR ''b'' \<or> s ! 2 = CHR ''x'' \<or> s ! 2 = CHR ''y''" by auto
  then show "s ! 2 \<in> hash_kinds" by (auto simp: hash_kinds_def)
  show "unat (subtype_flags s AND 1) = (if s ! 2 = CHR ''x'' then 1 else 0)"
    using k by (auto simp: subtype_flags_def s flags_by_subtype_def)
qed

lemma crypt_blowfish_rn_eq:
  "crypt_blowfish_rn key setting output sz
     = (case BF_crypt key setting sz 16 of
          Inl e \<Rightarrow> (Inl e, snd (crypt_output_magic setting output sz)) | Inr h \<Rightarrow> (Inr (), h))"
proof (cases "BF_crypt key setting sz 16")
  case (Inl e)
  have "self_test_hash test_setting (test_hashes ! 0)"
    using self_test_hash_ok [of "CHR ''a''"] by (simp add: hash_kinds_def test_setting_of_def test_setting_def)
  then show ?thesis by (simp add: crypt_blowfish_rn_def Inl self_test_key_ok)
next
  case (Inr h)
  then have "\<not> bad_setting setting" by (auto simp: BF_crypt_cases split: if_splits)
  note g = good_subtype [OF this]
  have "self_test_hash (test_setting[2 := setting ! 2]) (test_hashes ! unat (subtype_flags setting AND 1))"
    unfolding g(2) test_setting_of_def [symmetric] by (rule self_test_hash_ok [OF g(1)])
  then show ?thesis by (simp add: crypt_blowfish_rn_def Inr self_test_key_ok)
qed


lemma api_crypt_rn: "crypt_rn blowfish_api pw st k = (case BF_crypt pw st (int k) 16 of Inl _ \<Rightarrow> None | Inr h \<Rightarrow> Some h)"
  by (simp add: blowfish_api_def wrap_crypt_rn_def result_string_def crypt_blowfish_rn_eq split: sum.splits)

text \<open>A hash is its own setting and fits the buffer.\<close>

lemma blowfish_rehash:
  assumes "crypt_rn blowfish_api pw st k = Some h"
  shows "crypt_rn blowfish_api pw h k = Some h" and "length h < k" and "length h = 60"
  using assms BF_crypt_rehash [of pw st "int k" 16 h] by (auto simp: api_crypt_rn split: sum.splits)

text \<open>A failed call leaves a string that differs from the setting, so a comparison of the two never succeeds; \<^verbatim>\<open>crypt\<close> returns it.\<close>

lemma magic_differs: "3 \<le> sz \<Longrightarrow> snd (crypt_output_magic setting output sz) \<noteq> setting"
  by (auto simp: crypt_output_magic_def char_at_def)

lemma wrap_crypt_total:
  "wrap_crypt key setting output
     = Some (case BF_crypt key setting 61 16 of Inl _ \<Rightarrow> snd (crypt_output_magic setting '''' 61) | Inr h \<Rightarrow> h)"
  by (auto simp: wrap_crypt_def wrap_crypt_rn_def CRYPT_OUTPUT_SIZE_def crypt_blowfish_rn_eq crypt_retval_magic_def
      crypt_output_magic_def split: sum.splits)

lemma wrap_crypt_failed: "BF_crypt key setting 61 16 = Inl e \<Longrightarrow> wrap_crypt key setting output \<noteq> Some setting"
  using magic_differs [of 61 setting "''''"] by (simp add: wrap_crypt_total)

section \<open>Generated salts\<close>

definition blowfish_salt :: "string \<Rightarrow> nat \<Rightarrow> bytes \<Rightarrow> string" where
  "blowfish_salt pre n input =
     [CHR ''$'', CHR ''2'', pre ! 2, CHR ''$'', digit_char (n div 10), digit_char (n mod 10), CHR ''$''] @ BF_encode (map uchar input)"

lemma api_gensalt:
  assumes "4 \<le> w" and "w \<le> 31" and "length input = 16" and "30 \<le> k"
  shows "crypt_gensalt_rn blowfish_api ''$2a$'' w input k = Some (blowfish_salt ''$2a$'' (nat w) input)"
  using assms zless_nat_eq_int_zless [of 31 w] nat_less_iff [of w 4]
  by (simp add: blowfish_api_def wrap_crypt_gensalt_rn_def crypt_gensalt_blowfish_rn_def blowfish_salt_def RANDBYTES_def
      result_string_def char_at_def Let_def)

lemma unat_shift_one: "n \<le> 31 \<Longrightarrow> unat (push_bit n 1 :: u32) = 2 ^ n"
proof -
  assume "n \<le> 31"
  then have "(2 :: nat) ^ n < 2 ^ 32" by (intro power_strict_increasing) simp_all
  then have "unat (of_nat (2 ^ n) :: u32) = 2 ^ n" by (simp only: unat_of_nat) simp
  then show ?thesis by (simp add: push_bit_eq_mult)
qed

lemma cost_16: "n \<le> 31 \<Longrightarrow> (16 \<le> (push_bit n 1 :: u32)) \<longleftrightarrow> 4 \<le> n"
proof -
  assume "n \<le> 31"
  note u = unat_shift_one [OF this]
  have "(2 :: nat) ^ 4 \<le> 2 ^ n \<longleftrightarrow> 4 \<le> n" by (rule power_increasing_iff) simp
  then show ?thesis unfolding word_le_nat_alt u by simp
qed

lemma blowfish_salt_accepted:
  assumes "4 \<le> n" and "n \<le> 31" and "length input = 16"
  shows "\<not> bad_setting (blowfish_salt ''$2a$'' n input)" and "16 \<le> setting_count (blowfish_salt ''$2a$'' n input)"
    and "BF_decode (drop 7 (blowfish_salt ''$2a$'' n input)) 16 = Some (map uchar input)"
proof -
  let ?s = "blowfish_salt ''$2a$'' n input"
  have "10 * (n div 10) + n mod 10 = n" by simp
  then have d: "n div 10 < 10" "n mod 10 < 10" "n div 10 \<le> 3" "n div 10 = 3 \<longrightarrow> n mod 10 \<le> 1" using assms(1,2) by linarith+
  have c: "char_at ?s 0 = 36" "char_at ?s (Suc 0) = 50" "char_at ?s 2 = 97" "char_at ?s 3 = 36" "char_at ?s 4 = 48 + n div 10"
    "char_at ?s 5 = 48 + n mod 10" "char_at ?s 6 = 36"
    using d(1,2) by (simp_all add: blowfish_salt_def char_at_def)
  show "\<not> bad_setting ?s"
    using d by (auto simp: bad_setting_def c subtype_flags_def flags_by_subtype_def)
  have "(n div 10) * 10 + n mod 10 = n" by simp
  then have "setting_count ?s = push_bit n 1" by (simp add: setting_count_def c)
  then show "16 \<le> setting_count ?s" using cost_16 [OF assms(2)] assms(1) by simp
  have "input \<noteq> []" using assms(3) by auto
  then show "BF_decode (drop 7 ?s) 16 = Some (map uchar input)"
    using BF_decode_encode [of "map uchar input" "[]"] assms(3) by (auto simp: blowfish_salt_def)
qed

text \<open>What a generator writes fits its buffer.\<close>

lemma gensalt_fits:
  assumes "wrap_crypt_gensalt_rn pre count (Some input) sz output output_sz = (Inr (), salt)" and "16 \<le> length input"
  shows "int (length salt) < output_sz"
  using assms
  by (auto simp: wrap_crypt_gensalt_rn_def crypt_gensalt_blowfish_rn_def crypt_gensalt_md5_rn_def crypt_gensalt_extended_rn_def
      crypt_gensalt_traditional_rn_def gensalt_fail_def four_digits_def length_BF_encode Let_def split: if_splits)

end
