(* ===== verification/Passwords.thy ===== *)
theory Passwords
  imports Crypt_Wrapper Srvdb_Account
begin

text \<open>
  The accounts of the server over the real hash: \<open>crypt_law\<close> is interpreted on \<^const>\<open>blowfish_api\<close>, the model of the
  sources under \<^verbatim>\<open>libbcrypt/crypt_blowfish\<close>, so what the server relies on is no assumption.  Salts are always generated,
  passwords always hashed, a registration is followed by a login (C13, C14); when the hash fails (C17), and what it makes of
  the characters of a password (C21).
\<close>

unbundle bit_operations_syntax

interpretation bf: crypt_law blowfish_api
  by unfold_locales (fact blowfish_rehash)+

section \<open>Valid settings\<close>

text \<open>The form of a setting that is documented in \<^verbatim>\<open>crypt.3\<close>: \<^verbatim>\<open>$2a$\<close> or another kind, a cost from 04 to 31, 22 digits of salt.\<close>

definition setting_cost :: "string \<Rightarrow> nat" where
  "setting_cost s = 10 * digit_val (s ! 4) + digit_val (s ! 5)"

definition valid_setting :: "string \<Rightarrow> bool" where
  "valid_setting s \<longleftrightarrow> 29 \<le> length s \<and> s ! 0 = CHR ''$'' \<and> s ! 1 = CHR ''2'' \<and> s ! 2 \<in> set ''abxy'' \<and> s ! 3 = CHR ''$''
     \<and> is_digit (s ! 4) \<and> is_digit (s ! 5) \<and> 4 \<le> setting_cost s \<and> setting_cost s \<le> 31 \<and> s ! 6 = CHR ''$''
     \<and> list_all (\<lambda>c. c \<in> set BF_itoa64) (take 22 (drop 7 s))"

lemma atoi_defined: "BF_safe_atoi64 c \<noteq> None \<longleftrightarrow> c \<in> set BF_itoa64"
proof
  assume "BF_safe_atoi64 c \<noteq> None"
  then obtain v where "BF_char v = c" "v < 64" using itoa_atoi by blast
  then show "c \<in> set BF_itoa64" by (auto simp: BF_char_def word_less_nat_alt)
next
  assume "c \<in> set BF_itoa64"
  then have "BF_safe_atoi64 c \<in> set (map BF_safe_atoi64 BF_itoa64)" by simp
  then show "BF_safe_atoi64 c \<noteq> None" unfolding atoi_alphabet by auto
qed

lemma digits_decode: "digits_ok (4 * n + 2) src \<Longrightarrow> \<exists>bs. BF_decode src (3 * n + 1) = Some bs"
proof (induction n arbitrary: src)
  case 0
  then obtain x1 x2 xs where s: "src = x1 # x2 # xs" by (auto simp: digits_ok_def numeral_eq_Suc Suc_le_length_iff)
  then show ?case using 0 by (auto simp: digits_ok_def decode_one)
next
  case (Suc n)
  have e: "4 * Suc n + 2 = Suc (Suc (Suc (Suc (4 * n + 2))))" "3 * Suc n + 1 = Suc (Suc (Suc (3 * n + 1)))" by simp_all
  obtain x1 x2 x3 x4 xs where s: "src = x1 # x2 # x3 # x4 # xs"
    using Suc.prems by (auto simp: digits_ok_def numeral_eq_Suc Suc_le_length_iff)
  have d: "digits_ok (4 * n + 2) xs" and "list_all (\<lambda>c. BF_safe_atoi64 c \<noteq> None) [x1, x2, x3, x4]"
    using Suc.prems unfolding e s digits_ok_def by simp_all
  then obtain c1 c2 c3 c4 where "BF_safe_atoi64 x1 = Some c1" "BF_safe_atoi64 x2 = Some c2" "BF_safe_atoi64 x3 = Some c3" "BF_safe_atoi64 x4 = Some c4"
    by auto
  from decode_three [OF this] Suc.IH [OF d] show ?case unfolding e s by auto
qed

lemma decode_iff: "BF_decode src 16 \<noteq> None \<longleftrightarrow> digits_ok 22 src"
  using BF_encode_decode [of src 5] digits_decode [of 5 src] by auto

lemma char_code: "of_char c = (36 :: nat) \<longleftrightarrow> c = CHR ''$''" "of_char c = (50 :: nat) \<longleftrightarrow> c = CHR ''2''"
  using of_char_eq_iff [of c "CHR ''$''", where 'a = nat] of_char_eq_iff [of c "CHR ''2''", where 'a = nat] by simp_all

lemma kind_iff:
  assumes "3 \<le> length s"
  shows "(97 \<le> char_at s 2 \<and> char_at s 2 \<le> 122 \<and> subtype_flags s \<noteq> 0) \<longleftrightarrow> s ! 2 \<in> set ''abxy''"
proof
  assume "97 \<le> char_at s 2 \<and> char_at s 2 \<le> 122 \<and> subtype_flags s \<noteq> 0"
  then have "char_at s 2 \<in> {97, 98, 120, 121}" using good_kind [of "char_at s 2"] by (simp add: subtype_flags_def)
  then have "of_char (s ! 2) \<in> (of_char ` {CHR ''a'', CHR ''b'', CHR ''x'', CHR ''y''} :: nat set)" using assms by (simp add: char_at_def)
  then show "s ! 2 \<in> set ''abxy''" by (auto simp: of_char_eq_iff simp del: of_char_Char)
next
  assume "s ! 2 \<in> set ''abxy''"
  then show "97 \<le> char_at s 2 \<and> char_at s 2 \<le> 122 \<and> subtype_flags s \<noteq> 0"
    using assms by (auto simp: char_at_def subtype_flags_def flags_by_subtype_def)
qed

lemma count_cost:
  assumes "6 \<le> length s"
  shows "setting_count s = push_bit (setting_cost s) 1"
  using assms by (simp add: setting_count_def setting_cost_def digit_val_def char_at_def mult.commute)

lemma cost_iff:
  assumes "29 \<le> length s"
  shows "(\<not> (char_at s 4 < 48 \<or> 51 < char_at s 4 \<or> char_at s 5 < 48 \<or> 57 < char_at s 5 \<or> (char_at s 4 = 51 \<and> 49 < char_at s 5)) \<and> 16 \<le> setting_count s)
    \<longleftrightarrow> is_digit (s ! 4) \<and> is_digit (s ! 5) \<and> 4 \<le> setting_cost s \<and> setting_cost s \<le> 31"
proof -
  have c: "char_at s 4 = of_char (s ! 4)" "char_at s 5 = of_char (s ! 5)" using assms by (simp_all add: char_at_def)
  have n: "(char_at s 4 - 48) * 10 + (char_at s 5 - 48) = setting_cost s" by (simp add: setting_cost_def digit_val_def c)
  have "\<not> (char_at s 4 < 48 \<or> 51 < char_at s 4 \<or> char_at s 5 < 48 \<or> 57 < char_at s 5 \<or> (char_at s 4 = 51 \<and> 49 < char_at s 5))
      \<longleftrightarrow> is_digit (s ! 4) \<and> is_digit (s ! 5) \<and> setting_cost s \<le> 31"
    unfolding n [symmetric] is_digit_def c by auto
  moreover have "setting_cost s \<le> 31 \<Longrightarrow> 16 \<le> setting_count s \<longleftrightarrow> 4 \<le> setting_cost s"
    using cost_16 [of "setting_cost s"] count_cost [of s] assms by simp
  ultimately show ?thesis by blast
qed

lemma valid_setting_iff: "valid_setting s \<longleftrightarrow> \<not> bad_setting s \<and> 16 \<le> setting_count s \<and> BF_decode (drop 7 s) 16 \<noteq> None"
proof (cases "29 \<le> length s")
  case True
  then have c: "char_at s i = of_char (s ! i)" if "i < 29" for i using that by (simp add: char_at_def)
  have k: "3 \<le> length s" using True by linarith
  have d: "digits_ok 22 (drop 7 s) \<longleftrightarrow> list_all (\<lambda>c. c \<in> set BF_itoa64) (take 22 (drop 7 s))"
    using True by (simp only: digits_ok_def atoi_defined) auto
  have z: "s ! 0 = CHR ''$'' \<longleftrightarrow> char_at s 0 = 36" "s ! 1 = CHR ''2'' \<longleftrightarrow> char_at s 1 = 50" "s ! 3 = CHR ''$'' \<longleftrightarrow> char_at s 3 = 36"
    "s ! 6 = CHR ''$'' \<longleftrightarrow> char_at s 6 = 36" by (simp_all add: c char_code)
  show ?thesis
    unfolding valid_setting_def decode_iff d bad_setting_def z kind_iff [OF k, symmetric] not_le [symmetric]
    using cost_iff [OF True, unfolded not_le [symmetric]] True by blast
next
  case False
  then have "\<not> digits_ok 22 (drop 7 s)" by (auto simp: digits_ok_def)
  with False show ?thesis by (simp only: valid_setting_def decode_iff) auto
qed

section \<open>Salts and hashes never fail\<close>

text \<open>The operating system delivers sixteen random bytes and closes the device.\<close>

definition entropy_ok :: "entropy \<Rightarrow> bool" where
  "entropy_ok ent \<longleftrightarrow> ent_open ent \<and> map_option fst (try_read RANDBYTES [] (ent_reads ent)) = Some 0
     \<and> map_option fst (try_close (ent_closes ent)) = Some 0"

lemma gensalt_total:
  assumes "entropy_ok ent"
  obtains salt where "bcrypt_gensalt blowfish_api ent factor = Some (0, salt)" and "valid_setting salt"
proof -
  obtain input cs where i: "try_read RANDBYTES [] (ent_reads ent) = Some (0, input)" "try_close (ent_closes ent) = Some (0, cs)"
    using assms by (auto simp: entropy_ok_def)
  then have l: "length input = 16" using try_read_bytes [OF i(1)] by (simp add: RANDBYTES_def)
  define w where "w = (if factor < 4 \<or> 31 < factor then 12 else factor)"
  have w: "4 \<le> w" "w \<le> 31" "4 \<le> nat w" "nat w \<le> 31" by (auto simp: w_def)
  have "bcrypt_gensalt blowfish_api ent factor = Some (0, blowfish_salt ''$2a$'' (nat w) input)"
    using assms i api_gensalt [OF w(1,2) l, of BCRYPT_HASHSIZE]
    by (simp add: bcrypt_gensalt_def entropy_ok_def w_def [symmetric] Let_def BCRYPT_HASHSIZE_def)
  moreover have "valid_setting (blowfish_salt ''$2a$'' (nat w) input)"
    using blowfish_salt_accepted [OF w(3,4) l] by (simp add: valid_setting_iff)
  ultimately show thesis by (rule that)
qed

lemma BF_crypt_valid:
  assumes "valid_setting s" and "61 \<le> sz"
  obtains bs where "BF_decode (drop 7 s) 16 = Some bs"
    and "\<And>pw. BF_crypt pw s sz 16 = Inr (take 7 s @ BF_encode bs @ BF_tail pw (subtype_flags s) bs (setting_count s))"
  using assms BF_crypt_salted(1) [of sz s 16] by (auto simp: valid_setting_iff)

lemma hashpw_total:
  assumes "valid_setting salt"
  obtains h where "bcrypt_hashpw blowfish_api pw salt = (0, h)" and "length h = 60"
    and "\<And>pw'. bcrypt_hashpw blowfish_api pw' h = bcrypt_hashpw blowfish_api pw' salt"
proof -
  obtain bs where bs: "BF_decode (drop 7 salt) 16 = Some bs"
    and c: "\<And>pw. BF_crypt pw salt (int BCRYPT_HASHSIZE) 16 = Inr (take 7 salt @ BF_encode bs @ BF_tail pw (subtype_flags salt) bs (setting_count salt))"
    using BF_crypt_valid [OF assms, of "int BCRYPT_HASHSIZE"] by (auto simp: BCRYPT_HASHSIZE_def)
  define h where "h = take 7 salt @ BF_encode bs @ BF_tail pw (subtype_flags salt) bs (setting_count salt)"
  have b: "bcrypt_hashpw blowfish_api pw' salt = (0, take 7 salt @ BF_encode bs @ BF_tail pw' (subtype_flags salt) bs (setting_count salt))" for pw'
    by (simp add: bcrypt_hashpw_def api_crypt_rn c)
  have h: "BF_crypt pw salt (int BCRYPT_HASHSIZE) 16 = Inr h" by (simp add: c h_def)
  note r = BF_crypt_rehash [OF h]
  have l: "7 \<le> length salt" "length bs = 16" using assms BF_encode_decode [of "drop 7 salt" 5 bs] bs by (simp_all add: valid_setting_def)
  note p = setting_prefix [OF l(1), of "BF_encode bs @ BF_tail pw (subtype_flags salt) bs (setting_count salt)", folded h_def]
  have t: "length (take 7 salt) = 7" "bs \<noteq> []" using l by auto
  have "BF_decode (drop 7 h) 16 = Some bs" using BF_decode_encode [OF t(2)] l(2) unfolding h_def drop_append_exact [OF t(1)] by simp
  moreover have "take 7 h = take 7 salt" using t(1) by (simp add: h_def)
  ultimately have "BF_crypt pw' h (int BCRYPT_HASHSIZE) 16 = BF_crypt pw' salt (int BCRYPT_HASHSIZE) 16" for pw'
    by (simp add: BF_crypt_cases p bs)
  then have "bcrypt_hashpw blowfish_api pw' h = bcrypt_hashpw blowfish_api pw' salt" for pw'
    by (simp add: bcrypt_hashpw_def api_crypt_rn)
  with b r(2) show thesis using that [of h] by (simp add: h_def)
qed

lemma checkpw_0: "bcrypt_checkpw cr pw h = 0 \<longleftrightarrow> bcrypt_hashpw cr pw h = (0, h)"
  by (auto simp: bcrypt_checkpw_def bcrypt_hashpw_def timing_safe_strcmp_0 split: option.splits)

lemma new_hash_total:
  assumes "entropy_ok ent"
  obtains h where "new_hash blowfish_api ent pw = Some (Some h)"
proof -
  obtain salt where s: "bcrypt_gensalt blowfish_api ent BCRYPT_WORK_FACTOR = Some (0, salt)" "valid_setting salt"
    using gensalt_total [OF assms] by blast
  obtain h where "bcrypt_hashpw blowfish_api pw salt = (0, h)" using hashpw_total [OF s(2)] by blast
  with s(1) show thesis using that by (simp add: new_hash_def)
qed

text \<open>The string that stands for a failure.\<close>

lemma magic_text: "61 \<le> sz \<Longrightarrow> snd (crypt_output_magic setting output sz) = (if take 2 setting = ''*0'' then ''*1'' else ''*0'')"
proof -
  have "of_char c = (42 :: nat) \<longleftrightarrow> c = CHR ''*''" "of_char c = (48 :: nat) \<longleftrightarrow> c = CHR ''0''" for c
    using of_char_eq_iff [of c "CHR ''*''", where 'a = nat] of_char_eq_iff [of c "CHR ''0''", where 'a = nat] by simp_all
  moreover assume "61 \<le> sz"
  ultimately show ?thesis by (cases setting; cases "tl setting") (auto simp: crypt_output_magic_def char_at_def)
qed

section \<open>Properties\<close>

text \<open>C13: on a working database with room for an account, and with random numbers at hand, the registration of a new
  name succeeds; from then on a login with this name and type succeeds exactly with the passwords that have the stored hash,
  the registered password among them.  The name is shorter than 32 bytes (half the buffer the server escapes it into).\<close>

theorem register_then_login:
  assumes "mysql_up api dia db_of" and "accounts (srv_data db_of s) = Some rows" and "accounts_ok dia rows"
    and "int (length rows) < MAX_USER_NUM" and "filter (same_name dia (a_name (account_of m))) rows = []"
    and "entropy_ok ent" and "m_user m \<noteq> ''''" and "length (a_name (account_of m)) < 32"
  shows "\<exists>h s'. srvdb_account_register api blowfish_api ent s m = Some (True, m, s')
    \<and> bcrypt_checkpw blowfish_api (a_password (account_of m)) h = 0
    \<and> (\<forall>v. a_name (account_of v) = a_name (account_of m) \<and> a_type (account_of v) = a_type (account_of m) \<and> m_user v \<noteq> '''' \<longrightarrow>
        (\<exists>v' s''. srvdb_account_verify api blowfish_api s' v
            = Some (bcrypt_checkpw blowfish_api (a_password (account_of v)) h = 0, v', s'')
          \<and> srv_data db_of s'' = srv_data db_of s'))"
proof -
  obtain h where h: "new_hash blowfish_api ent (a_password (account_of m)) = Some (Some h)"
    using new_hash_total [OF assms(6)] .
  then have "bcrypt_checkpw blowfish_api (a_password (account_of m)) h = 0" by (rule bf.new_hash_check)
  then show ?thesis
    using mysql_up.register_and_verify [OF assms(1) bf.crypt_law_axioms assms(2-5) h assms(7,8)] by metis
qed

theorem register_then_login_witness:
  "\<exists>s' v' s''. srvdb_account_register ref_up_api blowfish_api sample_entropy (sample_srv []) (sample_msg (Account_un sample_account))
       = Some (True, sample_msg (Account_un sample_account), s')
     \<and> srvdb_account_verify ref_up_api blowfish_api s' (sample_msg (Account_un sample_account)) = Some (True, v', s'')"
proof -
  let ?m = "sample_msg (Account_un sample_account)"
  have e: "entropy_ok sample_entropy" by code_simp
  have ok: "accounts_ok ref_dialect []" by (simp add: accounts_ok_def limits)
  have m: "m_user ?m \<noteq> ''''" "length (a_name (account_of ?m)) < 32" by (simp_all add: sample_msg_def sample_account_def)
  have r: "int (length []) < MAX_USER_NUM" "filter (same_name ref_dialect (a_name (account_of ?m))) [] = []" by (simp_all add: limits)
  obtain h s' where run: "srvdb_account_register ref_up_api blowfish_api sample_entropy (sample_srv []) ?m = Some (True, ?m, s')"
    and h: "bcrypt_checkpw blowfish_api (a_password (account_of ?m)) h = 0"
    and v: "\<exists>v' s''. srvdb_account_verify ref_up_api blowfish_api s' ?m
      = Some (bcrypt_checkpw blowfish_api (a_password (account_of ?m)) h = 0, v', s'') \<and> srv_data rdb s'' = srv_data rdb s'"
    using register_then_login [OF up.mysql_up_axioms sample_accounts ok r e m] m(1) by blast
  from v obtain v' s'' where "srvdb_account_verify ref_up_api blowfish_api s' ?m
      = Some (bcrypt_checkpw blowfish_api (a_password (account_of ?m)) h = 0, v', s'')" by blast
  with run h show ?thesis by simp
qed



text \<open>C17: \<^verbatim>\<open>crypt_rn\<close> fails exactly when the buffer is too small or the setting is not of the documented form, and then
  leaves the string that differs from every setting it is given; otherwise it returns kind, cost and salt of the setting, the salt in
  its canonical form, and the digits of the hash.  The self-test never stands in the way.\<close>

theorem crypt_rn_correct:
  "wrap_crypt_rn key setting output sz =
     (if sz < 61 then (Inl ERANGE, snd (crypt_output_magic setting output sz))
      else if \<not> valid_setting setting then (Inl EINVAL, if take 2 setting = ''*0'' then ''*1'' else ''*0'')
      else (let salt = the (BF_decode (drop 7 setting) 16);
                hash = BF_hash key (subtype_flags setting) (BF_swap (bytes_words salt)) (2 ^ setting_cost setting)
            in (Inr (), take 7 setting @ BF_encode salt @ BF_encode (take 23 (concat (map word_bytes (BF_swap hash)))))))"
proof (cases "sz < 61 \<or> \<not> valid_setting setting")
  case True
  then show ?thesis
    by (auto simp: wrap_crypt_rn_def crypt_blowfish_rn_eq BF_crypt_cases valid_setting_iff magic_text split: option.splits)
next
  case False
  then have v: "valid_setting setting" "61 \<le> sz" by simp_all
  obtain salt where s: "BF_decode (drop 7 setting) 16 = Some salt"
    and c: "BF_crypt key setting sz 16 = Inr (take 7 setting @ BF_encode salt @ BF_tail key (subtype_flags setting) salt (setting_count setting))"
    using BF_crypt_valid [OF v] by metis
  have "unat (setting_count setting) = 2 ^ setting_cost setting"
    using v(1) count_cost [of setting] unat_shift_one by (simp add: valid_setting_def)
  with False s c show ?thesis by (simp add: wrap_crypt_rn_def crypt_blowfish_rn_eq BF_tail_def Let_def)
qed

text \<open>C21: \<^verbatim>\<open>BF_set_key\<close> makes the subkeys of the characters of the password and its terminating NUL, repeated, four
  to a word; with bit 0 of the flags they are read as signed characters, as older versions did by mistake; with bit 1 one bit
  of the first subkey is flipped exactly for the passwords that an older version could confuse with another one.  The words used in the main loop are never changed.\<close>

theorem set_key_safety:
  assumes "NUL \<notin> set key"
  shows "BF_set_key key flags = (let ws = map (key_word (if bit flags 0 then scast else ucast) key) [0..<18]; P = map2 (XOR) BF_init_P ws
    in (ws, if bit flags 1 \<and> (\<forall>i < 18. key_word ucast key i = key_word scast key i) \<and> (\<exists>i < 18. late_sign key i)
            then P[0 := P ! 0 XOR 0x10000] else P))"
  using BF_set_key_spec [OF assms, of flags] by (simp add: spec_words_def spec_initial_def key_collides_def Let_def)

theorem set_key_safety_witness:
  "snd (BF_set_key test_key2 2) ! 0 = snd (BF_set_key test_key2 4) ! 0 XOR 0x10000 \<and> fst (BF_set_key test_key2 2) = fst (BF_set_key test_key2 4)"
proof -
  have "NUL \<notin> set test_key2" by (simp add: test_key2_chars)
  note s = set_key_safety [OF this]
  show ?thesis
    unfolding s using test_key2_collides flag_bits by (simp add: key_collides_def Let_def del: bit_0 upt_Suc)
qed
end
