(* ===== verification/Spec2Isabelle.thy ===== *)
theory Spec2Isabelle
  imports Paging Page_Runs Passwords
begin

text \<open>
  \<^bold>\<open>bookshelfdq\<close>: a bookshelf manager.  A server (\<^verbatim>\<open>src/bsdqserver\<close>) keeps the shelves, books and accounts of
  several users in MySQL; a terminal client (\<^verbatim>\<open>src/bsdqclient\<close>) shows and changes them and keeps a cache on
  disk.  Both ends exchange AES-encrypted C structures over TCP.

  \<^bold>\<open>How the parts interact.\<close>  The user interface (\<^verbatim>\<open>ncgui.c\<close>) calls the request functions of \<^verbatim>\<open>clishell.c\<close>, which
  fill a \<^verbatim>\<open>message_cs_t\<close>, hand it to \<^verbatim>\<open>socketcli.c\<close> (encrypt, send, wait for answers) and put what comes back into
  the cache of \<^verbatim>\<open>clidb.c\<close>; a thread sends heartbeats.  The server's \<^verbatim>\<open>main\<close> waits in \<^verbatim>\<open>socketsrv.c\<close> for
  descriptors, decrypts one message per ready client and dispatches it to \<^verbatim>\<open>srvdb.c\<close>, which talks to MySQL and
  leaves its answer in the same message; searches are answered by one message per row.

  \<^bold>\<open>Theories, in the order of the calls.\<close>

  \<^item> \<open>Prelude\<close>: C strings, \<^verbatim>\<open>printf\<close>/\<^verbatim>\<open>sscanf\<close> of integers, lists.  \<open>Clisrv\<close>: \<^verbatim>\<open>clisrv.h\<close>, the structures as
    records, the union as a datatype, and the memory layout that is the wire format.
  \<^item> \<open>Mysql\<close>: the statements of \<^verbatim>\<open>srvdb.c\<close> as a datatype, their documented effect \<open>sql_exec\<close>, the library as the
    parameter \<open>api\<close>; the locale \<open>mysql_server\<close> (every statement fails without effect or has its documented
    effect) and \<open>mysql_up\<close> (well-formed statements do not fail), both interpreted on an executable engine.
  \<^item> \<open>Numbered\<close>: the contract of a table that reuses deleted numbers, interpreted for books and for shelves.
    \<open>Srvdb_Conn\<close>, \<open>Srvdb_Book\<close>, \<open>Srvdb_Search\<close>, \<open>Srvdb_Shelf\<close>, \<open>Srvdb_Account\<close>: \<^verbatim>\<open>srvdb.c\<close>, one definition per
    function (long functions in the steps the source has).  The abstract state is the catalogue
    (\<open>catalog\<close>, \<open>shelf_catalog\<close>) or the set of accounts, and the refinement theorems C1 to C12 give the
    effect of every operation on it, on a working database and under arbitrary failures.
  \<^item> \<open>Bcrypt\<close>: \<^verbatim>\<open>libbcrypt/bcrypt.c\<close>.  \<open>Aes\<close>: \<^verbatim>\<open>aes/aes_options.c\<close> and \<^verbatim>\<open>aes/gen_aes_key.c\<close>.
  \<^item> \<open>Blowfish_Tables\<close>, \<open>Crypt_Blowfish\<close>: \<^verbatim>\<open>crypt_blowfish.c\<close>, one definition per function and macro, on 32-bit words.
    \<open>Crypt_Laws\<close>: base 64, the form of settings and hashes, the key schedule against a reference.  \<open>Blowfish_Nibbles\<close> and
    \<open>Blowfish_Refine\<close>: the cipher on hexadecimal digits, and that it refines the original, so that \<open>Blowfish_Test\<close> computes
    the self-test of \<^verbatim>\<open>_crypt_blowfish_rn\<close> by rewriting: both hashes of the source come out.  \<open>Crypt_Wrapper\<close>: \<^verbatim>\<open>wrapper.c\<close>
    and \<^verbatim>\<open>crypt_gensalt.c\<close>, the instance \<open>blowfish_api\<close> of what \<^verbatim>\<open>bcrypt.c\<close> calls.  \<open>Passwords\<close>: the locale \<open>crypt_law\<close> of
    \<open>Srvdb_Account\<close> interpreted on it, and registration, login and hashing on the real hash (C13, C14, C17, C21).
  \<^item> \<open>Socketsrv\<close>: \<^verbatim>\<open>socketsrv.c\<close>, the descriptor bookkeeping (C27) and the request handler.  \<open>Server\<close>:
    \<^verbatim>\<open>srvshell.c\<close> and \<^verbatim>\<open>bsdq_server.c\<close>, the start and the main loop as the step relation \<open>srv_step\<close>.
    \<open>Db_Invariant\<close>: the invariant of the stored data over every reachable state of the server (C19).
    \<open>Answers\<close>: the frames that answer a request (locale \<open>cipher\<close>, C20).
  \<^item> \<open>Check_Password\<close>: \<^verbatim>\<open>check_password.c\<close> (C15).  \<open>Clidb\<close>: \<^verbatim>\<open>clidb.c\<close> over a dbm library (locale \<open>dbm\<close>, C16, C18).
    \<open>Socketcli\<close>: \<^verbatim>\<open>socketcli.c\<close>.  \<open>Clishell\<close>: \<^verbatim>\<open>clishell.c\<close> with the heartbeat thread (C24 to C26).
  \<^item> \<open>End_To_End\<close>: client and server composed over a network that delivers (locale \<open>connection\<close>, which extends
    \<open>cipher\<close> and \<open>dbm\<close>): whole requests from the user interface to the tables and back (C22, C23).
  \<^item> \<open>Ncgui_Text\<close>: the string functions of \<^verbatim>\<open>ncgui.c\<close> and the language of search keywords (C28 to C31).
    \<open>Ncgui_Input\<close>: lists, floors and depths (C32 to C34).  \<open>Ncgui_Login\<close>: typing, the registration and the login page
    (C35 to C37).  \<open>Ncgui_Books\<close>: one page of books; \<open>Paging\<close>: turning the pages of a shelf, down to the
    tables of the server (C38).  \<open>Ncgui_Show\<close>: the texts printed for books, labels, searches and the menu.
  \<^item> \<open>Ui_Run\<close>: runs that return, stop or go on for ever, and the rules for their invariants.  \<open>Ncgui_Pages\<close>: all
    pages behind the login and \<^verbatim>\<open>main\<close> of \<^verbatim>\<open>bookMan.c\<close>, over one state \<open>ui\<close> with the keys that will be pressed, the globals
    and static variables, the client, and a log of pages, identity checks and changes.  \<open>Page_Safety\<close>: the locales
    \<open>page_invariant\<close>, \<open>change_invariant\<close> and \<open>guarded_pages\<close>, interpreted on the log.
    \<open>Page_Runs\<close>: every change is checked in every run of the program (C39), and the deletion of a shelf (C40).

  \<^bold>\<open>Conventions.\<close>  An operation takes the state and returns the C result, what it writes through its pointers and
  the new state.  \<^const>\<open>None\<close> is undefined behaviour of the C code (a write outside a buffer, an index out of
  range) or a call that does not return; each theory says which.  What the kernel answers (\<^verbatim>\<open>select\<close>, \<^verbatim>\<open>accept\<close>,
  \<^verbatim>\<open>recv\<close>, \<^verbatim>\<open>send\<close>, random bytes, the clock, the keyboard) is an argument, so theorems hold for every answer unless a
  hypothesis says otherwise.  Memory the code leaves uninitialised is an argument as well.

  \<^bold>\<open>Loops.\<close>  No theorem rests on fuel.  Loops over rows, floors or descriptors are recursive functions with
  termination proofs; the loops of \<^verbatim>\<open>clishell.c\<close> that read answers until an end mark (\<open>find_loop\<close>,
  \<open>sync_loop\<close>) are \<^theory_text>\<open>partial_function (option)\<close>, and C22, C23 and C38 prove that they return on a working system.
  The loops of the pages are instances of one partial function, \<open>loop\<close> of \<open>Ui_Run\<close>; C39 speaks about every run that ends or waits for a key.
  The reading of random bytes consumes a script of outcomes.

  \<^bold>\<open>Parameters.\<close>  MySQL, OpenSSL's AES, cracklib, the dbm library and \<^verbatim>\<open>wgetnstr\<close> of ncurses are not the program's own
  code: they are records of functions, and their documented laws are the locales above or the predicate
  \<open>aes_lawful\<close>.  Each is instantiated by a concrete implementation for the witnesses.

  \<^bold>\<open>Not modelled.\<close>  Where things are drawn on the screen (the ncurses calls of \<^verbatim>\<open>ncgui.c\<close>, \<^verbatim>\<open>draw_shelf_profile\<close>, \<^verbatim>\<open>draw_login_framework\<close>,
  \<^verbatim>\<open>clear_line\<close>, \<^verbatim>\<open>error_line\<close>), the assembler routine \<^verbatim>\<open>x86.S\<close> of \<^verbatim>\<open>crypt_blowfish\<close> (for 32-bit machines), cracklib and the OpenLDAP headers, and the
  programs under \<^verbatim>\<open>TESTDIR\<close>.  Text of a statement is abstracted to its format string and arguments: a user name
  that is not an identifier, or a time with a quote, leaves the scope of the statement's law
  (\<open>stmt_in_scope\<close>), so the theorems speak about requests whose texts stay inside their literals.
\<close>

end
